(* ===== verification/FP_Prelude.thy ===== *)
theory FP_Prelude imports Main "HOL-Library.Sublist" "HOL-Library.List_Lexorder" "HOL-Library.Char_ord" begin

text \<open>
  The shared prelude of the FeedPulse development.
  It holds what every component theory uses:
  \<^item> the string operations of the JavaScript standard library the program calls
    (\<open>trim\<close>, \<open>split\<close>, \<open>join\<close>, \<open>replaceAll\<close>, \<open>includes\<close>, \<open>parseInt\<close>, number printing),
    on strings of code units below U+0100 (\<^typ>\<open>string\<close>);
  \<^item> the reading of the SQL statements the repositories issue: a table is the list of its rows in
    insertion order, \<open>UPDATE .. SET .. WHERE\<close> is \<open>sql_update\<close>, its \<open>RETURNING\<close> clause is
    \<open>sql_returning\<close>, a lookup by primary key is \<open>row_by\<close>;
  \<^item> the locale \<open>keyed_update\<close>: what every row update that keeps the primary key promises;
  \<^item> the result type of fallible operations: \<open>Inl\<close> an error, \<open>Inr\<close> a value.
\<close>

named_theorems js_simps and row_simps and step_simps

section \<open>JavaScript string operations\<close>

text \<open>
  White space of \<open>String.prototype.trim\<close> and of \<open>\s\<close> below U+0100: TAB, LF, VT, FF, CR,
  SPACE and NO-BREAK SPACE.
\<close>

definition js_ws :: "char \<Rightarrow> bool" where
  "js_ws c \<longleftrightarrow> (of_char c :: nat) \<in> {9, 10, 11, 12, 13, 32, 160}"

definition drop_end :: "('a \<Rightarrow> bool) \<Rightarrow> 'a list \<Rightarrow> 'a list" where
  "drop_end P xs = rev (dropWhile P (rev xs))"

definition js_trim :: "string \<Rightarrow> string" where
  "js_trim s = drop_end js_ws (dropWhile js_ws s)"

text \<open>\<open>toLowerCase\<close> below U+0100: A..Z and U+00C0..U+00DE without the multiplication sign.\<close>

definition js_lower_char :: "char \<Rightarrow> char" where
  "js_lower_char c =
     (let n = (of_char c :: nat) in
      if (65 \<le> n \<and> n \<le> 90) \<or> (192 \<le> n \<and> n \<le> 222 \<and> n \<noteq> 215) then char_of (n + 32) else c)"

definition js_lower :: "string \<Rightarrow> string" where
  "js_lower s = map js_lower_char s"

definition js_includes :: "string \<Rightarrow> string \<Rightarrow> bool" where
  "js_includes hay needle = sublist needle hay"

fun js_split :: "'a \<Rightarrow> 'a list \<Rightarrow> 'a list list" where
  "js_split c [] = [[]]"
| "js_split c (x # xs) =
     (if x = c then [] # js_split c xs
      else (case js_split c xs of [] \<Rightarrow> [[x]] | y # ys \<Rightarrow> (x # y) # ys))"

fun js_join :: "'a list \<Rightarrow> 'a list list \<Rightarrow> 'a list" where
  "js_join sep [] = []"
| "js_join sep [x] = x"
| "js_join sep (x # y # ys) = x @ sep @ js_join sep (y # ys)"

text \<open>\<open>replaceAll\<close> of a one-character pattern.\<close>

definition js_replace_char :: "char \<Rightarrow> string \<Rightarrow> string \<Rightarrow> string" where
  "js_replace_char c r s = concat (map (\<lambda>x. if x = c then r else [x]) s)"

text \<open>\<open>replace(/x{2,}/g, 'x')\<close>: every run of the character becomes one.\<close>

fun collapse_runs :: "'a \<Rightarrow> 'a list \<Rightarrow> 'a list" where
  "collapse_runs c [] = []"
| "collapse_runs c [x] = [x]"
| "collapse_runs c (x # y # ys) =
     (if x = c \<and> y = c then collapse_runs c (y # ys) else x # collapse_runs c (y # ys))"

definition is_digit :: "char \<Rightarrow> bool" where
  "is_digit c \<longleftrightarrow> 48 \<le> (of_char c :: nat) \<and> (of_char c :: nat) \<le> 57"

definition digit_char :: "nat \<Rightarrow> char" where
  "digit_char n = char_of (48 + n)"

definition digit_val :: "char \<Rightarrow> nat" where
  "digit_val c = of_char c - 48"

text \<open>\<open>String(n)\<close> of a non-negative integer.\<close>

fun dec :: "nat \<Rightarrow> string" where
  "dec n = (if n < 10 then [digit_char n] else dec (n div 10) @ [digit_char (n mod 10)])"

declare dec.simps [simp del]

definition digits_val :: "string \<Rightarrow> nat" where
  "digits_val ds = foldl (\<lambda>v c. 10 * v + digit_val c) 0 ds"

text \<open>\<open>Number.parseInt(s, 10)\<close>; \<open>None\<close> is NaN.\<close>

definition js_parseInt :: "string \<Rightarrow> int option" where
  "js_parseInt s =
     (let t = dropWhile js_ws s;
          neg = (case t of [] \<Rightarrow> False | c # _ \<Rightarrow> c = CHR ''-'');
          u = (case t of [] \<Rightarrow> [] | c # r \<Rightarrow> (if c = CHR ''-'' \<or> c = CHR ''+'' then r else t));
          ds = takeWhile is_digit u
      in if ds = [] then None
         else Some (if neg then - int (digits_val ds) else int (digits_val ds)))"

subsection \<open>Facts about the string operations\<close>

lemma drop_end_Nil [simp]: "drop_end P [] = []"
  by (simp add: drop_end_def)

lemma drop_end_idem [simp]: "drop_end P (drop_end P xs) = drop_end P xs"
  by (simp add: drop_end_def)

lemma drop_end_snoc: "drop_end P (xs @ [x]) = (if P x then drop_end P xs else xs @ [x])"
  by (simp add: drop_end_def)

lemma drop_end_last: "drop_end P xs \<noteq> [] \<Longrightarrow> \<not> P (last (drop_end P xs))"
  by (induction xs rule: rev_induct) (auto simp: drop_end_snoc split: if_splits)

lemma drop_end_prefix: "\<exists>ys. xs = drop_end P xs @ ys \<and> (\<forall>y \<in> set ys. P y)"
proof (induction xs rule: rev_induct)
  case Nil
  then show ?case by simp
next
  case (snoc x xs)
  then obtain ys where "xs = drop_end P xs @ ys" and "\<forall>y \<in> set ys. P y" by blast
  then have "P x \<longrightarrow> xs @ [x] = drop_end P (xs @ [x]) @ ys @ [x] \<and> (\<forall>y \<in> set (ys @ [x]). P y)"
    by (auto simp: drop_end_snoc)
  then show ?case by (cases "P x") (blast, simp add: drop_end_snoc)
qed

lemma drop_end_id: "xs = [] \<or> \<not> P (last xs) \<Longrightarrow> drop_end P xs = xs"
  by (induction xs rule: rev_induct) (auto simp: drop_end_snoc)

lemma drop_end_append:
  "drop_end P (xs @ ys) = (if drop_end P ys = [] then drop_end P xs else xs @ drop_end P ys)"
  by (induction ys rule: rev_induct) (auto simp: drop_end_snoc simp flip: append_assoc)

lemma dropWhile_drop_end:
  "dropWhile P xs = xs \<Longrightarrow> dropWhile P (drop_end P xs) = drop_end P xs"
proof (cases xs)
  case (Cons x ys)
  assume "dropWhile P xs = xs"
  with Cons have "\<not> P x" by (metis dropWhile.simps(2) impossible_Cons length_dropWhile_le)
  obtain zs where zs: "xs = drop_end P xs @ zs" and "\<forall>z \<in> set zs. P z"
    using drop_end_prefix [of xs P] by blast
  then show ?thesis
    using \<open>\<not> P x\<close> Cons by (cases "drop_end P xs") auto
qed simp

lemma js_trim_idem [js_simps]: "js_trim (js_trim s) = js_trim s"
proof -
  have "dropWhile js_ws (drop_end js_ws (dropWhile js_ws s)) = drop_end js_ws (dropWhile js_ws s)"
    by (rule dropWhile_drop_end) simp
  then show ?thesis by (simp add: js_trim_def)
qed

lemma js_split_neq_Nil [simp]: "js_split c s \<noteq> []"
  by (induction s) (auto split: list.splits)

lemma js_join_Cons: "ys \<noteq> [] \<Longrightarrow> js_join sep (x # ys) = x @ sep @ js_join sep ys"
  by (cases ys) auto

lemma js_join_split [js_simps]: "js_join [c] (js_split c s) = s"
proof (induction s)
  case (Cons x xs)
  show ?case
  proof (cases "js_split c xs")
    case (Cons y ys)
    with Cons.IH show ?thesis by (cases ys) (auto simp: js_join_Cons)
  qed simp
qed simp

lemma js_split_no_sep: "c \<notin> set s \<Longrightarrow> js_split c s = [s]"
  by (induction s) auto

lemma js_split_append_sep:
  "c \<notin> set x \<Longrightarrow> js_split c (x @ c # s) = x # js_split c s"
  by (induction x) auto

lemma js_split_join:
  "xs \<noteq> [] \<Longrightarrow> \<forall>x \<in> set xs. c \<notin> set x \<Longrightarrow> js_split c (js_join [c] xs) = xs"
proof (induction xs)
  case (Cons x xs)
  then show ?case
    by (cases xs) (auto simp: js_split_no_sep js_split_append_sep)
qed simp

lemma js_split_pieces: "x \<in> set (js_split c s) \<Longrightarrow> c \<notin> set x"
  by (induction s arbitrary: x) (auto split: list.splits if_splits)

lemma js_join_set: "set (js_join sep xs) \<subseteq> \<Union> (set ` set xs) \<union> set sep"
  by (induction sep xs rule: js_join.induct) auto

lemma js_replace_char_simps [js_simps]:
  "js_replace_char c r [] = []"
  "js_replace_char c r (x # s) = (if x = c then r else [x]) @ js_replace_char c r s"
  "js_replace_char c r (s @ t) = js_replace_char c r s @ js_replace_char c r t"
  by (simp_all add: js_replace_char_def)

lemma js_replace_char_id: "c \<notin> set s \<Longrightarrow> js_replace_char c r s = s"
  by (induction s) (auto simp: js_simps)

lemma js_replace_char_gone: "c \<notin> set r \<Longrightarrow> c \<notin> set (js_replace_char c r s)"
  by (induction s) (auto simp: js_simps)

lemma js_replace_char_set: "set (js_replace_char c r s) \<subseteq> set s \<union> set r"
  by (induction s) (auto simp: js_simps split: if_splits)

lemma js_lower_append [js_simps]: "js_lower (s @ t) = js_lower s @ js_lower t"
  by (simp add: js_lower_def)

lemma js_lower_char_idem: "js_lower_char (js_lower_char c) = js_lower_char c"
proof -
  have "(of_char c :: nat) < 256" by simp
  then show ?thesis
    unfolding js_lower_char_def Let_def by (auto simp: of_char_of)
qed

lemma js_lower_idem [js_simps]: "js_lower (js_lower s) = js_lower s"
  by (simp add: js_lower_def js_lower_char_idem)

lemma collapse_runs_hd: "xs \<noteq> [] \<Longrightarrow> \<exists>ys. collapse_runs c xs = hd xs # ys"
proof (induction c xs rule: collapse_runs.induct)
  case (3 c x y ys)
  then show ?case by (cases "x = c \<and> y = c") auto
qed auto

lemma collapse_runs_idem [js_simps]: "collapse_runs c (collapse_runs c xs) = collapse_runs c xs"
proof (induction c xs rule: collapse_runs.induct)
  case (3 c x y ys)
  obtain zs where zs: "collapse_runs c (y # ys) = y # zs"
    using collapse_runs_hd [of "y # ys" c] by auto
  from 3 show ?case by (cases "x = c \<and> y = c") (auto simp: zs)
qed auto

lemma collapse_runs_id: "\<not> sublist [c, c] xs \<Longrightarrow> collapse_runs c xs = xs"
  by (induction c xs rule: collapse_runs.induct) (auto simp: sublist_Cons_right)

subsection \<open>Decimal numerals\<close>

lemma digit_char_simps [simp]:
  "n < 10 \<Longrightarrow> is_digit (digit_char n)"
  "n < 10 \<Longrightarrow> digit_val (digit_char n) = n"
  by (simp_all add: is_digit_def digit_char_def digit_val_def of_char_of)

lemma dec_digits: "\<forall>c \<in> set (dec n). is_digit c"
proof (induction n rule: dec.induct)
  case (1 n)
  then show ?case by (subst dec.simps) (auto split: if_splits)
qed

lemma dec_neq_Nil [simp]: "dec n \<noteq> []"
  by (subst dec.simps) simp

lemma digits_val_dec [js_simps]: "digits_val (dec n) = n"
proof (induction n rule: dec.induct)
  case (1 n)
  then show ?case by (subst dec.simps) (auto simp: digits_val_def)
qed

lemma dec_inject [simp]: "dec m = dec n \<longleftrightarrow> m = n"
  using digits_val_dec by metis

lemma is_digit_not_ws: "is_digit c \<Longrightarrow> \<not> js_ws c"
  by (auto simp: is_digit_def js_ws_def)

lemma is_digit_not_sign: "is_digit c \<Longrightarrow> c \<noteq> CHR ''-'' \<and> c \<noteq> CHR ''+''"
  by (auto simp: is_digit_def)

lemma js_parseInt_digits:
  assumes "ds \<noteq> []" and ds: "\<forall>c \<in> set ds. is_digit c" and "rest = [] \<or> \<not> is_digit (hd rest)"
  shows "js_parseInt (ds @ rest) = Some (int (digits_val ds))"
proof -
  obtain d ds' where d: "ds = d # ds'" using assms(1) by (cases ds) auto
  have "takeWhile is_digit (ds @ rest) = ds"
    using assms by (cases rest) (auto simp: takeWhile_append)
  then show ?thesis
    using d ds by (auto simp: js_parseInt_def Let_def is_digit_not_ws is_digit_not_sign)
qed

lemma js_parseInt_dec [js_simps]: "js_parseInt (dec n) = Some (int n)"
  using js_parseInt_digits [of "dec n" "[]"] by (simp add: dec_digits js_simps)

section \<open>Tables\<close>

text \<open>
  A table is the list of its rows. \<open>sql_update p f\<close> is \<open>UPDATE t SET f WHERE p\<close>;
  \<open>sql_returning p f\<close> are the rows of its \<open>RETURNING *\<close>.
\<close>

definition sql_update :: "('r \<Rightarrow> bool) \<Rightarrow> ('r \<Rightarrow> 'r) \<Rightarrow> 'r list \<Rightarrow> 'r list" where
  "sql_update p f rows = map (\<lambda>r. if p r then f r else r) rows"

definition sql_returning :: "('r \<Rightarrow> bool) \<Rightarrow> ('r \<Rightarrow> 'r) \<Rightarrow> 'r list \<Rightarrow> 'r list" where
  "sql_returning p f rows = map f (filter p rows)"

definition row_by :: "('r \<Rightarrow> 'k) \<Rightarrow> 'k \<Rightarrow> 'r list \<Rightarrow> 'r option" where
  "row_by key k rows = find (\<lambda>r. key r = k) rows"

lemma sql_update_simps [row_simps]:
  "sql_update p f [] = []"
  "sql_update p f (r # rows) = (if p r then f r else r) # sql_update p f rows"
  by (simp_all add: sql_update_def)

lemma sql_update_length [row_simps]: "length (sql_update p f rows) = length rows"
  by (simp add: sql_update_def)

lemma sql_update_none: "\<forall>r \<in> set rows. \<not> p r \<Longrightarrow> sql_update p f rows = rows"
  by (induction rows) (auto simp: row_simps)

lemma in_sql_update:
  "s \<in> set (sql_update p f rows) \<longleftrightarrow> (\<exists>r \<in> set rows. s = (if p r then f r else r))"
  by (auto simp: sql_update_def)

lemma sql_update_filter_other:
  "\<forall>r \<in> set rows. p r \<longrightarrow> \<not> q r \<and> \<not> q (f r) \<Longrightarrow> filter q (sql_update p f rows) = filter q rows"
  by (induction rows) (auto simp: row_simps)

lemma row_by_simps [row_simps]:
  "row_by key k [] = None"
  "row_by key k (r # rows) = (if key r = k then Some r else row_by key k rows)"
  by (simp_all add: row_by_def)

lemma row_by_SomeD: "row_by key k rows = Some r \<Longrightarrow> r \<in> set rows \<and> key r = k"
  by (induction rows) (auto simp: row_simps split: if_splits)

lemma row_by_None_iff: "row_by key k rows = None \<longleftrightarrow> k \<notin> key ` set rows"
  by (induction rows) (auto simp: row_simps)

lemma find_SomeD: "find P xs = Some x \<Longrightarrow> x \<in> set xs \<and> P x"
  by (induction xs) (auto split: if_splits)

lemma row_by_append:
  "row_by key k (xs @ ys) = (case row_by key k xs of None \<Rightarrow> row_by key k ys | Some r \<Rightarrow> Some r)"
  by (induction xs) (auto simp: row_simps)

lemma row_by_distinct:
  "distinct (map key rows) \<Longrightarrow> r \<in> set rows \<Longrightarrow> row_by key (key r) rows = Some r"
  by (induction rows) (auto simp: row_simps image_iff)

text \<open>The contract of a row update that keeps the primary key.\<close>

locale keyed_update =
  fixes key :: "'r \<Rightarrow> 'k" and f :: "'r \<Rightarrow> 'r"
  assumes key_kept: "key (f r) = key r"
begin

lemma keys_kept: "map key (sql_update p f rows) = map key rows"
  by (induction rows) (auto simp: row_simps key_kept)

lemma distinct_kept: "distinct (map key (sql_update p f rows)) = distinct (map key rows)"
  by (simp add: keys_kept)

lemma row_by_update:
  "row_by key k (sql_update p f rows) = map_option (\<lambda>r. if p r then f r else r) (row_by key k rows)"
  by (induction rows) (auto simp: row_simps key_kept)

lemma row_by_update_key:
  "row_by key k (sql_update (\<lambda>r. key r = j) f rows) =
     (if k = j then map_option f (row_by key k rows) else row_by key k rows)"
  by (induction rows) (auto simp: row_simps key_kept)

end

text \<open>\<open>LIMIT n OFFSET k\<close>.\<close>

definition sql_page :: "nat \<Rightarrow> nat \<Rightarrow> 'r list \<Rightarrow> 'r list" where
  "sql_page limit offset rows = take limit (drop offset rows)"

section \<open>Optional values\<close>

text \<open>\<open>a ?? b\<close> and \<open>COALESCE(a, b)\<close>.\<close>

definition coalesce :: "'a option \<Rightarrow> 'a option \<Rightarrow> 'a option" where
  "coalesce a b = (case a of Some x \<Rightarrow> Some x | None \<Rightarrow> b)"

definition opt_else :: "'a option \<Rightarrow> 'a \<Rightarrow> 'a" where
  "opt_else a d = (case a of Some x \<Rightarrow> x | None \<Rightarrow> d)"

lemma coalesce_simps [simp]:
  "coalesce None b = b" "coalesce (Some x) b = Some x" "opt_else None d = d" "opt_else (Some x) d = x"
  by (simp_all add: coalesce_def opt_else_def)

end
