(* ===== verification/Js_Number.thy ===== *)
theory Js_Number imports Complex_Main FP_Prelude begin

text \<open>
  \<open>Number(s)\<close> of a string and the tests the program makes on its result. A number is an exact rational,
  an infinity or NaN: the rounding to 53 bits is left out.
\<close>

datatype jsnum = NaN | Inf bool | Fin rat

definition is_integer :: "jsnum \<Rightarrow> bool" where
  "is_integer n = (case n of Fin q \<Rightarrow> of_int \<lfloor>q\<rfloor> = q | _ \<Rightarrow> False)"

definition is_finite :: "jsnum \<Rightarrow> bool" where
  "is_finite n = (case n of Fin q \<Rightarrow> True | _ \<Rightarrow> False)"

definition int_of :: "jsnum \<Rightarrow> int" where
  "int_of n = (case n of Fin q \<Rightarrow> \<lfloor>q\<rfloor> | _ \<Rightarrow> 0)"

text \<open>\<open>Number.isInteger(n)\<close> and the value.\<close>

definition as_integer :: "jsnum \<Rightarrow> int option" where
  "as_integer n = (if is_integer n then Some (int_of n) else None)"

text \<open>\<open>10 ^ e\<close> for an integer exponent.\<close>

definition ten_to :: "int \<Rightarrow> rat" where
  "ten_to e = (if 0 \<le> e then 10 ^ nat e else 1 / 10 ^ nat (- e))"

definition base_digit :: "nat \<Rightarrow> char \<Rightarrow> nat option" where
  "base_digit r c =
     (let n = of_char c :: nat;
          v = (if 48 \<le> n \<and> n \<le> 57 then n - 48 else if 97 \<le> n \<and> n \<le> 102 then n - 87
               else if 65 \<le> n \<and> n \<le> 70 then n - 55 else 99)
      in if v < r then Some v else None)"

definition based :: "nat \<Rightarrow> string \<Rightarrow> jsnum" where
  "based r ds =
     (if ds = [] \<or> (\<exists>c \<in> set ds. base_digit r c = None) then NaN
      else Fin (of_nat (foldl (\<lambda>v c. r * v + the (base_digit r c)) 0 ds)))"

definition exponent :: "string \<Rightarrow> int option" where
  "exponent s =
     (let neg = (s \<noteq> [] \<and> hd s = CHR ''-''); ds = (if s \<noteq> [] \<and> (hd s = CHR ''-'' \<or> hd s = CHR ''+'') then tl s else s)
      in if ds = [] \<or> (\<exists>c \<in> set ds. \<not> is_digit c) then None
         else Some (if neg then - int (digits_val ds) else int (digits_val ds)))"

text \<open>An unsigned decimal literal: digits, a fraction, an exponent.\<close>

definition decimal :: "string \<Rightarrow> jsnum" where
  "decimal s =
     (let ip = takeWhile is_digit s; r1 = dropWhile is_digit s;
          dot = (r1 \<noteq> [] \<and> hd r1 = CHR ''.'');
          fp = (if dot then takeWhile is_digit (tl r1) else []);
          r2 = (if dot then dropWhile is_digit (tl r1) else r1);
          m = of_nat (digits_val (ip @ fp)) * ten_to (- int (length fp))
      in if ip @ fp = [] then NaN
         else if r2 = [] then Fin m
         else if hd r2 = CHR ''e'' \<or> hd r2 = CHR ''E''
         then (case exponent (tl r2) of None \<Rightarrow> NaN | Some e \<Rightarrow> Fin (m * ten_to e))
         else NaN)"

definition negated :: "jsnum \<Rightarrow> jsnum" where
  "negated n = (case n of NaN \<Rightarrow> NaN | Inf neg \<Rightarrow> Inf (\<not> neg) | Fin q \<Rightarrow> Fin (- q))"

definition unsigned_number :: "string \<Rightarrow> jsnum" where
  "unsigned_number s = (if s = ''Infinity'' then Inf False else decimal s)"

definition js_Number :: "string \<Rightarrow> jsnum" where
  "js_Number raw =
     (let s = js_trim raw in
      if s = [] then Fin 0
      else if take 2 s \<in> {''0x'', ''0X''} then based 16 (drop 2 s)
      else if take 2 s \<in> {''0o'', ''0O''} then based 8 (drop 2 s)
      else if take 2 s \<in> {''0b'', ''0B''} then based 2 (drop 2 s)
      else if hd s = CHR ''-'' then negated (unsigned_number (tl s))
      else if hd s = CHR ''+'' then unsigned_number (tl s)
      else unsigned_number s)"

lemma as_integer_nat [simp]: "as_integer (Fin (of_nat n)) = Some (int n)"
  by (simp add: as_integer_def is_integer_def int_of_def)

lemma decimal_digits:
  "ds \<noteq> [] \<Longrightarrow> \<forall>c \<in> set ds. is_digit c \<Longrightarrow> decimal ds = Fin (of_nat (digits_val ds))"
  by (simp add: decimal_def Let_def ten_to_def takeWhile_eq_all_conv [THEN iffD2] dropWhile_eq_Nil_conv [THEN iffD2])

text \<open>The decimal numeral of a natural number reads back as that number.\<close>

lemma js_Number_dec: "js_Number (dec n) = Fin (of_nat n)"
proof -
  obtain c ds where d: "dec n = c # ds" by (cases "dec n") auto
  have all: "\<forall>x \<in> set (dec n). is_digit x" by (rule dec_digits)
  then have c: "is_digit c" and ws: "\<forall>x \<in> set (dec n). \<not> js_ws x" using d is_digit_not_ws by auto
  have "js_trim (dec n) = dec n"
    using ws d by (cases "ds = []") (auto simp: js_trim_def intro!: drop_end_id)
  moreover have "take 2 (dec n) \<notin> {''0x'', ''0X'', ''0o'', ''0O'', ''0b'', ''0B''}"
    using all d by (cases ds) (auto simp: is_digit_def)
  moreover have "unsigned_number (dec n) = Fin (of_nat n)"
  proof -
    have "dec n \<noteq> ''Infinity''"
    proof
      assume "dec n = ''Infinity''"
      with all show False by (simp add: is_digit_def)
    qed
    then show ?thesis using all by (simp add: unsigned_number_def decimal_digits js_simps)
  qed
  ultimately show ?thesis
    using is_digit_not_sign [OF c] d by (auto simp: js_Number_def)
qed

end
