(* ===== verification/Http_Common.thy ===== *)
theory Http_Common imports Js_Number begin

text \<open>
  What the HTTP handlers share: the request as far as they read it, the tenant context of
  \<open>src/shared/http/tenant-context.ts\<close>, the response envelopes of \<open>src/shared/http/response.ts\<close> and the
  exceptions a handler throws. Header values of repeated headers, and the clock and the random request id
  of the envelopes, are inputs.
\<close>

section \<open>Exceptions\<close>

datatype api_error =
    BadRequest string
  | Unauthorized string
  | Forbidden string string
  | NotFound string
  | Conflict string
  | PayloadTooLarge string
  | UnprocessableEntity string
  | ServiceUnavailable string
  | Unexpected string

section \<open>Requests and the tenant\<close>

record request =
  rq_method :: string
  rq_path :: string
  rq_url :: string
  rq_headers :: "(string \<times> string) list"
  rq_ip :: "string option"
  rq_api_key :: "string option"
  rq_tenant :: "string option"

text \<open>\<open>request.header(name)\<close>; the names are kept in lower case.\<close>

definition request_header :: "request \<Rightarrow> string \<Rightarrow> string option" where
  "request_header r name = map_of (rq_headers r) name"

definition LEGACY_TENANT_ID :: string where "LEGACY_TENANT_ID = ''legacy''"

definition getBearerTokenFromRequest :: "request \<Rightarrow> string option" where
  "getBearerTokenFromRequest r =
     (case request_header r ''authorization'' of
        None \<Rightarrow> None
      | Some authorization \<Rightarrow>
          if prefix ''bearer '' (js_lower authorization) then
            (let v = js_trim (drop 7 authorization) in if v \<noteq> '''' then Some v else None)
          else None)"

definition getApiKeyFromRequest :: "request \<Rightarrow> string option" where
  "getApiKeyFromRequest r =
     (let x = (case map_option js_trim (request_header r ''x-api-key'') of
                 None \<Rightarrow> None | Some k \<Rightarrow> if k = '''' then None else Some k)
      in case getBearerTokenFromRequest r of
           None \<Rightarrow> x
         | Some bearer \<Rightarrow> if CHR ''.'' \<notin> set bearer then Some bearer else x)"

text \<open>\<open>sha256\<close> gives the hexadecimal digest.\<close>

definition deriveTenantIdFromApiKey :: "(string \<Rightarrow> string) \<Rightarrow> string \<Rightarrow> string" where
  "deriveTenantIdFromApiKey sha256 apiKey = ''ak_'' @ take 24 (sha256 apiKey)"

definition deriveTenantIdFromClerkPrincipal :: "(string \<Rightarrow> string) \<Rightarrow> string \<Rightarrow> string" where
  "deriveTenantIdFromClerkPrincipal sha256 subject = ''ck_'' @ take 24 (sha256 subject)"

definition resolveTenantIdFromRequest :: "request \<Rightarrow> api_error + string" where
  "resolveTenantIdFromRequest r =
     (case rq_tenant r of
        None \<Rightarrow> Inl (Unauthorized ''missing_tenant_context'')
      | Some t \<Rightarrow> if t = '''' then Inl (Unauthorized ''missing_tenant_context'') else Inr t)"

section \<open>Envelopes\<close>

record api_meta =
  meta_timestamp :: nat
  meta_request_id :: string

record paginated_meta = api_meta +
  meta_page :: nat
  meta_page_size :: nat
  meta_total :: nat
  has_next :: bool

definition getRequestId :: "string \<Rightarrow> request \<Rightarrow> string" where
  "getRequestId randomUUID r = opt_else (request_header r ''x-request-id'') randomUUID"

definition successResponse :: "nat \<Rightarrow> string \<Rightarrow> request \<Rightarrow> 'a \<Rightarrow> 'a \<times> api_meta" where
  "successResponse now uuid r data = (data, \<lparr>meta_timestamp = now, meta_request_id = getRequestId uuid r\<rparr>)"

definition paginatedResponse :: "nat \<Rightarrow> string \<Rightarrow> request \<Rightarrow> 'a list \<Rightarrow> nat \<Rightarrow> nat \<Rightarrow> nat \<Rightarrow> 'a list \<times> paginated_meta" where
  "paginatedResponse now uuid r data page pageSize count =
     (data, \<lparr>meta_timestamp = now, meta_request_id = getRequestId uuid r, meta_page = page,
             meta_page_size = pageSize, meta_total = count, has_next = (page * pageSize < count)\<rparr>)"

lemma resolveTenantId_Inr: "resolveTenantIdFromRequest r = Inr t \<longleftrightarrow> rq_tenant r = Some t \<and> t \<noteq> ''''"
  by (auto simp: resolveTenantIdFromRequest_def split: option.splits)

lemma resolveTenantId_cases:
  obtains e where "resolveTenantIdFromRequest r = Inl (Unauthorized e)" | t where "resolveTenantIdFromRequest r = Inr t"
proof (cases "resolveTenantIdFromRequest r")
  case (Inl e)
  then have "e = Unauthorized ''missing_tenant_context''"
    by (auto simp: resolveTenantIdFromRequest_def split: option.splits if_splits)
  with Inl that(1) show thesis by blast
qed (rule that(2))

end
