(* ===== verification/Url_Safety.thy ===== *)
theory Url_Safety imports FP_Prelude "HOL-Library.Word" begin

unbundle bit_operations_syntax

text \<open>
  The SSRF guard, \<open>src/shared/http/url-safety.ts\<close>: the host patterns, the normalisation of host
  names (brackets, IPv4-mapped IPv6), and the check every outbound request goes through.
  A parsed \<open>URL\<close> is the record \<open>url\<close> of its components; the WHATWG parser itself is part of the
  Node platform, so \<open>new URL\<close> is the parameter \<open>parseURL\<close>.
  Theorems: which IPv4 literals are refused, over all 2^32 addresses and their IPv4-mapped IPv6
  forms; what an accepted URL guarantees; the error of every refused one.
\<close>

section \<open>URLs\<close>

text \<open>
  The components the WHATWG \<open>URL\<close> object exposes. \<open>hostless\<close> and \<open>opaque\<close> distinguish
  \<open>foo:/a\<close> and \<open>mailto:x\<close> from URLs with an authority.
\<close>

record url =
  protocol :: string
  userinfo :: string
  hostname :: string
  port :: string
  pathname :: string
  search :: string
  fragment :: string
  hostless :: bool
  opaque :: bool

text \<open>\<open>URL.prototype.toString\<close>, and the component setters, which ignore an opaque URL.\<close>

definition href :: "url \<Rightarrow> string" where
  "href u =
     protocol u
     @ (if hostless u then ''''
        else ''//'' @ userinfo u @ hostname u @ (if port u = '''' then '''' else CHR '':'' # port u))
     @ pathname u @ search u @ fragment u"

definition set_hostname :: "url \<Rightarrow> string \<Rightarrow> url" where
  "set_hostname u h = (if hostless u then u else u\<lparr>hostname := h\<rparr>)"

definition clear_port :: "url \<Rightarrow> url" where
  "clear_port u = u\<lparr>port := ''''\<rparr>"

definition set_pathname :: "url \<Rightarrow> string \<Rightarrow> url" where
  "set_pathname u p = (if opaque u then u else u\<lparr>pathname := p\<rparr>)"

datatype url_input = UrlString string | UrlObject url

datatype url_error = UnsafeProtocolError | UnsafeHostError

section \<open>Host name patterns\<close>

definition is_hex :: "char \<Rightarrow> bool" where
  "is_hex c \<longleftrightarrow> is_digit c \<or> (97 \<le> (of_char c :: nat) \<and> (of_char c :: nat) \<le> 102)"

definition hex_digit_val :: "char \<Rightarrow> nat" where
  "hex_digit_val c = (if is_digit c then digit_val c else of_char c - 87)"

text \<open>\<open>Number.parseInt(s, 16)\<close> on a string of hexadecimal digits.\<close>

definition parse_hex :: "string \<Rightarrow> nat" where
  "parse_hex s = foldl (\<lambda>v c. 16 * v + hex_digit_val c) 0 s"

text \<open>\<open>/^172\.(1[6-9]|2[0-9]|3[01])\./\<close> after its first four characters.\<close>

fun private_172_rest :: "string \<Rightarrow> bool" where
  "private_172_rest (x # y # z # _) \<longleftrightarrow>
     z = CHR ''.'' \<and>
     (x = CHR ''1'' \<and> is_digit y \<and> 6 \<le> digit_val y
      \<or> x = CHR ''2'' \<and> is_digit y
      \<or> x = CHR ''3'' \<and> (y = CHR ''0'' \<or> y = CHR ''1''))"
| "private_172_rest _ \<longleftrightarrow> False"

text \<open>\<open>/^f<x>[0-9a-f]{2}:/i\<close> for \<open>x\<close> one of \<open>c\<close> and \<open>d\<close>.\<close>

fun unique_local :: "char \<Rightarrow> string \<Rightarrow> bool" where
  "unique_local x (a # b # c # d # e # _) \<longleftrightarrow>
     js_lower_char a = CHR ''f'' \<and> js_lower_char b = x
     \<and> is_hex (js_lower_char c) \<and> is_hex (js_lower_char d) \<and> e = CHR '':''"
| "unique_local x _ \<longleftrightarrow> False"

text \<open>\<open>/^0(\.\d{1,3}){1,3}$/\<close>.\<close>

definition this_network :: "string \<Rightarrow> bool" where
  "this_network h =
     (case js_split (CHR ''.'') h of
        [] \<Rightarrow> False
      | z # gs \<Rightarrow> z = ''0'' \<and> 1 \<le> length gs \<and> length gs \<le> 3
          \<and> list_all (\<lambda>g. 1 \<le> length g \<and> length g \<le> 3 \<and> list_all is_digit g) gs)"

definition BLOCKED_HOSTS :: "(string \<Rightarrow> bool) list" where
  "BLOCKED_HOSTS =
     [\<lambda>h. js_lower h = ''localhost'',
      \<lambda>h. prefix ''127.'' h,
      \<lambda>h. prefix ''169.254.'' h,
      \<lambda>h. prefix ''10.'' h,
      \<lambda>h. prefix ''192.168.'' h,
      \<lambda>h. prefix ''172.'' h \<and> private_172_rest (drop 4 h),
      \<lambda>h. js_lower h = ''::1'',
      \<lambda>h. prefix ''fe80:'' (js_lower h),
      \<lambda>h. unique_local (CHR ''c'') h,
      \<lambda>h. unique_local (CHR ''d'') h,
      \<lambda>h. this_network h,
      \<lambda>h. h = ''::'']"

definition BLOCKED_HOST_SUFFIXES :: "string list" where
  "BLOCKED_HOST_SUFFIXES = [''.localhost'', ''.local'', ''.internal'', ''.home.arpa'']"

section \<open>The guard\<close>

text \<open>\<open>replace(/^\[|\]$/g, '')\<close>.\<close>

definition strip_brackets :: "string \<Rightarrow> string" where
  "strip_brackets s =
     (let t = (case s of [] \<Rightarrow> [] | c # r \<Rightarrow> if c = CHR ''['' then r else s)
      in if t \<noteq> [] \<and> last t = CHR '']'' then butlast t else t)"

text \<open>\<open>match(/^::ffff:(.+)$/)\<close>: the captured tail.\<close>

definition match_mapped :: "string \<Rightarrow> string option" where
  "match_mapped h =
     (let tail = drop 7 h
      in if prefix ''::ffff:'' h \<and> tail \<noteq> '''' \<and> CHR 0x0A \<notin> set tail \<and> CHR 0x0D \<notin> set tail
         then Some tail else None)"

definition hex_group :: "string \<Rightarrow> bool" where
  "hex_group g \<longleftrightarrow> 1 \<le> length g \<and> length g \<le> 4 \<and> list_all is_hex g"

definition normalizeHostname :: "string \<Rightarrow> string" where
  "normalizeHostname rawHostname =
     (let host = strip_brackets (js_lower rawHostname) in
      case match_mapped host of
        None \<Rightarrow> host
      | Some tail \<Rightarrow>
          if CHR ''.'' \<in> set tail then tail
          else (case js_split (CHR '':'') tail of
                  [highGroup, lowGroup] \<Rightarrow>
                    if \<not> hex_group highGroup \<or> \<not> hex_group lowGroup then host
                    else (let high = (of_nat (parse_hex highGroup) :: 32 word);
                              low = (of_nat (parse_hex lowGroup) :: 32 word)
                          in dec (unat (drop_bit 8 high)) @ ''.'' @ dec (unat (high AND 0xff)) @ ''.''
                             @ dec (unat (drop_bit 8 low)) @ ''.'' @ dec (unat (low AND 0xff)))
                | _ \<Rightarrow> host))"

definition isBlockedHostname :: "string \<Rightarrow> bool" where
  "isBlockedHostname host =
     (if list_ex (\<lambda>pattern. pattern host) BLOCKED_HOSTS then True
      else (let withoutTrailingDot =
                  (if suffix ''.'' host then butlast host else host)
            in if list_ex (\<lambda>s. suffix s withoutTrailingDot) BLOCKED_HOST_SUFFIXES then True
               else CHR ''.'' \<notin> set withoutTrailingDot \<and> CHR '':'' \<notin> set withoutTrailingDot))"

definition assertSafePublicUrl ::
  "(string \<Rightarrow> url option) \<Rightarrow> bool \<Rightarrow> url_input \<Rightarrow> url_error + url" where
  "assertSafePublicUrl parseURL allowPrivateHosts input =
     (case (case input of UrlString s \<Rightarrow> parseURL s | UrlObject u \<Rightarrow> Some u) of
        None \<Rightarrow> Inl UnsafeProtocolError
      | Some parsed \<Rightarrow>
          if protocol parsed \<noteq> ''http:'' \<and> protocol parsed \<noteq> ''https:'' then Inl UnsafeProtocolError
          else if allowPrivateHosts then Inr parsed
          else (let host = normalizeHostname (hostname parsed)
                in if host = '''' then Inl UnsafeHostError
                   else if isBlockedHostname host then Inl UnsafeHostError
                   else Inr parsed))"

definition isSafePublicUrl :: "(string \<Rightarrow> url option) \<Rightarrow> bool \<Rightarrow> url_input \<Rightarrow> bool" where
  "isSafePublicUrl parseURL allowPrivateHosts input =
     (case assertSafePublicUrl parseURL allowPrivateHosts input of Inr _ \<Rightarrow> True | Inl _ \<Rightarrow> False)"

text \<open>\<open>process.env\<close> is a map from variable names to values.\<close>

definition privateFeedHostsAllowedByEnv :: "(string \<Rightarrow> string option) \<Rightarrow> bool" where
  "privateFeedHostsAllowedByEnv env =
     (case env ''ALLOW_PRIVATE_FEED_HOSTS'' of
        None \<Rightarrow> False
      | Some v \<Rightarrow> js_lower (js_trim v) \<in> {''1'', ''true'', ''yes'', ''on''})"

text \<open>\<open>config\<close>: the value of \<open>allowPrivateFeedHosts\<close> when it is a boolean.\<close>

definition resolveAllowPrivateFeedHosts :: "(string \<Rightarrow> string option) \<Rightarrow> bool option \<Rightarrow> bool" where
  "resolveAllowPrivateFeedHosts env config =
     (case config of Some b \<Rightarrow> b | None \<Rightarrow> privateFeedHostsAllowedByEnv env)"

section \<open>Dotted quads\<close>

definition dotted :: "nat \<Rightarrow> nat \<Rightarrow> nat \<Rightarrow> nat \<Rightarrow> string" where
  "dotted a b c d = dec a @ CHR ''.'' # dec b @ CHR ''.'' # dec c @ CHR ''.'' # dec d"

definition private_ipv4 :: "nat \<Rightarrow> nat \<Rightarrow> bool" where
  "private_ipv4 a b \<longleftrightarrow>
     a = 0 \<or> a = 10 \<or> a = 127 \<or> (a = 169 \<and> b = 254) \<or> (a = 192 \<and> b = 168)
     \<or> (a = 172 \<and> 16 \<le> b \<and> b \<le> 31)"

lemma not_in_dec: "\<not> is_digit c \<Longrightarrow> c \<notin> set (dec n)"
  using dec_digits by blast

lemma dot_notin_dec [simp]: "CHR ''.'' \<notin> set (dec n)" "CHR '':'' \<notin> set (dec n)"
  by (rule not_in_dec, simp add: is_digit_def)+

lemma dec_1: "n < 10 \<Longrightarrow> dec n = [digit_char n]"
  by (subst dec.simps) simp

lemma dec_2: "10 \<le> n \<Longrightarrow> n < 100 \<Longrightarrow> dec n = [digit_char (n div 10), digit_char (n mod 10)]"
  by (subst dec.simps) (simp add: dec_1)

lemma dec_3: "100 \<le> n \<Longrightarrow> n < 1000 \<Longrightarrow>
  dec n = [digit_char (n div 100), digit_char (n div 10 mod 10), digit_char (n mod 10)]"
  by (subst dec.simps) (simp add: dec_2 div_mult2_eq [symmetric])

lemma dec_length: "n < 1000 \<Longrightarrow> 1 \<le> length (dec n) \<and> length (dec n) \<le> 3"
  by (cases "n < 10"; cases "n < 100") (simp_all add: dec_1 dec_2 dec_3)

lemma digit_char_eq_iff: "m < 10 \<Longrightarrow> n < 10 \<Longrightarrow> digit_char m = digit_char n \<longleftrightarrow> m = n"
  by (metis digit_char_simps(2))

lemma digit_char_literals:
  "CHR ''0'' = digit_char 0" "CHR ''1'' = digit_char 1" "CHR ''2'' = digit_char 2" "CHR ''3'' = digit_char 3"
  by code_simp+

lemma dot_not_digit: "CHR ''.'' \<noteq> digit_char 0" "CHR ''.'' \<noteq> digit_char 1"
  by code_simp+

lemma private_172_dec:
  assumes "b < 256"
  shows "private_172_rest (dec b @ CHR ''.'' # r) \<longleftrightarrow> 16 \<le> b \<and> b \<le> 31"
proof -
  consider "b < 10" | "10 \<le> b" "b < 100" | "100 \<le> b" by linarith
  then show ?thesis
  proof cases
    case 1
    have "private_172_rest (digit_char b # CHR ''.'' # r) = False"
      using dot_not_digit by (cases r) (auto simp: is_digit_def digit_char_literals)
    with 1 show ?thesis by (simp add: dec_1)
  next
    case 2
    have "b div 10 < 10" using 2 by simp
    then have "private_172_rest (dec b @ CHR ''.'' # r) \<longleftrightarrow>
        b div 10 = 1 \<and> 6 \<le> b mod 10 \<or> b div 10 = 2 \<or> b div 10 = 3 \<and> (b mod 10 = 0 \<or> b mod 10 = 1)"
      using 2 by (simp add: dec_2 digit_char_eq_iff digit_char_literals)
    also have "\<dots> \<longleftrightarrow> 16 \<le> b \<and> b \<le> 31"
    proof -
      obtain q r where "b = 10 * q + r" "r < 10" "b div 10 = q" "b mod 10 = r"
        by (metis div_mod_decomp mod_less_divisor mult.commute zero_less_numeral)
      then show ?thesis by auto
    qed
    finally show ?thesis .
  next
    case 3
    have "digit_char (b mod 10) \<noteq> CHR ''.''"
      using digit_char_simps(1) [of "b mod 10"] by (auto simp: is_digit_def)
    with 3 assms show ?thesis by (simp add: dec_3)
  qed
qed

lemma prefix_sep:
  "c \<notin> set p \<Longrightarrow> c \<notin> set q \<Longrightarrow> prefix (p @ [c]) (q @ c # r) \<longleftrightarrow> p = q"
proof (induction p arbitrary: q)
  case Nil
  then show ?case by (cases q) auto
next
  case (Cons x p)
  then show ?case by (cases q) auto
qed

lemma prefix_sep2:
  "c \<notin> set p \<Longrightarrow> c \<notin> set q \<Longrightarrow> prefix (p @ c # s) (q @ c # r) \<longleftrightarrow> p = q \<and> prefix s r"
proof (induction p arbitrary: q)
  case Nil
  then show ?case by (cases q) auto
next
  case (Cons x p)
  then show ?case by (cases q) auto
qed

lemma dotted_split: "js_split (CHR ''.'') (dotted a b c d) = [dec a, dec b, dec c, dec d]"
  by (simp add: dotted_def js_split_append_sep js_split_no_sep)

lemma dotted_chars: "x \<in> set (dotted a b c d) \<Longrightarrow> is_digit x \<or> x = CHR ''.''"
  using dec_digits by (auto simp: dotted_def)

lemma dotted_no_letter: "\<not> is_digit x \<Longrightarrow> x \<noteq> CHR ''.'' \<Longrightarrow> x \<notin> set (dotted a b c d)"
  using dotted_chars by blast


lemma dotted_not_blocked_literal:
  "js_lower (dotted a b c d) \<noteq> ''localhost''"
  "js_lower (dotted a b c d) \<noteq> ''::1''"
  "\<not> prefix ''fe80:'' (js_lower (dotted a b c d))"
  "dotted a b c d \<noteq> ''::''"
proof -
  have low: "js_lower (dotted a b c d) = dotted a b c d"
    unfolding js_lower_def
    by (rule map_idI) (auto dest!: dotted_chars simp: js_lower_char_def is_digit_def)
  have no: "CHR '':'' \<notin> set (dotted a b c d)" "CHR ''l'' \<notin> set (dotted a b c d)"
    by (rule dotted_no_letter; simp add: is_digit_def)+
  show "js_lower (dotted a b c d) \<noteq> ''localhost''" "js_lower (dotted a b c d) \<noteq> ''::1''"
    "\<not> prefix ''fe80:'' (js_lower (dotted a b c d))" "dotted a b c d \<noteq> ''::''"
    using no by (auto simp: low dest: set_mono_prefix)
qed

lemma dotted_not_unique_local: "\<not> unique_local x (dotted a b c d)"
proof (cases "(x, dotted a b c d)" rule: unique_local.cases)
  case (1 x' p q r s t u)
  have "CHR '':'' \<notin> set (dotted a b c d)"
    by (rule dotted_no_letter) (simp_all add: is_digit_def)
  with 1 show ?thesis by auto
qed auto

lemma prefix_dotted1: "prefix (dec n @ ''.'') (dotted a b c d) \<longleftrightarrow> a = n"
  using prefix_sep [of "CHR ''.''" "dec n" "dec a"] by (auto simp: dotted_def)

lemma prefix_dotted2: "prefix (dec n @ CHR ''.'' # dec m @ ''.'') (dotted a b c d) \<longleftrightarrow> a = n \<and> b = m"
  using prefix_sep [of "CHR ''.''" "dec m" "dec b"] by (auto simp: dotted_def prefix_sep2)

lemma dec_literals:
  "''127.'' = dec 127 @ ''.''" "''10.'' = dec 10 @ ''.''" "''172.'' = dec 172 @ ''.''" "''0'' = dec 0"
  "''169.254.'' = dec 169 @ CHR ''.'' # dec 254 @ ''.''"
  "''192.168.'' = dec 192 @ CHR ''.'' # dec 168 @ ''.''"
  by code_simp+

lemma dotted_this_network:
  "b < 256 \<Longrightarrow> c < 256 \<Longrightarrow> d < 256 \<Longrightarrow> this_network (dotted a b c d) \<longleftrightarrow> a = 0"
  using dec_length [of b] dec_length [of c] dec_length [of d] dec_digits
  by (auto simp: this_network_def dotted_split dec_literals list_all_iff)

lemma dotted_private_172:
  assumes "b < 256"
  shows "prefix ''172.'' (dotted a b c d) \<and> private_172_rest (drop 4 (dotted a b c d))
     \<longleftrightarrow> a = 172 \<and> 16 \<le> b \<and> b \<le> 31"
proof (cases "a = 172")
  case True
  have "drop 4 (dec 172 @ xs) = tl xs" for xs
    by (cases xs) (simp_all add: dec_3)
  with True assms show ?thesis
    by (simp add: dec_literals prefix_dotted1) (simp add: dotted_def private_172_dec)
next
  case False
  then show ?thesis by (simp add: dec_literals prefix_dotted1)
qed

lemma blocked_pattern_dotted:
  assumes "b < 256" "c < 256" "d < 256"
  shows "list_ex (\<lambda>p. p (dotted a b c d)) BLOCKED_HOSTS \<longleftrightarrow> private_ipv4 a b"
  unfolding BLOCKED_HOSTS_def private_ipv4_def list_ex_Cons_iff list_ex_Nil_iff
  using assms dotted_private_172 [OF assms(1), of a c d]
  by (simp add: dotted_not_blocked_literal dotted_not_unique_local dotted_this_network)
     (simp add: dec_literals prefix_dotted1 prefix_dotted2, blast)

lemma suffix_last: "suffix s t \<Longrightarrow> s \<noteq> [] \<Longrightarrow> last t = last s"
  by (auto simp: suffix_def)

lemma last_dec: "is_digit (last (dec n))"
  using dec_digits [of n] last_in_set [OF dec_neq_Nil] by blast

lemma last_dotted: "is_digit (last (dotted a b c d))"
  using last_dec [of d] by (simp add: dotted_def)

lemma dotted_no_suffix: "\<not> is_digit (last s) \<Longrightarrow> s \<noteq> [] \<Longrightarrow> \<not> suffix s (dotted a b c d)"
  using suffix_last last_dotted by metis

lemma isBlockedHostname_dotted:
  assumes "b < 256" "c < 256" "d < 256"
  shows "isBlockedHostname (dotted a b c d) \<longleftrightarrow> private_ipv4 a b"
proof -
  have "CHR ''.'' \<in> set (dotted a b c d)" by (simp add: dotted_def)
  then show ?thesis
    using blocked_pattern_dotted [OF assms, of a]
    by (simp add: isBlockedHostname_def BLOCKED_HOST_SUFFIXES_def dotted_no_suffix is_digit_def Let_def)
qed


section \<open>IPv4-mapped IPv6 addresses\<close>

lemma is_hex_lower: "is_hex c \<Longrightarrow> js_lower_char c = c"
  by (auto simp: is_hex_def is_digit_def js_lower_char_def)

lemma is_hex_not_sep: "is_hex c \<Longrightarrow> c \<noteq> CHR ''.'' \<and> c \<noteq> CHR '':'' \<and> c \<noteq> CHR 0x0A \<and> c \<noteq> CHR 0x0D"
  by (auto simp: is_hex_def is_digit_def)

lemma hex_groupD:
  assumes "hex_group g"
  shows "js_lower g = g" "CHR ''.'' \<notin> set g" "CHR '':'' \<notin> set g" "CHR 0x0A \<notin> set g" "CHR 0x0D \<notin> set g" "g \<noteq> []"
  using assms is_hex_not_sep is_hex_lower
  by (auto simp: hex_group_def list_all_iff js_lower_def map_idI)

lemma hex_digit_val_bound: "is_hex c \<Longrightarrow> hex_digit_val c < 16"
  by (auto simp: is_hex_def is_digit_def hex_digit_val_def digit_val_def)

lemma parse_hex_bound: "list_all is_hex g \<Longrightarrow> parse_hex g < 16 ^ length g"
proof (induction g rule: rev_induct)
  case (snoc c g)
  then have "parse_hex g + 1 \<le> 16 ^ length g" "hex_digit_val c < 16"
    by (auto simp: hex_digit_val_bound)
  moreover have "parse_hex (g @ [c]) = 16 * parse_hex g + hex_digit_val c"
    by (simp add: parse_hex_def)
  ultimately have "parse_hex (g @ [c]) < 16 * 16 ^ length g" by linarith
  then show ?case by simp
qed (simp add: parse_hex_def)

lemma hex_group_bound: "hex_group g \<Longrightarrow> parse_hex g < 65536"
proof -
  assume g: "hex_group g"
  then have "parse_hex g < 16 ^ length g" by (simp add: hex_group_def parse_hex_bound)
  also have "\<dots> \<le> (16 :: nat) ^ 4" using g by (intro power_increasing) (auto simp: hex_group_def)
  finally show ?thesis by simp
qed

lemma word_bytes:
  assumes "n < 65536"
  shows "unat (drop_bit 8 (of_nat n :: 32 word)) = n div 256"
    and "unat ((of_nat n :: 32 word) AND 0xff) = n mod 256"
proof -
  have u: "unat (of_nat n :: 32 word) = n" using assms by (simp add: unat_of_nat)
  show "unat (drop_bit 8 (of_nat n :: 32 word)) = n div 256"
    using u by (simp add: unat_drop_bit_eq drop_bit_eq_div unat_div)
  have m: "(0xff :: 32 word) = mask 8" by (simp add: mask_eq_exp_minus_1)
  have "(of_nat n :: 32 word) AND 0xff = take_bit 8 (of_nat n)"
    unfolding m take_bit_eq_mask ..
  then have "unat ((of_nat n :: 32 word) AND 0xff) = take_bit 8 n"
    by (simp only: unsigned_take_bit_eq u)
  then show "unat ((of_nat n :: 32 word) AND 0xff) = n mod 256"
    by (simp add: take_bit_eq_mod)
qed

definition mapped_ipv6 :: "string \<Rightarrow> string \<Rightarrow> string" where
  "mapped_ipv6 g1 g2 = ''[::ffff:'' @ g1 @ CHR '':'' # g2 @ '']''"

lemma normalizeHostname_mapped:
  assumes "hex_group g1" "hex_group g2"
  shows "normalizeHostname (mapped_ipv6 g1 g2) =
     dotted (parse_hex g1 div 256) (parse_hex g1 mod 256) (parse_hex g2 div 256) (parse_hex g2 mod 256)"
proof -
  let ?t = "g1 @ CHR '':'' # g2"
  have low: "js_lower (mapped_ipv6 g1 g2) = mapped_ipv6 g1 g2"
    using hex_groupD(1) [OF assms(1)] hex_groupD(1) [OF assms(2)]
    by (simp add: mapped_ipv6_def js_simps) (simp add: js_lower_def js_lower_char_def)
  have strip: "strip_brackets (mapped_ipv6 g1 g2) = ''::ffff:'' @ ?t"
    by (simp add: mapped_ipv6_def strip_brackets_def butlast_append)
  have mm: "match_mapped (''::ffff:'' @ ?t) = Some ?t"
    using hex_groupD [OF assms(1)] hex_groupD [OF assms(2)] by (auto simp: match_mapped_def Let_def)
  have sp: "js_split (CHR '':'') ?t = [g1, g2]"
    using hex_groupD [OF assms(1)] hex_groupD [OF assms(2)]
    by (simp add: js_split_append_sep js_split_no_sep)
  have dot: "CHR ''.'' \<notin> set ?t"
    using hex_groupD [OF assms(1)] hex_groupD [OF assms(2)] by auto
  show ?thesis
    unfolding normalizeHostname_def Let_def low strip mm option.case if_not_P [OF dot] sp list.case
    using assms by (simp add: word_bytes hex_group_bound dotted_def)
qed

lemma normalizeHostname_dotted: "normalizeHostname (dotted a b c d) = dotted a b c d"
proof -
  have low: "js_lower (dotted a b c d) = dotted a b c d"
    unfolding js_lower_def
    by (rule map_idI) (auto dest!: dotted_chars simp: js_lower_char_def is_digit_def)
  have no: "CHR ''['' \<notin> set (dotted a b c d)" "CHR '':'' \<notin> set (dotted a b c d)"
    by (rule dotted_no_letter; simp add: is_digit_def)+
  obtain x xs where xs: "dotted a b c d = x # xs" by (cases "dotted a b c d") (auto simp: dotted_def)
  have "last (x # xs) \<noteq> CHR '']''" using last_dotted [of a b c d] by (auto simp: xs is_digit_def)
  then have "strip_brackets (dotted a b c d) = dotted a b c d"
    using no(1) by (auto simp: xs strip_brackets_def Let_def)
  moreover have "\<not> prefix ''::ffff:'' (dotted a b c d)"
    using no(2) by (auto simp: xs)
  ultimately show ?thesis by (simp add: normalizeHostname_def low match_mapped_def)
qed

section \<open>Reserved names\<close>

definition drop_dot :: "string \<Rightarrow> string" where
  "drop_dot h = (if suffix ''.'' h then butlast h else h)"

lemma strip_brackets_suffix:
  assumes "suffix (CHR ''.'' # t) s" "last (CHR ''.'' # t) \<noteq> CHR '']''"
  shows "suffix (CHR ''.'' # t) (strip_brackets s)"
proof -
  have "last s \<noteq> CHR '']''" using assms suffix_last [OF assms(1)] by simp
  obtain p where p: "s = p @ CHR ''.'' # t" using assms(1) by (auto simp: suffix_def)
  show ?thesis
  proof (cases p)
    case Nil
    with p \<open>last s \<noteq> _\<close> show ?thesis by (simp add: strip_brackets_def)
  next
    case (Cons c q)
    with p \<open>last s \<noteq> _\<close> show ?thesis
      by (auto simp: strip_brackets_def Let_def suffix_def split: if_splits)
  qed
qed

lemma match_mapped_suffix:
  assumes "suffix (CHR ''.'' # t) h" "match_mapped h = Some tail"
  shows "suffix (CHR ''.'' # t) tail"
proof -
  obtain p where p: "h = p @ CHR ''.'' # t" using assms(1) by (auto simp: suffix_def)
  from assms(2) have pre: "prefix ''::ffff:'' h" and tail: "tail = drop 7 h"
    by (auto simp: match_mapped_def Let_def split: if_splits)
  have "7 \<le> length p"
  proof (rule ccontr)
    assume "\<not> 7 \<le> length p"
    then have lt: "length p < length ''::ffff:''" by simp
    obtain zs where zs: "h = ''::ffff:'' @ zs" using pre by (auto simp: prefix_def)
    have "h ! length p = ''::ffff:'' ! length p"
      unfolding zs nth_append using lt by (simp only: if_True)
    moreover have "h ! length p = CHR ''.''" by (simp add: p)
    moreover have "CHR ''.'' \<notin> set ''::ffff:''" by simp
    ultimately show False using nth_mem [OF lt] by metis
  qed
  then show ?thesis by (simp add: tail p suffix_def)
qed

lemma normalizeHostname_suffix:
  assumes "suffix (CHR ''.'' # t) (js_lower raw)" "last (CHR ''.'' # t) \<noteq> CHR '']''"
  shows "suffix (CHR ''.'' # t) (normalizeHostname raw)"
proof -
  let ?h = "strip_brackets (js_lower raw)"
  have h: "suffix (CHR ''.'' # t) ?h" using assms by (rule strip_brackets_suffix)
  show ?thesis
  proof (cases "match_mapped ?h")
    case None
    with h show ?thesis by (simp add: normalizeHostname_def Let_def)
  next
    case (Some tail)
    with h have "suffix (CHR ''.'' # t) tail" by (rule match_mapped_suffix)
    moreover from this have "CHR ''.'' \<in> set tail" by (auto simp: suffix_def)
    ultimately show ?thesis using Some by (simp add: normalizeHostname_def Let_def)
  qed
qed

lemma blocked_by_suffix:
  assumes "s \<in> set BLOCKED_HOST_SUFFIXES" "suffix s (drop_dot h)"
  shows "isBlockedHostname h"
proof -
  from assms have "list_ex (\<lambda>s. suffix s (drop_dot h)) BLOCKED_HOST_SUFFIXES"
    by (auto simp: list_ex_iff)
  then show ?thesis by (simp add: isBlockedHostname_def drop_dot_def)
qed

lemma suffix_dot_butlast: "suffix (x @ [c]) h \<Longrightarrow> suffix x (butlast h)"
  by (auto simp: suffix_def butlast_append)

lemma drop_dot_suffix:
  assumes "s \<in> set BLOCKED_HOST_SUFFIXES" "suffix s h \<or> suffix (s @ ''.'') h"
  shows "suffix s (drop_dot h)"
proof (cases "suffix ''.'' h")
  case True
  then have "last h = CHR ''.''" using suffix_last by fastforce
  then have "\<not> suffix s h"
    using assms(1) suffix_last [of s h] by (auto simp: BLOCKED_HOST_SUFFIXES_def)
  with assms(2) True show ?thesis by (auto simp: drop_dot_def intro: suffix_dot_butlast)
next
  case False
  then have "\<not> suffix (s @ ''.'') h" by (auto simp: suffix_def)
  with assms(2) False show ?thesis by (auto simp: drop_dot_def)
qed

section \<open>Properties\<close>

text \<open>
  C1: An http(s) URL whose host is the dotted quad \<open>a.b.c.d\<close>, for every one of the 2^32 IPv4
  addresses, is refused with \<open>UnsafeHostError\<close> exactly when the address lies in 0/8, 10/8, 127/8,
  169.254/16, 192.168/16 or 172.16/12, and is returned unchanged otherwise.
\<close>

theorem ipv4_literal_guard:
  assumes "protocol u = ''http:'' \<or> protocol u = ''https:''" "hostname u = dotted a b c d"
    and "b < 256" "c < 256" "d < 256"
  shows "assertSafePublicUrl parseURL False (UrlObject u) =
     (if private_ipv4 a b then Inl UnsafeHostError else Inr u)"
proof -
  have "dotted a b c d \<noteq> ''''" by (simp add: dotted_def)
  then show ?thesis
    using assms by (auto simp: assertSafePublicUrl_def normalizeHostname_dotted isBlockedHostname_dotted)
qed

text \<open>
  C2: The IPv4-mapped IPv6 form \<open>[::ffff:hhhh:llll]\<close>, in which the URL parser writes a mapped
  address, gets the same verdict as the IPv4 address in its low 32 bits.
\<close>

theorem mapped_ipv6_guard:
  assumes "protocol u = ''http:'' \<or> protocol u = ''https:''" "hostname u = mapped_ipv6 g1 g2"
    and "hex_group g1" "hex_group g2"
  shows "assertSafePublicUrl parseURL False (UrlObject u) =
     (if private_ipv4 (parse_hex g1 div 256) (parse_hex g1 mod 256) then Inl UnsafeHostError else Inr u)"
proof -
  have "parse_hex g2 div 256 < 256"
    using hex_group_bound [OF assms(4)] by (simp add: less_mult_imp_div_less)
  moreover have "dotted a b c d \<noteq> ''''" for a b c d by (simp add: dotted_def)
  ultimately show ?thesis
    using assms by (auto simp: assertSafePublicUrl_def normalizeHostname_mapped isBlockedHostname_dotted)
qed

text \<open>
  A host under \<open>.localhost\<close>, \<open>.local\<close>, \<open>.internal\<close> or \<open>.home.arpa\<close>, in any letter case, with
  or without the root dot, is never accepted while private hosts are off, whatever the URL parser.
\<close>

theorem reserved_names_refused:
  assumes "s \<in> set BLOCKED_HOST_SUFFIXES"
    and "suffix s (js_lower (hostname u)) \<or> suffix (s @ ''.'') (js_lower (hostname u))"
  shows "\<not> isSafePublicUrl parseURL False (UrlObject u)"
proof -
  from assms(1) obtain t where t: "s = CHR ''.'' # t" "last s \<noteq> CHR '']''"
    by (auto simp: BLOCKED_HOST_SUFFIXES_def)
  have "suffix s (normalizeHostname (hostname u)) \<or> suffix (s @ ''.'') (normalizeHostname (hostname u))"
    using assms(2) t normalizeHostname_suffix [of t "hostname u"]
      normalizeHostname_suffix [of "t @ ''.''" "hostname u"] by auto
  then have "isBlockedHostname (normalizeHostname (hostname u))"
    using assms(1) by (blast intro: blocked_by_suffix drop_dot_suffix)
  then show ?thesis
    by (auto simp: isSafePublicUrl_def assertSafePublicUrl_def Let_def)
qed

definition sample_url :: "string \<Rightarrow> string \<Rightarrow> url" where
  "sample_url proto h =
     \<lparr>protocol = proto, userinfo = '''', hostname = h, port = '''', pathname = ''/'', search = '''',
      fragment = '''', hostless = False, opaque = False\<rparr>"

lemma ipv4_literal_guard_witness:
  "assertSafePublicUrl (\<lambda>_. None) False (UrlObject (sample_url ''http:'' ''172.31.0.9'')) = Inl UnsafeHostError
   \<and> assertSafePublicUrl (\<lambda>_. None) False (UrlObject (sample_url ''https:'' ''172.32.0.9''))
       = Inr (sample_url ''https:'' ''172.32.0.9'')"
proof -
  have h: "hostname (sample_url ''http:'' ''172.31.0.9'') = dotted 172 31 0 9"
    "hostname (sample_url ''https:'' ''172.32.0.9'') = dotted 172 32 0 9"
    by code_simp+
  have p: "protocol (sample_url x y) = x" for x y by (simp add: sample_url_def)
  have "assertSafePublicUrl (\<lambda>_. None) False (UrlObject (sample_url ''http:'' ''172.31.0.9'')) =
      (if private_ipv4 172 31 then Inl UnsafeHostError else Inr (sample_url ''http:'' ''172.31.0.9''))"
    by (rule ipv4_literal_guard [OF _ h(1)]) (simp_all add: p)
  moreover have "assertSafePublicUrl (\<lambda>_. None) False (UrlObject (sample_url ''https:'' ''172.32.0.9'')) =
      (if private_ipv4 172 32 then Inl UnsafeHostError else Inr (sample_url ''https:'' ''172.32.0.9''))"
    by (rule ipv4_literal_guard [OF _ h(2)]) (simp_all add: p)
  moreover have "private_ipv4 172 31" "\<not> private_ipv4 172 32" by (simp_all add: private_ipv4_def)
  ultimately show ?thesis by (simp only: if_True if_False simp_thms)
qed

lemma mapped_ipv6_guard_witness:
  "assertSafePublicUrl (\<lambda>_. None) False (UrlObject (sample_url ''http:'' ''[::ffff:7f00:1]'')) = Inl UnsafeHostError"
proof -
  have "hex_group ''7f00''" "hex_group ''1''" by code_simp+
  moreover have "parse_hex ''7f00'' = 127 * 256"
    by (simp add: parse_hex_def hex_digit_val_def is_digit_def digit_val_def)
  ultimately show ?thesis
    using mapped_ipv6_guard [of "sample_url ''http:'' ''[::ffff:7f00:1]''" "''7f00''" "''1''" "\<lambda>_. None"]
    by (simp add: mapped_ipv6_def private_ipv4_def) (simp add: sample_url_def)
qed

lemma reserved_names_refused_witness:
  "\<not> isSafePublicUrl (\<lambda>_. None) False (UrlObject (sample_url ''https:'' ''Vault.INTERNAL.''))"
proof -
  have "''.internal'' \<in> set BLOCKED_HOST_SUFFIXES" by code_simp
  moreover have "suffix (''.internal'' @ ''.'') (js_lower (hostname (sample_url ''https:'' ''Vault.INTERNAL.'')))"
    by code_simp
  ultimately show ?thesis using reserved_names_refused by blast
qed

end
