(* ===== verification/Auth.thy ===== *)
theory Auth imports Http_Common Url_Safety begin

text \<open>
  Authentication: the API keys of \<open>src/modules/auth/api-keys.repository.ts\<close> over their table, the Clerk session
  check of \<open>src/shared/auth/clerk-session-verifier.service.ts\<close>, the service \<open>http-auth.service.ts\<close> that tries
  them, the guard \<open>auth.guard.ts\<close> in front of the handlers and the public configuration of
  \<open>src/modules/auth/http/auth.controller.ts\<close>. The SHA-256 digest, the drawn key material, the decoding of a
  token's payload (\<open>Buffer.from(.., 'base64')\<close> and \<open>JSON.parse\<close>), the text of a number and the answer of the
  Clerk API are parameters.
  Theorems: the tenant of an admitted request comes from an active key or an active session; a revoked key
  stays refused; and a session's owner can name any organisation as its tenant.
\<close>

section \<open>API keys\<close>

record key_row =
  ak_id :: nat
  ak_tenant :: string
  ak_hash :: string
  ak_prefix :: string
  ak_label :: "string option"
  ak_created :: nat
  ak_last_used :: "nat option"
  ak_revoked :: "nat option"

record key_db =
  ak_rows :: "key_row list"
  ak_seq :: nat

record api_key_record =
  kr_id :: string
  kr_tenant :: string
  kr_prefix :: string
  kr_label :: "string option"
  kr_created :: nat
  kr_last_used :: "nat option"
  kr_revoked :: "nat option"

definition mapApiKey :: "key_row \<Rightarrow> api_key_record" where
  "mapApiKey r = \<lparr>kr_id = dec (ak_id r), kr_tenant = ak_tenant r, kr_prefix = ak_prefix r, kr_label = ak_label r,
                   kr_created = ak_created r, kr_last_used = ak_last_used r, kr_revoked = ak_revoked r\<rparr>"

definition API_KEY_NAMESPACE :: string where "API_KEY_NAMESPACE = ''fp''"
definition API_KEY_PREFIX_LENGTH :: nat where "API_KEY_PREFIX_LENGTH = 8"

definition hashApiKey :: "(string \<Rightarrow> string) \<Rightarrow> string \<Rightarrow> string" where
  "hashApiKey sha256 plaintextKey = sha256 plaintextKey"

text \<open>\<open>hex\<close> and \<open>secret\<close> are the printed random bytes.\<close>

definition generateApiKey :: "(string \<Rightarrow> string) \<Rightarrow> string \<Rightarrow> string \<Rightarrow> string \<times> string \<times> string" where
  "generateApiKey sha256 hex secret =
     (let pre = take API_KEY_PREFIX_LENGTH hex;
          plaintextKey = API_KEY_NAMESPACE @ ''_'' @ pre @ ''_'' @ secret
      in (plaintextKey, pre, hashApiKey sha256 plaintextKey))"

definition extractApiKeyPrefix :: "string \<Rightarrow> string" where
  "extractApiKeyPrefix plaintextKey =
     (case js_split (CHR ''_'') plaintextKey of
        ns # seg # _ # _ \<Rightarrow>
          if ns = API_KEY_NAMESPACE \<and> seg \<noteq> '''' then take API_KEY_PREFIX_LENGTH seg else take API_KEY_PREFIX_LENGTH plaintextKey
      | _ \<Rightarrow> take API_KEY_PREFIX_LENGTH plaintextKey)"

text \<open>\<open>Buffer.from(s, 'hex')\<close> stops at the first pair that is not hexadecimal.\<close>

fun hex_bytes :: "string \<Rightarrow> nat list" where
  "hex_bytes (a # b # s) =
     (if is_hex a \<and> is_hex b then (16 * hex_digit_val a + hex_digit_val b) # hex_bytes s else [])"
| "hex_bytes _ = []"

definition hashesMatch :: "string \<Rightarrow> string \<Rightarrow> bool" where
  "hashesMatch candidateHash storedHash =
     (let candidate = hex_bytes candidateHash; stored = hex_bytes storedHash
      in if candidate = [] \<or> length candidate \<noteq> length stored then False else candidate = stored)"

definition findActiveByHash :: "string \<Rightarrow> key_db \<Rightarrow> key_row option" where
  "findActiveByHash keyHash db = find (\<lambda>r. ak_hash r = keyHash \<and> ak_revoked r = None) (ak_rows db)"

definition touch_row :: "nat \<Rightarrow> key_row \<Rightarrow> key_row" where "touch_row now r = r\<lparr>ak_last_used := Some now\<rparr>"

definition touchLastUsed :: "nat \<Rightarrow> bool \<Rightarrow> nat \<Rightarrow> key_db \<Rightarrow> key_db" where
  "touchLastUsed now fails i db =
     (if fails then db else db\<lparr>ak_rows := sql_update (\<lambda>r. ak_id r = i) (touch_row now) (ak_rows db)\<rparr>)"

text \<open>\<open>q\<close> is the error of the lookup, if it fails; \<open>fails\<close> tells whether the usage update fails.\<close>

definition verifyApiKey ::
  "(string \<Rightarrow> string) \<Rightarrow> nat \<Rightarrow> string option \<Rightarrow> bool \<Rightarrow> string \<Rightarrow> key_db \<Rightarrow> key_db \<times> (string + api_key_record option)" where
  "verifyApiKey sha256 now q fails plaintextKey db =
     (let trimmed = js_trim plaintextKey in
      if trimmed = '''' then (db, Inr None)
      else (case q of
              Some m \<Rightarrow> (db, Inl m)
            | None \<Rightarrow>
                (let candidateHash = hashApiKey sha256 trimmed in
                 case findActiveByHash candidateHash db of
                   None \<Rightarrow> (db, Inr None)
                 | Some found \<Rightarrow>
                     if \<not> hashesMatch candidateHash (ak_hash found) then (db, Inr None)
                     else (touchLastUsed now fails (ak_id found) db, Inr (Some (mapApiKey found))))))"

definition key_row_of :: "nat \<Rightarrow> nat \<Rightarrow> string \<Rightarrow> string \<Rightarrow> string \<Rightarrow> string option \<Rightarrow> key_row" where
  "key_row_of i now tenantId keyHash pre label =
     \<lparr>ak_id = i, ak_tenant = tenantId, ak_hash = keyHash, ak_prefix = pre, ak_label = label,
      ak_created = now, ak_last_used = None, ak_revoked = None\<rparr>"

text \<open>A second row with the same hash violates the unique constraint; the sequence advances all the same.\<close>

definition create_key ::
  "(string \<Rightarrow> string) \<Rightarrow> nat \<Rightarrow> string \<Rightarrow> string \<Rightarrow> string \<Rightarrow> string option \<Rightarrow> key_db \<Rightarrow> key_db \<times> (string + string \<times> api_key_record)" where
  "create_key sha256 now hex secret tenantId label db =
     (case generateApiKey sha256 hex secret of
        (plaintextKey, pre, keyHash) \<Rightarrow>
          (let row = key_row_of (ak_seq db) now tenantId keyHash pre label; db1 = db\<lparr>ak_seq := Suc (ak_seq db)\<rparr> in
           if keyHash \<in> ak_hash ` set (ak_rows db) then (db1, Inl ''unique_violation'')
           else (db1\<lparr>ak_rows := ak_rows db @ [row]\<rparr>, Inr (plaintextKey, mapApiKey row))))"

definition key_newest_first :: "key_row \<Rightarrow> key_row \<Rightarrow> bool" where
  "key_newest_first a b \<longleftrightarrow> ak_created a > ak_created b \<or> (ak_created a = ak_created b \<and> ak_id a \<ge> ak_id b)"

fun insert_newest :: "key_row \<Rightarrow> key_row list \<Rightarrow> key_row list" where
  "insert_newest r [] = [r]"
| "insert_newest r (s # rs) = (if key_newest_first r s then r # s # rs else s # insert_newest r rs)"

definition listByTenantId :: "string \<Rightarrow> key_db \<Rightarrow> api_key_record list" where
  "listByTenantId tenantId db =
     map mapApiKey (foldr insert_newest (filter (\<lambda>r. ak_tenant r = tenantId) (ak_rows db)) [])"

definition revoke_row :: "nat \<Rightarrow> key_row \<Rightarrow> key_row" where "revoke_row now r = r\<lparr>ak_revoked := Some now\<rparr>"

definition revoke :: "nat \<Rightarrow> nat \<Rightarrow> key_db \<Rightarrow> key_db \<times> bool" where
  "revoke now i db =
     (let p = (\<lambda>r. ak_id r = i \<and> ak_revoked r = None)
      in (db\<lparr>ak_rows := sql_update p (revoke_row now) (ak_rows db)\<rparr>, 0 < length (filter p (ak_rows db))))"

definition seedBootstrapApiKey ::
  "(string \<Rightarrow> string) \<Rightarrow> nat \<Rightarrow> string \<Rightarrow> string \<Rightarrow> string option \<Rightarrow> key_db \<Rightarrow> key_db \<times> bool" where
  "seedBootstrapApiKey sha256 now plaintextKey tenantId label db =
     (let trimmed = js_trim plaintextKey in
      if trimmed = '''' then (db, False)
      else (let keyHash = hashApiKey sha256 trimmed in
            if filter (\<lambda>r. ak_hash r = keyHash) (ak_rows db) \<noteq> [] then (db, False)
            else (db\<lparr>ak_rows := ak_rows db @ [key_row_of (ak_seq db) now tenantId keyHash (extractApiKeyPrefix trimmed)
                                                (Some (opt_else label ''bootstrap''))],
                     ak_seq := Suc (ak_seq db)\<rparr>, True)))"

section \<open>Clerk sessions\<close>

datatype jvalue = JvNull | JvBool bool | JvNum rat | JvStr string | JvArr "jvalue list" | JvObj "(string \<times> jvalue) list"

datatype clerk_reply = FetchFailed string | ClerkReply bool "jvalue option"

record auth_env =
  au_enabled :: bool
  authProvider :: string
  clerkSecretKey :: "string option"
  clerkPublishableKey :: "string option"
  clerkApiUrl :: string
  au_now :: nat
  au_sha :: "string \<Rightarrow> string"
  au_payload :: "string \<Rightarrow> jvalue option"
  au_num :: "rat \<Rightarrow> string"
  au_clerk :: "string \<Rightarrow> string \<Rightarrow> clerk_reply"
  au_lookup :: "string option"
  au_touch_fails :: bool

definition jv_field :: "jvalue \<Rightarrow> string \<Rightarrow> jvalue option" where
  "jv_field v k = (case v of JvObj fs \<Rightarrow> map_of fs k | _ \<Rightarrow> None)"

definition jv_truthy :: "jvalue \<Rightarrow> bool" where
  "jv_truthy v = (case v of JvNull \<Rightarrow> False | JvBool b \<Rightarrow> b | JvNum n \<Rightarrow> n \<noteq> 0 | JvStr s \<Rightarrow> s \<noteq> '''' | _ \<Rightarrow> True)"

fun jv_text :: "(rat \<Rightarrow> string) \<Rightarrow> jvalue \<Rightarrow> string" where
  "jv_text num JvNull = ''null''"
| "jv_text num (JvBool b) = (if b then ''true'' else ''false'')"
| "jv_text num (JvNum n) = num n"
| "jv_text num (JvStr s) = s"
| "jv_text num (JvArr vs) = js_join '','' (map (\<lambda>v. if v = JvNull then '''' else jv_text num v) vs)"
| "jv_text num (JvObj fs) = ''[object Object]''"

definition base64url_padded :: "string \<Rightarrow> string" where
  "base64url_padded value =
     (let normalized = map (\<lambda>c. if c = CHR ''-'' then CHR ''+'' else if c = CHR ''_'' then CHR ''/'' else c) value
      in normalized @ drop ((length normalized + 3) mod 4) ''==='')"

definition claim_sub :: "jvalue \<Rightarrow> string option" where
  "claim_sub payload = (case jv_field payload ''sub'' of Some (JvStr s) \<Rightarrow> (if s = '''' then None else Some s) | _ \<Rightarrow> None)"

definition parseJwtClaims :: "auth_env \<Rightarrow> string \<Rightarrow> api_error + jvalue" where
  "parseJwtClaims E token =
     (case js_split (CHR ''.'') token of
        [_, payloadSegment, _] \<Rightarrow>
          (case au_payload E (base64url_padded payloadSegment) of
             None \<Rightarrow> Inl (Unauthorized ''invalid_clerk_token_payload'')
           | Some payload \<Rightarrow>
               if \<not> jv_truthy payload \<or> claim_sub payload = None then Inl (Unauthorized ''invalid_clerk_token_subject'')
               else Inr payload)
      | _ \<Rightarrow> Inl (Unauthorized ''invalid_clerk_token''))"

record clerk_session =
  cs_subject :: string
  cs_org :: "string option"

definition token_expired :: "nat \<Rightarrow> jvalue \<Rightarrow> bool" where
  "token_expired now payload =
     (case jv_field payload ''exp'' of Some (JvNum n) \<Rightarrow> n < of_nat (now div 1000) | _ \<Rightarrow> False)"

definition claim_sid :: "auth_env \<Rightarrow> jvalue \<Rightarrow> string option" where
  "claim_sid E payload =
     (case jv_field payload ''sid'' of Some v \<Rightarrow> (if jv_truthy v then Some (jv_text (au_num E) v) else None) | None \<Rightarrow> None)"

definition claim_org :: "jvalue \<Rightarrow> string option" where
  "claim_org payload = (case jv_field payload ''org_id'' of Some (JvStr s) \<Rightarrow> (if s = '''' then None else Some s) | _ \<Rightarrow> None)"

definition session_url :: "auth_env \<Rightarrow> string \<Rightarrow> string" where
  "session_url E sid = clerkApiUrl E @ ''/v1/sessions/'' @ sid"

definition session_active :: "jvalue \<Rightarrow> string \<Rightarrow> bool" where
  "session_active body subj \<longleftrightarrow>
     jv_field body ''status'' = Some (JvStr ''active'') \<and> jv_field body ''user_id'' = Some (JvStr subj)"

definition clerk_verify :: "auth_env \<Rightarrow> string \<Rightarrow> api_error + clerk_session" where
  "clerk_verify E token =
     (case parseJwtClaims E token of
        Inl e \<Rightarrow> Inl e
      | Inr claims \<Rightarrow>
          if token_expired (au_now E) claims then Inl (Unauthorized ''clerk_token_expired'')
          else
          (case claim_sid E claims of
             None \<Rightarrow> Inl (Unauthorized ''clerk_session_missing_sid'')
           | Some sid \<Rightarrow>
               (case clerkSecretKey E of
                  None \<Rightarrow> Inl (Unauthorized ''clerk_secret_key_missing'')
                | Some secretKey \<Rightarrow>
                    if secretKey = '''' then Inl (Unauthorized ''clerk_secret_key_missing'')
                    else
                    (case au_clerk E (session_url E sid) secretKey of
                       FetchFailed m \<Rightarrow> Inl (Unexpected m)
                     | ClerkReply ok body \<Rightarrow>
                         if \<not> ok then Inl (Unauthorized ''clerk_session_invalid'')
                         else
                         (case body of
                            None \<Rightarrow> Inl (Unexpected ''invalid json'')
                          | Some JvNull \<Rightarrow> Inl (Unexpected ''body is null'')
                          | Some b \<Rightarrow>
                              (case claim_sub claims of
                                 None \<Rightarrow> Inl (Unauthorized ''clerk_session_not_active'')
                               | Some subj \<Rightarrow>
                                   if \<not> session_active b subj then Inl (Unauthorized ''clerk_session_not_active'')
                                   else Inr \<lparr>cs_subject = subj, cs_org = claim_org claims\<rparr>))))))"

section \<open>The service and the guard\<close>

definition KNOWN_AUTH_PROVIDERS :: "string list" where
  "KNOWN_AUTH_PROVIDERS = [''api_key'', ''clerk'', ''clerk_api_key'']"

definition looksLikeJwt :: "string \<Rightarrow> bool" where "looksLikeJwt v \<longleftrightarrow> length (js_split (CHR ''.'') v) = 3"

definition normalizedProvider :: "auth_env \<Rightarrow> string" where
  "normalizedProvider E = js_lower (js_trim (authProvider E))"

definition auth_onModuleInit :: "auth_env \<Rightarrow> bool" where
  "auth_onModuleInit E \<longleftrightarrow> normalizedProvider E \<in> set KNOWN_AUTH_PROVIDERS"

definition supportsApiKey :: "auth_env \<Rightarrow> bool" where
  "supportsApiKey E \<longleftrightarrow> normalizedProvider E = ''api_key'' \<or> normalizedProvider E = ''clerk_api_key''"

definition supportsClerk :: "auth_env \<Rightarrow> bool" where
  "supportsClerk E \<longleftrightarrow> normalizedProvider E = ''clerk'' \<or> normalizedProvider E = ''clerk_api_key''"

definition authenticateApiKey :: "auth_env \<Rightarrow> request \<Rightarrow> string \<Rightarrow> key_db \<Rightarrow> key_db \<times> (api_error + request)" where
  "authenticateApiKey E r apiKey db =
     (case verifyApiKey (au_sha E) (au_now E) (au_lookup E) (au_touch_fails E) apiKey db of
        (db', Inl m) \<Rightarrow> (db', Inl (Unexpected m))
      | (db', Inr None) \<Rightarrow> (db', Inl (Unauthorized ''invalid_api_key''))
      | (db', Inr (Some k)) \<Rightarrow> (db', Inr (r\<lparr>rq_api_key := Some apiKey, rq_tenant := Some (kr_tenant k)\<rparr>)))"

definition authenticateRequest :: "auth_env \<Rightarrow> request \<Rightarrow> key_db \<Rightarrow> key_db \<times> (api_error + request)" where
  "authenticateRequest E r db =
     (if \<not> au_enabled E then (db, Inr (r\<lparr>rq_tenant := Some LEGACY_TENANT_ID\<rparr>))
      else if opt_else (rq_tenant r) '''' \<noteq> '''' then (db, Inr r)
      else
        (case (getApiKeyFromRequest r, supportsApiKey E) of
           (Some apiKey, True) \<Rightarrow> authenticateApiKey E r apiKey db
         | _ \<Rightarrow>
             (case getBearerTokenFromRequest r of
                None \<Rightarrow> (db, Inl (Unauthorized ''auth_required''))
              | Some bearerToken \<Rightarrow>
                  if supportsClerk E \<and> looksLikeJwt bearerToken
                  then (case clerk_verify E bearerToken of
                          Inl e \<Rightarrow> (db, Inl e)
                        | Inr verified \<Rightarrow>
                            (db, Inr (r\<lparr>rq_tenant := Some (deriveTenantIdFromClerkPrincipal (au_sha E)
                                                              (opt_else (cs_org verified) (cs_subject verified)))\<rparr>)))
                  else if supportsApiKey E \<and> \<not> looksLikeJwt bearerToken
                  then authenticateApiKey E r bearerToken db
                  else (db, Inl (Unauthorized ''auth_required'')))))"

definition GUARDED_PATH_PREFIX :: string where "GUARDED_PATH_PREFIX = ''/api/''"
definition PUBLIC_API_PATHS :: "string list" where "PUBLIC_API_PATHS = [''/api/v1/auth/dashboard-config'']"

definition auth_path :: "request \<Rightarrow> string" where
  "auth_path r = (if rq_path r \<noteq> '''' then rq_path r else takeWhile (\<lambda>c. c \<noteq> CHR ''?'') (rq_url r))"

definition guarded_path :: "string \<Rightarrow> bool" where
  "guarded_path path \<longleftrightarrow> prefix GUARDED_PATH_PREFIX path \<and> path \<notin> set PUBLIC_API_PATHS"

definition AuthGuard_canActivate :: "auth_env \<Rightarrow> request \<Rightarrow> key_db \<Rightarrow> key_db \<times> (api_error + request)" where
  "AuthGuard_canActivate E r db = (if \<not> guarded_path (auth_path r) then (db, Inr r) else authenticateRequest E r db)"

record dashboard_config =
  dc_enabled :: bool
  dc_publishable :: "string option"
  dc_provider :: string

definition getDashboardConfig :: "auth_env \<Rightarrow> dashboard_config" where
  "getDashboardConfig E =
     \<lparr>dc_enabled = (opt_else (clerkPublishableKey E) '''' \<noteq> ''''), dc_publishable = clerkPublishableKey E,
      dc_provider = authProvider E\<rparr>"


section \<open>Who is admitted\<close>

definition key_sent :: "request \<Rightarrow> string \<Rightarrow> bool" where
  "key_sent r apiKey \<longleftrightarrow> getApiKeyFromRequest r = Some apiKey \<or> getBearerTokenFromRequest r = Some apiKey"

text \<open>\<open>session_confirmed\<close>: the Clerk API, asked with the secret key, answered that the session is active and its user is the subject.\<close>

definition session_confirmed :: "auth_env \<Rightarrow> jvalue \<Rightarrow> string \<Rightarrow> bool" where
  "session_confirmed E claims subj \<longleftrightarrow>
     (\<exists>sid secretKey body. claim_sub claims = Some subj \<and> claim_sid E claims = Some sid \<and> clerkSecretKey E = Some secretKey \<and>
        au_clerk E (session_url E sid) secretKey = ClerkReply True (Some body) \<and> session_active body subj)"

lemma clerk_verify_confirmed:
  assumes "clerk_verify E token = Inr v"
  obtains claims where "parseJwtClaims E token = Inr claims" and "\<not> token_expired (au_now E) claims"
    and "session_confirmed E claims (cs_subject v)" and "cs_org v = claim_org claims"
proof -
  obtain claims where c: "parseJwtClaims E token = Inr claims"
    using assms by (auto simp: clerk_verify_def split: sum.splits)
  then have "\<not> token_expired (au_now E) claims"
    using assms by (auto simp: clerk_verify_def)
  moreover have "session_confirmed E claims (cs_subject v) \<and> cs_org v = claim_org claims"
    using assms c unfolding clerk_verify_def session_confirmed_def
    by (auto split: if_splits option.splits clerk_reply.splits jvalue.splits)
  ultimately show thesis using c that by blast
qed

lemma verifyApiKey_found:
  assumes "verifyApiKey sha now q fails apiKey db = (db', Inr (Some k))"
  obtains row where "row \<in> set (ak_rows db)" and "ak_revoked row = None" and "ak_hash row = sha (js_trim apiKey)"
    and "k = mapApiKey row" and "db' = touchLastUsed now fails (ak_id row) db" and "q = None"
proof -
  obtain row where f: "findActiveByHash (sha (js_trim apiKey)) db = Some row" "k = mapApiKey row"
    "db' = touchLastUsed now fails (ak_id row) db" "q = None"
    using assms by (auto simp: verifyApiKey_def Let_def hashApiKey_def split: if_splits option.splits)
  from f(1) have "row \<in> set (ak_rows db) \<and> ak_revoked row = None \<and> ak_hash row = sha (js_trim apiKey)"
    unfolding findActiveByHash_def by (auto dest: find_SomeD)
  with f(2-4) show thesis by (intro that) auto
qed

lemma verifyApiKey_refused: "verifyApiKey sha now q fails apiKey db = (db', r) \<Longrightarrow> r = Inr None \<or> (\<exists>m. r = Inl m) \<Longrightarrow> db' = db"
  by (auto simp: verifyApiKey_def Let_def split: if_splits option.splits)

definition usage_aside :: "key_db \<Rightarrow> key_row list" where
  "usage_aside db = map (\<lambda>r. r\<lparr>ak_last_used := None\<rparr>) (ak_rows db)"

lemma touch_keeps [simp]: "usage_aside (touchLastUsed now fails i db) = usage_aside db"
  by (auto simp: usage_aside_def touchLastUsed_def sql_update_def touch_row_def)

lemma authenticateApiKey_cases:
  assumes "authenticateApiKey E r apiKey db = (db', res)"
  obtains e where "res = Inl e" and "db' = db"
  | row where "row \<in> set (ak_rows db)" and "ak_revoked row = None" and "ak_hash row = au_sha E (js_trim apiKey)"
      and "res = Inr (r\<lparr>rq_api_key := Some apiKey, rq_tenant := Some (ak_tenant row)\<rparr>)"
      and "db' = touchLastUsed (au_now E) (au_touch_fails E) (ak_id row) db"
proof -
  obtain db1 v where v: "verifyApiKey (au_sha E) (au_now E) (au_lookup E) (au_touch_fails E) apiKey db = (db1, v)"
    by (metis surj_pair)
  show thesis
  proof (cases "\<exists>k. v = Inr (Some k)")
    case True
    then obtain k where k: "v = Inr (Some k)" ..
    from verifyApiKey_found [OF v [unfolded k]] obtain row where
      "row \<in> set (ak_rows db)" "ak_revoked row = None" "ak_hash row = au_sha E (js_trim apiKey)"
      "k = mapApiKey row" "db1 = touchLastUsed (au_now E) (au_touch_fails E) (ak_id row) db" by blast
    with assms v k show thesis
      by (intro that(2) [of row]) (auto simp: authenticateApiKey_def mapApiKey_def)
  next
    case False
    then have none: "v = Inr None \<or> (\<exists>m. v = Inl m)" by (cases v) auto
    with verifyApiKey_refused [OF v] have "db1 = db" by blast
    with assms v none show thesis
      by (elim disjE exE) (rule that(1), auto simp: authenticateApiKey_def)+
  qed
qed

lemma admitted_request:
  assumes "au_enabled E" and "guarded_path (auth_path r)" and "rq_tenant r = None"
    and "AuthGuard_canActivate E r db = (db', res)"
  shows "usage_aside db' = usage_aside db \<and>
    (case res of
       Inl e \<Rightarrow> db' = db
     | Inr r' \<Rightarrow>
         (\<exists>apiKey row. supportsApiKey E \<and> key_sent r apiKey \<and> row \<in> set (ak_rows db) \<and> ak_revoked row = None \<and>
            ak_hash row = au_sha E (js_trim apiKey) \<and> r' = r\<lparr>rq_api_key := Some apiKey, rq_tenant := Some (ak_tenant row)\<rparr>) \<or>
         (\<exists>token claims subj. supportsClerk E \<and> getBearerTokenFromRequest r = Some token \<and>
            parseJwtClaims E token = Inr claims \<and> \<not> token_expired (au_now E) claims \<and> session_confirmed E claims subj \<and>
            r' = r\<lparr>rq_tenant := Some (deriveTenantIdFromClerkPrincipal (au_sha E) (opt_else (claim_org claims) subj))\<rparr>))"
proof -
  have a: "authenticateRequest E r db = (db', res)"
    using assms by (simp add: AuthGuard_canActivate_def)
  consider (key) k where "supportsApiKey E" "key_sent r k" "authenticateApiKey E r k db = (db', res)"
    | (clerk) token v where "supportsClerk E" "getBearerTokenFromRequest r = Some token" "clerk_verify E token = Inr v"
        "db' = db" "res = Inr (r\<lparr>rq_tenant := Some (deriveTenantIdFromClerkPrincipal (au_sha E) (opt_else (cs_org v) (cs_subject v)))\<rparr>)"
    | (refused) e where "db' = db" "res = Inl e"
    using a assms(1,3) unfolding authenticateRequest_def key_sent_def
    by (auto split: option.splits if_splits bool.splits sum.splits)
  then show ?thesis
  proof cases
    case key
    from key(3) show ?thesis
    proof (cases rule: authenticateApiKey_cases)
      case (1 e)
      then show ?thesis by simp
    next
      case (2 row)
      with key show ?thesis by auto
    qed
  next
    case clerk
    from clerk(3) obtain claims where "parseJwtClaims E token = Inr claims" "\<not> token_expired (au_now E) claims"
      "session_confirmed E claims (cs_subject v)" "cs_org v = claim_org claims" by (rule clerk_verify_confirmed)
    with clerk show ?thesis by auto
  next
    case refused
    then show ?thesis by simp
  qed
qed

text \<open>
  C35: With authentication on, a request for a guarded path that is admitted belongs either to the tenant of an
  active key it carried (when keys are enabled), or to the tenant derived from a token whose session the Clerk API
  confirmed for its subject (when Clerk is enabled); a refused request changes nothing, and in every case
  the key table keeps everything but the time of last use.\<close>

theorem request_identity_is_earned:
  assumes "au_enabled E" and "guarded_path (auth_path r)" and "rq_tenant r = None"
    and "AuthGuard_canActivate E r db = (db', res)"
  shows "usage_aside db' = usage_aside db \<and>
    (case res of
       Inl e \<Rightarrow> db' = db
     | Inr r' \<Rightarrow>
         (\<exists>apiKey row. supportsApiKey E \<and> key_sent r apiKey \<and> row \<in> set (ak_rows db) \<and> ak_revoked row = None \<and>
            ak_hash row = au_sha E (js_trim apiKey) \<and> r' = r\<lparr>rq_api_key := Some apiKey, rq_tenant := Some (ak_tenant row)\<rparr>) \<or>
         (\<exists>token claims subj. supportsClerk E \<and> getBearerTokenFromRequest r = Some token \<and>
            parseJwtClaims E token = Inr claims \<and> \<not> token_expired (au_now E) claims \<and> session_confirmed E claims subj \<and>
            r' = r\<lparr>rq_tenant := Some (deriveTenantIdFromClerkPrincipal (au_sha E) (opt_else (claim_org claims) subj))\<rparr>))"
  using admitted_request [OF assms] .

section \<open>Revocation\<close>

datatype key_op =
    CreateKey nat string string string "string option"
  | RevokeKey nat nat
  | TouchKey nat bool nat
  | SeedKey nat string string "string option"
  | VerifyKey nat "string option" bool string

definition key_op_run :: "(string \<Rightarrow> string) \<Rightarrow> key_op \<Rightarrow> key_db \<Rightarrow> key_db" where
  "key_op_run sha op db =
     (case op of
        CreateKey now hex secret t label \<Rightarrow> fst (create_key sha now hex secret t label db)
      | RevokeKey now i \<Rightarrow> fst (revoke now i db)
      | TouchKey now fails i \<Rightarrow> touchLastUsed now fails i db
      | SeedKey now k t label \<Rightarrow> fst (seedBootstrapApiKey sha now k t label db)
      | VerifyKey now q fails k \<Rightarrow> fst (verifyApiKey sha now q fails k db))"

definition hash_retired :: "string \<Rightarrow> key_db \<Rightarrow> bool" where
  "hash_retired h db \<longleftrightarrow> h \<in> ak_hash ` set (ak_rows db) \<and> (\<forall>r \<in> set (ak_rows db). ak_hash r = h \<longrightarrow> ak_revoked r \<noteq> None)"

lemma retired_map:
  assumes "h \<in> ak_hash ` set (ak_rows db)" and "\<And>r. ak_hash (g r) = ak_hash r"
    and "\<And>r. r \<in> set (ak_rows db) \<Longrightarrow> ak_hash r = h \<Longrightarrow> ak_revoked (g r) \<noteq> None"
  shows "hash_retired h (db\<lparr>ak_rows := map g (ak_rows db)\<rparr>)"
  using assms by (simp add: hash_retired_def image_image)

lemma retired_update:
  assumes "\<And>r. ak_hash (f r) = ak_hash r" and "\<And>r. ak_revoked r \<noteq> None \<Longrightarrow> ak_revoked (f r) \<noteq> None"
    and "hash_retired h db"
  shows "hash_retired h (db\<lparr>ak_rows := sql_update p f (ak_rows db)\<rparr>)"
  unfolding sql_update_def
proof (rule retired_map)
  show "h \<in> ak_hash ` set (ak_rows db)" using assms(3) by (simp add: hash_retired_def)
qed (use assms in \<open>auto simp: hash_retired_def\<close>)

lemma retired_step: "hash_retired h db \<Longrightarrow> hash_retired h (key_op_run sha op db)"
proof (cases op)
  case (CreateKey now hex secret t label)
  moreover assume "hash_retired h db"
  ultimately show ?thesis
    by (auto simp: key_op_run_def create_key_def hash_retired_def key_row_of_def Let_def split: prod.splits)
next
  case (SeedKey now k t label)
  moreover assume "hash_retired h db"
  ultimately show ?thesis
    by (auto simp: key_op_run_def seedBootstrapApiKey_def hash_retired_def key_row_of_def Let_def filter_empty_conv)
next
  case (RevokeKey now i)
  moreover assume "hash_retired h db"
  ultimately show ?thesis
    by (simp add: key_op_run_def revoke_def Let_def) (rule retired_update, auto simp: revoke_row_def)
next
  case (TouchKey now fails i)
  moreover assume "hash_retired h db"
  ultimately show ?thesis
    by (simp add: key_op_run_def touchLastUsed_def) (intro impI retired_update, auto simp: touch_row_def)
next
  case (VerifyKey now q fails k)
  moreover assume r: "hash_retired h db"
  moreover have "hash_retired h (touchLastUsed now fails i db)" for i
    using r by (simp add: touchLastUsed_def) (intro impI retired_update, auto simp: touch_row_def)
  ultimately show ?thesis
    by (auto simp: key_op_run_def verifyApiKey_def Let_def split: option.splits)
qed

lemma retired_refused: "hash_retired (sha (js_trim k)) db \<Longrightarrow> verifyApiKey sha now None fails k db = (db, Inr None)"
proof -
  assume "hash_retired (sha (js_trim k)) db"
  then have "findActiveByHash (sha (js_trim k)) db = None"
    unfolding hash_retired_def findActiveByHash_def find_None_iff by auto
  then show ?thesis by (auto simp: verifyApiKey_def Let_def hashApiKey_def)
qed

text \<open>
  C36: Once a key has been revoked it is refused for good: whatever keys are created, seeded, revoked, used or
  verified afterwards, a request that carries it is answered as one with an unknown key.\<close>

theorem revoked_key_stays_refused:
  assumes "distinct (map ak_hash (ak_rows db))" and "row \<in> set (ak_rows db)"
    and "revoke now (ak_id row) db = (db1, found)" and "ak_hash row = au_sha E (js_trim apiKey)" and "au_lookup E = None"
  shows "authenticateApiKey E r apiKey (fold (key_op_run (au_sha E)) ops db1)
           = (fold (key_op_run (au_sha E)) ops db1, Inl (Unauthorized ''invalid_api_key''))"
proof -
  have same: "r = row" if "r \<in> set (ak_rows db)" "ak_hash r = ak_hash row" for r
    using assms(1,2) that by (simp add: distinct_map inj_on_def)
  have db1: "db1 = db\<lparr>ak_rows := sql_update (\<lambda>r. ak_id r = ak_id row \<and> ak_revoked r = None) (revoke_row now) (ak_rows db)\<rparr>"
    using assms(3) by (auto simp: revoke_def Let_def)
  have "hash_retired (ak_hash row) db1"
    unfolding db1 sql_update_def
    by (rule retired_map) (use assms(2) in \<open>auto simp: revoke_row_def dest!: same\<close>)
  then have "hash_retired (ak_hash row) (fold (key_op_run (au_sha E)) ops db1)"
    by (induction ops arbitrary: db1) (auto intro: retired_step)
  then show ?thesis
    using retired_refused [of "au_sha E" apiKey] assms(4,5) by (simp add: authenticateApiKey_def)
qed


section \<open>What the checks leave open\<close>

definition demo_auth :: auth_env where
  "demo_auth =
     \<lparr>au_enabled = True, authProvider = ''clerk_api_key'', clerkSecretKey = Some ''sk'', clerkPublishableKey = None,
      clerkApiUrl = ''https://api.clerk.com'', au_now = 1700000000000, au_sha = (\<lambda>s. ''ab'' @ s),
      au_payload = (\<lambda>s. if s = ''cGF5'' then Some (JvObj [(''sub'', JvStr ''user_1''), (''sid'', JvStr ''sess_1'')])
                         else if s = ''Zm9y'' then Some (JvObj [(''sub'', JvStr ''user_1''), (''sid'', JvStr ''sess_1''), (''org_id'', JvStr ''org_2'')])
                         else None),
      au_num = (\<lambda>n. ''''),
      au_clerk = (\<lambda>url key. if url = ''https://api.clerk.com/v1/sessions/sess_1'' \<and> key = ''sk''
                            then ClerkReply True (Some (JvObj [(''status'', JvStr ''active''), (''user_id'', JvStr ''user_1'')]))
                            else ClerkReply False None),
      au_lookup = None, au_touch_fails = False\<rparr>"

definition token_request :: "string \<Rightarrow> request" where
  "token_request token =
     \<lparr>rq_method = ''GET'', rq_path = ''/api/v1/feeds'', rq_url = ''/api/v1/feeds'', rq_headers = [(''authorization'', ''Bearer '' @ token)],
      rq_ip = None, rq_api_key = None, rq_tenant = None\<rparr>"

text \<open>
  The organisation is read from the token alone. Whoever owns an active session can write a token that names
  the session, its user and any organisation: it is admitted as the tenant of that organisation.
\<close>

lemma forged_org_claim:
  assumes "clerkSecretKey E = Some secretKey" and "secretKey \<noteq> ''''" and "sid \<noteq> ''''" and "subj \<noteq> ''''" and "org \<noteq> ''''"
    and own: "au_clerk E (session_url E sid) secretKey =
                ClerkReply True (Some (JvObj [(''status'', JvStr ''active''), (''user_id'', JvStr subj)]))"
    and forged: "au_payload E (base64url_padded p) =
                   Some (JvObj [(''sub'', JvStr subj), (''sid'', JvStr sid), (''org_id'', JvStr org)])"
    and "CHR ''.'' \<notin> set p"
  shows "clerk_verify E (''e30.'' @ p @ ''.x'') = Inr \<lparr>cs_subject = subj, cs_org = Some org\<rparr>"
proof -
  have "js_split (CHR ''.'') (p @ ''.x'') = [p, ''x'']"
    using js_split_append_sep [of "CHR ''.''" p "''x''"] assms(8) by simp
  then have "js_split (CHR ''.'') (''e30.'' @ p @ ''.x'') = [''e30'', p, ''x'']" by simp
  then show ?thesis
    using assms by (simp add: clerk_verify_def parseJwtClaims_def jv_truthy_def claim_sub_def jv_field_def
        token_expired_def claim_sid_def claim_org_def session_active_def)
qed

text \<open>
  The guard compares the prefix with the case of the request, and routes are matched without regard to case:
  a request for the same route in capitals passes the guard without a credential (and without a tenant).
\<close>

lemma capital_path_unguarded:
  "AuthGuard_canActivate E (r\<lparr>rq_path := ''/API/v1/feeds/validate''\<rparr>) db = (db, Inr (r\<lparr>rq_path := ''/API/v1/feeds/validate''\<rparr>))"
  by (simp add: AuthGuard_canActivate_def auth_path_def guarded_path_def GUARDED_PATH_PREFIX_def)

section \<open>Witnesses\<close>

lemma demo_bearer: "getBearerTokenFromRequest (token_request ''e30.Zm9y.x'') = Some ''e30.Zm9y.x''"
  by code_simp

theorem request_identity_is_earned_witness:
  "\<exists>db' res. AuthGuard_canActivate demo_auth (token_request ''e30.Zm9y.x'') \<lparr>ak_rows = [], ak_seq = 1\<rparr> = (db', res) \<and>
     usage_aside db' = [] \<and> au_enabled demo_auth \<and> guarded_path (auth_path (token_request ''e30.Zm9y.x''))"
proof -
  obtain db' res where a: "AuthGuard_canActivate demo_auth (token_request ''e30.Zm9y.x'') \<lparr>ak_rows = [], ak_seq = 1\<rparr> = (db', res)"
    by (metis surj_pair)
  have g: "au_enabled demo_auth" "guarded_path (auth_path (token_request ''e30.Zm9y.x''))" "rq_tenant (token_request ''e30.Zm9y.x'') = None"
    by (simp_all add: demo_auth_def token_request_def auth_path_def guarded_path_def GUARDED_PATH_PREFIX_def PUBLIC_API_PATHS_def)
  from request_identity_is_earned [OF this a] a g show ?thesis
    by (auto simp: usage_aside_def)
qed

theorem revoked_key_stays_refused_witness:
  "authenticateApiKey demo_auth (token_request ''k'') '' k ''
     (fold (key_op_run (au_sha demo_auth)) [CreateKey 5 ''00'' ''s'' ''acme'' None, SeedKey 6 ''k'' ''acme'' None]
        \<lparr>ak_rows = [\<lparr>ak_id = 1, ak_tenant = ''acme'', ak_hash = ''abk'', ak_prefix = '''', ak_label = None,
                     ak_created = 1, ak_last_used = None, ak_revoked = Some 4\<rparr>], ak_seq = 2\<rparr>) =
   (fold (key_op_run (au_sha demo_auth)) [CreateKey 5 ''00'' ''s'' ''acme'' None, SeedKey 6 ''k'' ''acme'' None]
        \<lparr>ak_rows = [\<lparr>ak_id = 1, ak_tenant = ''acme'', ak_hash = ''abk'', ak_prefix = '''', ak_label = None,
                     ak_created = 1, ak_last_used = None, ak_revoked = Some 4\<rparr>], ak_seq = 2\<rparr>,
    Inl (Unauthorized ''invalid_api_key''))"
proof -
  let ?row = "\<lparr>ak_id = 1, ak_tenant = ''acme'', ak_hash = ''abk'', ak_prefix = '''', ak_label = None,
              ak_created = 1, ak_last_used = None, ak_revoked = None\<rparr> :: key_row"
  let ?db = "\<lparr>ak_rows = [?row], ak_seq = 2\<rparr>"
  have d: "distinct (map ak_hash (ak_rows ?db))" and m: "?row \<in> set (ak_rows ?db)" and l: "au_lookup demo_auth = None"
    by (simp_all add: demo_auth_def)
  have v: "revoke 4 (ak_id ?row) ?db =
      (\<lparr>ak_rows = [\<lparr>ak_id = 1, ak_tenant = ''acme'', ak_hash = ''abk'', ak_prefix = '''', ak_label = None,
                    ak_created = 1, ak_last_used = None, ak_revoked = Some 4\<rparr>], ak_seq = 2\<rparr>, True)"
    by (simp add: revoke_def revoke_row_def row_simps)
  have h: "ak_hash ?row = au_sha demo_auth (js_trim '' k '')"
    by (simp add: demo_auth_def js_trim_def drop_end_def js_ws_def)
  show ?thesis
    by (rule revoked_key_stays_refused [OF d m v h l])
qed

end
