(* ===== verification/Error_Envelope.thy ===== *)
theory Error_Envelope imports Auth begin

text \<open>
  The correlation id of a request (\<open>src/shared/interceptors/request-id.interceptor.ts\<close>) and the exception filter
  \<open>src/shared/filters/all-exceptions.filter.ts\<close> that turns whatever a handler throws into the response. The
  response is the record of what the filter writes to it; the random id, the printed time and the text of
  an arbitrary thrown value are inputs. \<open>thrown\<close> gives the exception of an error of the handlers, as Nest
  expands it.
  Theorems: the envelope never depends on an internal error, its status, code and id agree with the response;
  and the id of a success envelope need not be the one of the response.
\<close>

section \<open>The request id\<close>

record http_exchange =
  hx_request :: request
  hx_id :: "jvalue option"
  hx_original :: "string option"

record http_response =
  hr_sent :: bool
  hr_headers :: "(string \<times> string) list"
  hr_status :: nat
  hr_body :: "jvalue option"

definition set_header :: "string \<Rightarrow> string \<Rightarrow> http_response \<Rightarrow> http_response" where
  "set_header name v r = r\<lparr>hr_headers := (name, v) # filter (\<lambda>h. fst h \<noteq> name) (hr_headers r)\<rparr>"

definition REQUEST_ID_HEADER :: string where "REQUEST_ID_HEADER = ''x-request-id''"

text \<open>\<open>uuid\<close> is the id \<open>randomUUID()\<close> draws, \<open>num\<close> prints a number; the id found is kept on the request.\<close>

definition resolveRequestId :: "(rat \<Rightarrow> string) \<Rightarrow> string \<Rightarrow> http_exchange \<Rightarrow> http_exchange \<times> string" where
  "resolveRequestId num uuid x =
     (let fresh = (case request_header (hx_request x) REQUEST_ID_HEADER of
                     Some inbound \<Rightarrow> if js_trim inbound \<noteq> '''' then js_trim inbound else uuid
                   | None \<Rightarrow> uuid);
          resolved = (x\<lparr>hx_id := Some (JvStr fresh)\<rparr>, fresh)
      in case hx_id x of
           Some (JvStr s) \<Rightarrow> if s \<noteq> '''' then (x, s) else resolved
         | Some (JvNum n) \<Rightarrow> (x, num n)
         | _ \<Rightarrow> resolved)"

definition applyRequestIdHeader ::
  "(rat \<Rightarrow> string) \<Rightarrow> string \<Rightarrow> http_exchange \<Rightarrow> http_response \<Rightarrow> http_exchange \<times> http_response \<times> string" where
  "applyRequestIdHeader num uuid x res =
     (case resolveRequestId num uuid x of
        (x', requestId) \<Rightarrow>
          (x', if \<not> hr_sent res then set_header REQUEST_ID_HEADER requestId res else res, requestId))"

section \<open>Exceptions\<close>

text \<open>
  A Nest exception with its status, payload and message; another \<open>Error\<close> with its own properties; or a thrown
  value of any other kind.
\<close>

datatype exn =
    HttpException string nat jvalue string
  | OtherError string "(string \<times> jvalue) list" string
  | ThrownValue jvalue

definition BAD_REQUEST_STATUS :: nat where "BAD_REQUEST_STATUS = 400"
definition INTERNAL_SERVER_ERROR_STATUS :: nat where "INTERNAL_SERVER_ERROR_STATUS = 500"
definition INTERNAL_ERROR_CODE :: string where "INTERNAL_ERROR_CODE = ''internal_server_error''"
definition INTERNAL_ERROR_MESSAGE :: string where "INTERNAL_ERROR_MESSAGE = ''Internal server error''"

definition STATUS_CODES :: "(nat \<times> string) list" where
  "STATUS_CODES =
     [(400, ''bad_request''), (401, ''unauthorized''), (403, ''forbidden''), (404, ''not_found''),
      (405, ''method_not_allowed''), (409, ''conflict''), (413, ''payload_too_large''),
      (415, ''unsupported_media_type''), (422, ''unprocessable_entity''), (429, ''too_many_requests''),
      (501, ''not_implemented''), (503, ''service_unavailable'')]"

definition snake_char :: "char \<Rightarrow> bool" where
  "snake_char c \<longleftrightarrow> (CHR ''a'' \<le> c \<and> c \<le> CHR ''z'') \<or> is_digit c \<or> c = CHR ''_''"

definition isSnakeCode :: "jvalue \<Rightarrow> bool" where
  "isSnakeCode v = (case v of JvStr (c # s) \<Rightarrow> CHR ''a'' \<le> c \<and> c \<le> CHR ''z'' \<and> list_all snake_char s | _ \<Rightarrow> False)"

definition defaultCodeForStatus :: "nat \<Rightarrow> string" where
  "defaultCodeForStatus statusCode =
     (case map_of STATUS_CODES statusCode of
        Some c \<Rightarrow> c
      | None \<Rightarrow> if INTERNAL_SERVER_ERROR_STATUS \<le> statusCode then INTERNAL_ERROR_CODE else ''http_error'')"

definition jv_string :: "jvalue option \<Rightarrow> string option" where
  "jv_string v = (case v of Some (JvStr s) \<Rightarrow> Some s | _ \<Rightarrow> None)"

definition own_code :: "(string \<times> jvalue) list \<Rightarrow> string option" where
  "own_code payload = (case jv_string (map_of payload ''code'') of Some c \<Rightarrow> (if c \<noteq> '''' then Some c else None) | None \<Rightarrow> None)"

definition snake_code :: "jvalue option \<Rightarrow> string option" where
  "snake_code v = (case jv_string v of Some s \<Rightarrow> (if isSnakeCode (JvStr s) then Some s else None) | None \<Rightarrow> None)"

definition pickCode :: "(string \<times> jvalue) list \<Rightarrow> nat \<Rightarrow> string" where
  "pickCode payload statusCode =
     opt_else (coalesce (own_code payload) (coalesce (snake_code (map_of payload ''message'')) (snake_code (map_of payload ''error''))))
       (defaultCodeForStatus statusCode)"

text \<open>The status must be a number; it is compared before it is used, so only 400 to 499 pass.\<close>

definition resolveExposedHttpError :: "exn \<Rightarrow> (nat \<times> string) option" where
  "resolveExposedHttpError e =
     (case e of
        OtherError cls fs msg \<Rightarrow>
          if map_of fs ''expose'' \<noteq> Some (JvBool True) then None
          else (case (case map_of fs ''status'' of Some (JvNum n) \<Rightarrow> Some (JvNum n) | _ \<Rightarrow> map_of fs ''statusCode'') of
                  Some (JvNum n) \<Rightarrow>
                    if n < of_nat BAD_REQUEST_STATUS \<or> of_nat INTERNAL_SERVER_ERROR_STATUS \<le> n then None else Some (nat \<lfloor>n\<rfloor>, msg)
                | _ \<Rightarrow> None)
      | _ \<Rightarrow> None)"

section \<open>The filter\<close>

definition legacyPayload :: "exn \<Rightarrow> jvalue option" where
  "legacyPayload e =
     (case e of
        HttpException cls st (JvObj raw) msg \<Rightarrow> if map_of raw ''message'' = None then Some (JvObj raw) else None
      | _ \<Rightarrow> None)"

definition string_entries :: "jvalue list \<Rightarrow> string list" where
  "string_entries vs = concat (map (\<lambda>v. case v of JvStr s \<Rightarrow> [s] | _ \<Rightarrow> []) vs)"

definition validation_outcome :: "(string \<times> jvalue) list \<Rightarrow> jvalue list \<Rightarrow> string \<times> string" where
  "validation_outcome raw vs =
     (let entries = string_entries vs;
          message = js_join ''; '' entries;
          code = opt_else (coalesce (own_code raw) (case entries of [m] \<Rightarrow> snake_code (Some (JvStr m)) | _ \<Rightarrow> None)) ''validation_failed''
      in (code, if message \<noteq> '''' then message else ''validation_failed''))"

definition describeForClient :: "exn \<Rightarrow> nat \<Rightarrow> string \<times> string" where
  "describeForClient e statusCode =
     (case e of
        HttpException cls st raw msg \<Rightarrow>
          (case raw of
             JvStr s \<Rightarrow> (if isSnakeCode raw then s else defaultCodeForStatus statusCode, s)
           | JvObj fs \<Rightarrow>
               (case map_of fs ''message'' of
                  Some (JvArr vs) \<Rightarrow> validation_outcome fs vs
                | m \<Rightarrow> (pickCode fs statusCode, opt_else (jv_string m) msg))
           | _ \<Rightarrow> (defaultCodeForStatus statusCode, msg))
      | _ \<Rightarrow>
          (case resolveExposedHttpError e of
             Some (st, msg) \<Rightarrow> (defaultCodeForStatus st, msg)
           | None \<Rightarrow> (INTERNAL_ERROR_CODE, INTERNAL_ERROR_MESSAGE)))"

definition exn_status :: "exn \<Rightarrow> nat" where
  "exn_status e =
     (case e of HttpException cls st raw msg \<Rightarrow> st
      | _ \<Rightarrow> (case resolveExposedHttpError e of Some (st, msg) \<Rightarrow> st | None \<Rightarrow> INTERNAL_SERVER_ERROR_STATUS))"

definition exn_describe :: "(rat \<Rightarrow> string) \<Rightarrow> exn \<Rightarrow> string" where
  "exn_describe num e =
     (case e of HttpException cls st raw msg \<Rightarrow> cls @ '': '' @ msg
      | OtherError cls fs msg \<Rightarrow> cls @ '': '' @ msg
      | ThrownValue v \<Rightarrow> jv_text num v)"

datatype log_line = LogError string | LogWarn string

definition filter_log :: "(rat \<Rightarrow> string) \<Rightarrow> exn \<Rightarrow> nat \<Rightarrow> string \<Rightarrow> string \<Rightarrow> string \<Rightarrow> log_line" where
  "filter_log num e statusCode verb path requestId =
     (let summary = verb @ '' '' @ path @ '' failed with '' @ dec statusCode @ '' [requestId='' @ requestId @ '']'';
          line = summary @ '': '' @ exn_describe num e
      in if INTERNAL_SERVER_ERROR_STATUS \<le> statusCode then LogError line else LogWarn line)"

definition error_envelope :: "nat \<Rightarrow> string \<Rightarrow> string \<Rightarrow> string \<Rightarrow> string \<Rightarrow> string \<Rightarrow> jvalue" where
  "error_envelope statusCode code message timestamp path requestId =
     JvObj [(''statusCode'', JvNum (of_nat statusCode)), (''code'', JvStr code), (''message'', JvStr message),
            (''timestamp'', JvStr timestamp), (''path'', JvStr path), (''requestId'', JvStr requestId)]"

definition send_json :: "nat \<Rightarrow> jvalue \<Rightarrow> http_response \<Rightarrow> http_response" where
  "send_json st body r = r\<lparr>hr_status := st, hr_body := Some body, hr_sent := True\<rparr>"

definition exchange_path :: "http_exchange \<Rightarrow> string" where
  "exchange_path x = opt_else (hx_original x) (rq_url (hx_request x))"

definition filter_catch ::
  "(rat \<Rightarrow> string) \<Rightarrow> string \<Rightarrow> string \<Rightarrow> exn \<Rightarrow> http_exchange \<Rightarrow> http_response \<Rightarrow> http_response \<times> log_line" where
  "filter_catch num uuid timestamp e x res =
     (case applyRequestIdHeader num uuid x res of
        (x', res1, requestId) \<Rightarrow>
          (let statusCode = exn_status e; path = exchange_path x';
               line = filter_log num e statusCode (rq_method (hx_request x')) path requestId
           in if hr_sent res1 then (res1, line)
              else (case legacyPayload e of
                      Some payload \<Rightarrow> (send_json statusCode payload res1, line)
                    | None \<Rightarrow>
                        (case describeForClient e statusCode of
                           (code, message) \<Rightarrow>
                             (send_json statusCode (error_envelope statusCode code message timestamp path requestId) res1, line)))))"

section \<open>What the handlers throw\<close>

text \<open>Nest expands \<open>new NotFoundException(m)\<close> to the payload with the status, the message and the name of the status.\<close>

definition nest_exception :: "string \<Rightarrow> nat \<Rightarrow> string \<Rightarrow> string \<Rightarrow> exn" where
  "nest_exception cls st name m =
     HttpException cls st (JvObj [(''message'', JvStr m), (''error'', JvStr name), (''statusCode'', JvNum (of_nat st))]) m"

definition thrown :: "api_error \<Rightarrow> exn" where
  "thrown e =
     (case e of
        BadRequest m \<Rightarrow> nest_exception ''BadRequestException'' 400 ''Bad Request'' m
      | Unauthorized m \<Rightarrow> nest_exception ''UnauthorizedException'' 401 ''Unauthorized'' m
      | Forbidden code m \<Rightarrow> HttpException ''ForbiddenException'' 403
                              (JvObj [(''statusCode'', JvNum 403), (''code'', JvStr code), (''message'', JvStr m)]) ''Forbidden Exception''
      | NotFound m \<Rightarrow> nest_exception ''NotFoundException'' 404 ''Not Found'' m
      | Conflict m \<Rightarrow> nest_exception ''ConflictException'' 409 ''Conflict'' m
      | PayloadTooLarge m \<Rightarrow> nest_exception ''PayloadTooLargeException'' 413 ''Payload Too Large'' m
      | UnprocessableEntity m \<Rightarrow> nest_exception ''UnprocessableEntityException'' 422 ''Unprocessable Entity'' m
      | ServiceUnavailable m \<Rightarrow> nest_exception ''ServiceUnavailableException'' 503 ''Service Unavailable'' m
      | Unexpected m \<Rightarrow> OtherError ''Error'' [] m)"


section \<open>What the client sees\<close>

lemma map_of_set_header [simp]:
  "map_of (hr_headers (set_header n v r)) m = (if m = n then Some v else map_of (hr_headers r) m)"
proof -
  have "map_of (filter (\<lambda>h. fst h \<noteq> n) hs) m = (if m = n then None else map_of hs m)" for hs :: "(string \<times> string) list"
    by (induction hs) auto
  then show ?thesis by (simp add: set_header_def)
qed

lemma set_header_simps [simp]:
  "hr_sent (set_header n v r) = hr_sent r" "hr_status (set_header n v r) = hr_status r" "hr_body (set_header n v r) = hr_body r"
  by (simp_all add: set_header_def)

lemma snake_nonempty: "isSnakeCode (JvStr s) \<Longrightarrow> s \<noteq> ''''"
  by (cases s) (auto simp: isSnakeCode_def)

lemma default_code_nonempty: "defaultCodeForStatus st \<noteq> ''''"
  by (auto simp: defaultCodeForStatus_def STATUS_CODES_def INTERNAL_ERROR_CODE_def split: option.splits if_splits)

lemma own_code_nonempty: "own_code fs \<noteq> Some ''''"
  by (auto simp: own_code_def split: option.splits)

lemma snake_code_nonempty: "snake_code v \<noteq> Some ''''"
  by (auto simp: snake_code_def dest: snake_nonempty split: option.splits)

lemma validation_nonempty: "fst (validation_outcome fs vs) \<noteq> ''''"
  using own_code_nonempty [of fs] snake_code_nonempty
  by (fastforce simp: validation_outcome_def Let_def coalesce_def opt_else_def split: option.splits list.splits)

lemma pickCode_nonempty: "pickCode fs st \<noteq> ''''"
  using own_code_nonempty [of fs] snake_code_nonempty default_code_nonempty [of st]
  by (fastforce simp: pickCode_def coalesce_def opt_else_def split: option.splits)

lemma described_nonempty: "fst (describeForClient e st) \<noteq> ''''"
  by (auto simp: describeForClient_def snake_nonempty default_code_nonempty pickCode_nonempty validation_nonempty
      INTERNAL_ERROR_CODE_def split: exn.splits jvalue.splits option.splits prod.splits)

lemma resolved_path: "exchange_path (fst (resolveRequestId num uuid x)) = exchange_path x"
  "hx_request (fst (resolveRequestId num uuid x)) = hx_request x"
  by (auto simp: resolveRequestId_def Let_def exchange_path_def split: option.splits jvalue.splits)

definition internal_error :: "exn \<Rightarrow> bool" where
  "internal_error e \<longleftrightarrow> (case e of HttpException cls st raw msg \<Rightarrow> False | _ \<Rightarrow> resolveExposedHttpError e = None)"

lemma internal_error_described:
  "internal_error e \<Longrightarrow> exn_status e = 500 \<and> legacyPayload e = None \<and>
     describeForClient e st = (INTERNAL_ERROR_CODE, INTERNAL_ERROR_MESSAGE)"
  by (auto simp: internal_error_def exn_status_def legacyPayload_def describeForClient_def INTERNAL_SERVER_ERROR_STATUS_def
      split: exn.splits)

lemma filter_catch_fresh:
  assumes "\<not> hr_sent res" and "resolveRequestId num uuid x = (x', requestId)"
  shows "fst (filter_catch num uuid ts e x res) =
     send_json (exn_status e)
       (case legacyPayload e of
          Some payload \<Rightarrow> payload
        | None \<Rightarrow> error_envelope (exn_status e) (fst (describeForClient e (exn_status e))) (snd (describeForClient e (exn_status e)))
                    ts (exchange_path x) requestId)
       (set_header REQUEST_ID_HEADER requestId res)"
  using assms resolved_path(1) [of num uuid x]
  by (simp add: filter_catch_def applyRequestIdHeader_def Let_def split: option.splits prod.splits)


text \<open>
  A handler's error reaches the client as its status with its own message, and a message in snake case is
  also the code; only an unexpected error is replaced by the internal one.
\<close>

theorem handler_errors_keep_their_code:
  "case a of
     Forbidden code m \<Rightarrow> exn_status (thrown a) = 403 \<and> (code \<noteq> '''' \<longrightarrow> describeForClient (thrown a) 403 = (code, m))
   | Unexpected m \<Rightarrow> internal_error (thrown a)
   | BadRequest m \<Rightarrow> exn_status (thrown a) = 400 \<and> (isSnakeCode (JvStr m) \<longrightarrow> describeForClient (thrown a) 400 = (m, m))
   | Unauthorized m \<Rightarrow> exn_status (thrown a) = 401 \<and> (isSnakeCode (JvStr m) \<longrightarrow> describeForClient (thrown a) 401 = (m, m))
   | NotFound m \<Rightarrow> exn_status (thrown a) = 404 \<and> (isSnakeCode (JvStr m) \<longrightarrow> describeForClient (thrown a) 404 = (m, m))
   | Conflict m \<Rightarrow> exn_status (thrown a) = 409 \<and> (isSnakeCode (JvStr m) \<longrightarrow> describeForClient (thrown a) 409 = (m, m))
   | PayloadTooLarge m \<Rightarrow> exn_status (thrown a) = 413 \<and> (isSnakeCode (JvStr m) \<longrightarrow> describeForClient (thrown a) 413 = (m, m))
   | UnprocessableEntity m \<Rightarrow> exn_status (thrown a) = 422 \<and> (isSnakeCode (JvStr m) \<longrightarrow> describeForClient (thrown a) 422 = (m, m))
   | ServiceUnavailable m \<Rightarrow> exn_status (thrown a) = 503 \<and> (isSnakeCode (JvStr m) \<longrightarrow> describeForClient (thrown a) 503 = (m, m))"
  by (cases a) (simp_all add: thrown_def nest_exception_def exn_status_def describeForClient_def pickCode_def jv_string_def
      own_code_def snake_code_def internal_error_def resolveExposedHttpError_def)

text \<open>
  The success envelope draws its own id: without an inbound header it is not the one of the response header.
\<close>

lemma success_id_differs:
  assumes "request_header r ''x-request-id'' = None"
  shows "meta_request_id (snd (successResponse now uuid2 r d)) = uuid2"
    and "map_of (hr_headers (fst (snd (applyRequestIdHeader num uuid1 \<lparr>hx_request = r, hx_id = None, hx_original = None\<rparr>
            \<lparr>hr_sent = False, hr_headers = [], hr_status = 200, hr_body = None\<rparr>)))) ''x-request-id'' = Some uuid1"
  using assms
  by (simp_all add: successResponse_def getRequestId_def applyRequestIdHeader_def resolveRequestId_def REQUEST_ID_HEADER_def Let_def)


theorem handler_errors_keep_their_code_witness:
  "describeForClient (thrown (NotFound ''feed_not_found'')) 404 = (''feed_not_found'', ''feed_not_found'')"
proof -
  have "isSnakeCode (JvStr ''feed_not_found'')" by code_simp
  with handler_errors_keep_their_code [of "NotFound ''feed_not_found''"] show ?thesis by simp
qed

end
