(* ===== verification/Rate_Limit.thy ===== *)
theory Rate_Limit imports Error_Envelope begin

text \<open>
  Inbound rate limiting, \<open>src/shared/http/throttler.module.ts\<close>: the resolution of the limits, the two counter
  stores (the Lua script over Redis and the map of the process), the budget a request is billed against and
  the guard. The contract of a store is the locale \<open>window_counter\<close>; both stores are interpretations of it.
  Values of the typed configuration are integers; \<open>rq_ip\<close> is the peer address Express gives.
  Theorems: at most twice the limit of requests of one budget pass within any interval of a window's length;
  and a route written in capitals is billed against the wrong budget.
\<close>

section \<open>Limits\<close>

datatype rate_policy = DefaultPolicy | WritePolicy

definition policy_name :: "rate_policy \<Rightarrow> string" where
  "policy_name p = (case p of DefaultPolicy \<Rightarrow> ''default'' | WritePolicy \<Rightarrow> ''write'')"

record rate_options =
  windowMs :: int
  defaultLimit :: int
  writeLimit :: int

record rate_config =
  rateLimitTtlSeconds :: "int option"
  rateLimitMaxRequests :: "int option"
  rateLimitWriteMaxRequests :: "int option"

definition DEFAULT_RATE_LIMIT_TTL_SECONDS :: int where "DEFAULT_RATE_LIMIT_TTL_SECONDS = 60"
definition DEFAULT_RATE_LIMIT_MAX_REQUESTS :: int where "DEFAULT_RATE_LIMIT_MAX_REQUESTS = 300"
definition DEFAULT_RATE_LIMIT_WRITE_MAX_REQUESTS :: int where "DEFAULT_RATE_LIMIT_WRITE_MAX_REQUESTS = 30"

definition readIntEnv :: "(string \<Rightarrow> string option) \<Rightarrow> string \<Rightarrow> int \<Rightarrow> int option" where
  "readIntEnv env name minimum =
     (case env name of
        None \<Rightarrow> None
      | Some raw \<Rightarrow>
          if js_trim raw = '''' then None
          else (case as_integer (js_Number raw) of
                  None \<Rightarrow> None
                | Some parsed \<Rightarrow> if parsed < minimum then None else Some parsed))"

definition resolveLimit :: "(string \<Rightarrow> string option) \<Rightarrow> int option \<Rightarrow> string \<Rightarrow> int \<Rightarrow> int" where
  "resolveLimit env configured envName dflt =
     (case configured of
        Some n \<Rightarrow> if 0 \<le> n then n else opt_else (readIntEnv env envName 0) dflt
      | None \<Rightarrow> opt_else (readIntEnv env envName 0) dflt)"

definition resolveRateLimitOptions :: "(string \<Rightarrow> string option) \<Rightarrow> rate_config \<Rightarrow> rate_options" where
  "resolveRateLimitOptions env source =
     (let fromEnv = opt_else (readIntEnv env ''RATE_LIMIT_TTL_SECONDS'' 1) DEFAULT_RATE_LIMIT_TTL_SECONDS;
          ttlSeconds = (case rateLimitTtlSeconds source of Some n \<Rightarrow> if 0 < n then n else fromEnv | None \<Rightarrow> fromEnv)
      in \<lparr>windowMs = ttlSeconds * 1000,
          defaultLimit = resolveLimit env (rateLimitMaxRequests source) ''RATE_LIMIT_MAX_REQUESTS'' DEFAULT_RATE_LIMIT_MAX_REQUESTS,
          writeLimit = resolveLimit env (rateLimitWriteMaxRequests source) ''RATE_LIMIT_WRITE_MAX_REQUESTS''
                         DEFAULT_RATE_LIMIT_WRITE_MAX_REQUESTS\<rparr>)"

section \<open>Stores\<close>

text \<open>A window is its hits and the time at which it ends.\<close>

type_synonym windows = "string \<Rightarrow> (nat \<times> nat) option"

definition live_window :: "windows \<Rightarrow> nat \<Rightarrow> string \<Rightarrow> (nat \<times> nat) option" where
  "live_window ws now key = (case ws key of Some (h, e) \<Rightarrow> if now < e then Some (h, e) else None | None \<Rightarrow> None)"

record consumption =
  totalHits :: rat
  resetAfterMs :: rat

text \<open>The script: \<open>INCR\<close>, \<open>PEXPIRE\<close> on the first hit, and the reply with \<open>PTTL\<close>; an expired key is gone.\<close>

datatype redis_value = RInt int | RBulk string | RNil | RArr "redis_value list"

definition consume_script :: "string \<Rightarrow> nat \<Rightarrow> nat \<Rightarrow> windows \<Rightarrow> windows \<times> redis_value" where
  "consume_script key window now r =
     (let hits = (case live_window r now key of None \<Rightarrow> 1 | Some (h, e) \<Rightarrow> Suc h);
          expiry = (if hits = 1 then now + window else (case live_window r now key of Some (h, e) \<Rightarrow> e | None \<Rightarrow> now + window))
      in (r(key \<mapsto> (hits, expiry)), RArr [RInt (int hits), RInt (int (expiry - now))]))"

definition toPositiveNumber :: "redis_value \<Rightarrow> rat option" where
  "toPositiveNumber v =
     (case v of
        RInt i \<Rightarrow> if 0 < i then Some (of_int i) else None
      | RBulk s \<Rightarrow> (case js_Number s of Fin q \<Rightarrow> if 0 < q then Some q else None | _ \<Rightarrow> None)
      | _ \<Rightarrow> None)"

definition redis_consumption :: "redis_value \<Rightarrow> nat \<Rightarrow> string + consumption" where
  "redis_consumption reply window =
     (case reply of
        RArr values \<Rightarrow>
          (case toPositiveNumber (case values of v # _ \<Rightarrow> v | [] \<Rightarrow> RNil) of
             None \<Rightarrow> Inl ''rate_limit_store_unexpected_reply''
           | Some hits \<Rightarrow>
               Inr \<lparr>totalHits = hits,
                    resetAfterMs = opt_else (toPositiveNumber (case values of _ # v # _ \<Rightarrow> v | _ \<Rightarrow> RNil)) (of_nat window)\<rparr>)
      | _ \<Rightarrow> Inl ''rate_limit_store_unexpected_reply'')"

definition redis_consume :: "string option \<Rightarrow> string \<Rightarrow> nat \<Rightarrow> nat \<Rightarrow> windows \<Rightarrow> windows \<times> (string + consumption)" where
  "redis_consume fails key window now r =
     (case fails of
        Some m \<Rightarrow> (r, Inl m)
      | None \<Rightarrow> (case consume_script key window now r of (r', reply) \<Rightarrow> (r', redis_consumption reply window)))"

definition evictExpired :: "nat \<Rightarrow> windows \<Rightarrow> windows" where
  "evictExpired now ws = (\<lambda>k. case ws k of Some (h, e) \<Rightarrow> if e \<le> now then None else Some (h, e) | None \<Rightarrow> None)"

definition memory_consume :: "string \<Rightarrow> nat \<Rightarrow> nat \<Rightarrow> windows \<Rightarrow> windows \<times> consumption" where
  "memory_consume key window now ws =
     (case live_window ws now key of
        Some (h, e) \<Rightarrow> (ws(key \<mapsto> (Suc h, e)), \<lparr>totalHits = of_nat (Suc h), resetAfterMs = of_nat (e - now)\<rparr>)
      | None \<Rightarrow> ((evictExpired now ws)(key \<mapsto> (1, now + window)), \<lparr>totalHits = 1, resetAfterMs = of_nat window\<rparr>))"

datatype rate_store = RedisStore windows | MemoryStore windows

definition createRateLimitStore :: "bool \<Rightarrow> windows \<Rightarrow> rate_store" where
  "createRateLimitStore canEval shared = (if canEval then RedisStore shared else MemoryStore Map.empty)"

definition store_consume :: "string option \<Rightarrow> string \<Rightarrow> nat \<Rightarrow> nat \<Rightarrow> rate_store \<Rightarrow> rate_store \<times> (string + consumption)" where
  "store_consume fails key window now st =
     (case st of
        RedisStore r \<Rightarrow> (case redis_consume fails key window now r of (r', c) \<Rightarrow> (RedisStore r', c))
      | MemoryStore ws \<Rightarrow> (case memory_consume key window now ws of (ws', c) \<Rightarrow> (MemoryStore ws', Inr c)))"

section \<open>The budget of a request\<close>

definition UNLIMITED_PATHS :: "string list" where "UNLIMITED_PATHS = [''/health'', ''/ready'', ''/live'', ''/metrics'']"
definition RATE_LIMITED_PATH_PREFIX :: string where "RATE_LIMITED_PATH_PREFIX = ''/api/''"
definition RATE_KEY_PREFIX :: string where "RATE_KEY_PREFIX = ''feedpulse:ratelimit''"

definition rate_path :: "request \<Rightarrow> string" where
  "rate_path r =
     (let path = takeWhile (\<lambda>c. c \<noteq> CHR ''?'') (if rq_path r \<noteq> '''' then rq_path r else rq_url r)
      in if 1 < length path \<and> last path = CHR ''/'' then butlast path else path)"

text \<open>The patterns by the segments of the path; a method is written in ASCII.\<close>

definition upper_char :: "char \<Rightarrow> char" where
  "upper_char c = (if CHR ''a'' \<le> c \<and> c \<le> CHR ''z'' then char_of ((of_char c :: nat) - 32) else c)"

definition write_route :: "string \<Rightarrow> bool" where
  "write_route path =
     (case js_split (CHR ''/'') path of
        ['''', a, v, b, c] \<Rightarrow>
          a = ''api'' \<and> v = ''v1'' \<and> ((b = ''feeds'' \<and> c = ''validate'') \<or> (b = ''opml'' \<and> c = ''imports''))
      | ['''', a, v, b, x, c] \<Rightarrow>
          a = ''api'' \<and> v = ''v1'' \<and> x \<noteq> '''' \<and> ((b = ''feeds'' \<and> c = ''check-now'') \<or> (b = ''alerts'' \<and> c = ''send''))
      | ['''', a, v, b, i, x, c] \<Rightarrow>
          a = ''api'' \<and> v = ''v1'' \<and> b = ''opml'' \<and> i = ''imports'' \<and> x \<noteq> '''' \<and> c = ''confirm''
      | _ \<Rightarrow> False)"

definition resolvePolicyFromRoute :: "string \<Rightarrow> string \<Rightarrow> rate_policy" where
  "resolvePolicyFromRoute verb path =
     (if map upper_char verb = ''POST'' \<and> write_route path then WritePolicy else DefaultPolicy)"

definition resolveScope :: "request \<Rightarrow> string" where
  "resolveScope r =
     (if opt_else (rq_tenant r) '''' \<noteq> '''' then ''tenant:'' @ the (rq_tenant r)
      else ''ip:'' @ opt_else (rq_ip r) ''unknown'')"

record rate_context =
  rc_http :: bool
  rc_skip :: bool
  rc_policy :: "rate_policy option"

definition policy_limit :: "rate_options \<Rightarrow> rate_policy \<Rightarrow> int" where
  "policy_limit opts p = (case p of WritePolicy \<Rightarrow> writeLimit opts | DefaultPolicy \<Rightarrow> defaultLimit opts)"

text \<open>\<open>None\<close>: the request is not limited.\<close>

definition billed :: "rate_options \<Rightarrow> rate_context \<Rightarrow> request \<Rightarrow> (rate_policy \<times> string) option" where
  "billed opts ctx r =
     (let path = rate_path r;
          policy = opt_else (rc_policy ctx) (resolvePolicyFromRoute (rq_method r) path)
      in if \<not> rc_http ctx \<or> \<not> prefix RATE_LIMITED_PATH_PREFIX path \<or> path \<in> set UNLIMITED_PATHS \<or> rc_skip ctx
            \<or> policy_limit opts policy \<le> 0 then None
         else Some (policy, RATE_KEY_PREFIX @ '':'' @ policy_name policy @ '':'' @ resolveScope r))"

section \<open>The guard\<close>

definition int_text :: "int \<Rightarrow> string" where
  "int_text i = (if i < 0 then ''-'' @ dec (nat (- i)) else dec (nat i))"

definition rate_headers :: "int \<Rightarrow> consumption \<Rightarrow> (string \<times> string) list" where
  "rate_headers limit c =
     [(''X-RateLimit-Limit'', int_text limit),
      (''X-RateLimit-Remaining'', int_text (max 0 (limit - \<lceil>totalHits c\<rceil>))),
      (''X-RateLimit-Reset'', int_text (max 1 \<lceil>resetAfterMs c / 1000\<rceil>))]"

definition rate_exception :: "rate_options \<Rightarrow> rate_policy \<Rightarrow> int \<Rightarrow> int \<Rightarrow> exn" where
  "rate_exception opts policy limit resetSeconds =
     (let message = ''Rate limit exceeded for the '' @ policy_name policy @ '' budget ('' @ int_text limit @ '' requests per '' @
            int_text \<lfloor>of_int (windowMs opts) / 1000 + 1 / 2 :: rat\<rfloor> @ ''s). Retry in '' @ int_text resetSeconds @ ''s.''
      in HttpException ''HttpException'' 429
           (JvObj [(''statusCode'', JvNum 429), (''code'', JvStr ''rate_limit_exceeded''), (''message'', JvStr message)]) message)"

definition RateLimitGuard_canActivate ::
  "rate_options \<Rightarrow> rate_context \<Rightarrow> string option \<Rightarrow> nat \<Rightarrow> request \<Rightarrow> rate_store \<Rightarrow> rate_store \<times> (string \<times> string) list \<times> (exn + unit)" where
  "RateLimitGuard_canActivate opts ctx fails now r st =
     (case billed opts ctx r of
        None \<Rightarrow> (st, [], Inr ())
      | Some (policy, key) \<Rightarrow>
          (let limit = policy_limit opts policy in
           case store_consume fails key (nat (windowMs opts)) now st of
             (st', Inl m) \<Rightarrow> (st', [], Inr ())
           | (st', Inr c) \<Rightarrow>
               (let resetSeconds = max 1 \<lceil>resetAfterMs c / 1000\<rceil> in
                if of_int limit < totalHits c
                then (st', rate_headers limit c @ [(''Retry-After'', int_text resetSeconds)],
                      Inl (rate_exception opts policy limit resetSeconds))
                else (st', rate_headers limit c, Inr ()))))"


section \<open>The contract of a store\<close>

text \<open>
  A fixed-window counter: \<open>window s now k\<close> is the window of a key that is open at a time, with its hits and its
  end. Windows do not come back once they are over, and a hit counts for its key alone.
\<close>

locale window_counter =
  fixes consume :: "string \<Rightarrow> nat \<Rightarrow> 's \<Rightarrow> 's \<times> nat"
    and window :: "'s \<Rightarrow> nat \<Rightarrow> string \<Rightarrow> (nat \<times> nat) option"
    and len :: nat
  assumes open_until: "window s now k = Some (h, e) \<Longrightarrow> now < e"
    and stays_open: "window s now k = Some (h, e) \<Longrightarrow> now \<le> now' \<Longrightarrow> now' < e \<Longrightarrow> window s now' k = Some (h, e)"
    and over: "window s now k = Some (h, e) \<Longrightarrow> e \<le> now' \<Longrightarrow> window s now' k = None"
    and stays_closed: "window s now k = None \<Longrightarrow> now \<le> now' \<Longrightarrow> window s now' k = None"
    and hit: "consume k now s = (s', n) \<Longrightarrow> 0 < len \<Longrightarrow>
      (case window s now k of
         None \<Rightarrow> n = 1 \<and> window s' now k = Some (1, now + len)
       | Some (h, e) \<Rightarrow> n = Suc h \<and> window s' now k = Some (Suc h, e))"
    and other_key: "consume k now s = (s', n) \<Longrightarrow> k' \<noteq> k \<Longrightarrow> window s' now k' = window s now k'"
begin

text \<open>The hits reported for a sequence of requests.\<close>

fun hits_of :: "(nat \<times> string) list \<Rightarrow> 's \<Rightarrow> nat list" where
  "hits_of [] s = []"
| "hits_of ((now, k) # qs) s = (case consume k now s of (s', n) \<Rightarrow> n # hits_of qs s')"

definition passed :: "string \<Rightarrow> nat \<Rightarrow> nat \<Rightarrow> nat \<Rightarrow> (nat \<times> string) list \<Rightarrow> 's \<Rightarrow> nat" where
  "passed k limit t t' qs s =
     length (filter (\<lambda>((now, k'), n). k' = k \<and> t \<le> now \<and> now < t' \<and> n \<le> limit) (zip qs (hits_of qs s)))"

lemma passed_Nil [simp]: "passed k limit t t' [] s = 0"
  by (simp add: passed_def)

lemma passed_Cons:
  "consume k' now s = (s', n) \<Longrightarrow>
   passed k limit t t' ((now, k') # qs) s =
     (if k' = k \<and> t \<le> now \<and> now < t' \<and> n \<le> limit then 1 else 0) + passed k limit t t' qs s'"
  by (simp add: passed_def)

lemma passed_late:
  "\<forall>q \<in> set qs. t' \<le> fst q \<Longrightarrow> passed k limit t t' qs s = 0"
proof (induction qs arbitrary: s)
  case (Cons q qs)
  obtain now k' s' n where "q = (now, k')" "consume k' now s = (s', n)" by (metis surj_pair)
  with Cons show ?case by (simp add: passed_Cons)
qed simp

text \<open>What may still pass before the end of an interval of one window's length.\<close>

definition allowance :: "nat \<Rightarrow> nat \<Rightarrow> (nat \<times> nat) option \<Rightarrow> nat" where
  "allowance limit t' w = (case w of None \<Rightarrow> limit | Some (h, e) \<Rightarrow> (limit - h) + (if t' \<le> e then 0 else limit))"

lemma allowance_le: "allowance limit t' w \<le> 2 * limit"
  by (auto simp: allowance_def split: option.splits)

lemma allowance_later:
  assumes "now \<le> now'" and "now' < t'"
  shows "allowance limit t' (window s now' k) \<le> allowance limit t' (window s now k)"
proof (cases "window s now k")
  case None
  with stays_closed assms(1) show ?thesis by (simp add: allowance_def)
next
  case (Some w)
  obtain h e where w: "w = (h, e)" by fastforce
  show ?thesis
  proof (cases "now' < e")
    case True
    from stays_open [OF Some [unfolded w] assms(1) this] Some w show ?thesis by simp
  next
    case False
    then have "window s now' k = None" using over [OF Some [unfolded w]] by simp
    with Some w False assms(2) show ?thesis by (simp add: allowance_def)
  qed
qed

lemma passed_within:
  assumes "0 < len" and "t \<le> now0" and "sorted (now0 # map fst qs)"
  shows "passed k limit t (t + len) qs s \<le> allowance limit (t + len) (window s now0 k)"
  using assms(2,3)
proof (induction qs arbitrary: s now0)
  case (Cons q qs)
  obtain now k' s' n where q: "q = (now, k')" and c: "consume k' now s = (s', n)" by (metis surj_pair)
  have order: "now0 \<le> now" "t \<le> now" "sorted (now # map fst qs)" using Cons.prems q by auto
  note ih = Cons.IH [OF order(2,3), of s']
  show ?case
  proof (cases "now < t + len")
    case False
    with Cons.prems q have "\<forall>q \<in> set (q # qs). t + len \<le> fst q" by fastforce
    then show ?thesis using passed_late by (metis le0)
  next
    case True
    have "passed k limit t (t + len) (q # qs) s \<le> allowance limit (t + len) (window s now k)"
    proof (cases "k' = k")
      case False
      with ih other_key [OF c] show ?thesis by (simp add: q passed_Cons [OF c])
    next
      case same: True
      show ?thesis
      proof (cases "window s now k")
        case None
        with hit [OF c assms(1)] same have "n = 1" "window s' now k = Some (1, now + len)" by simp_all
        with ih None order(2) True show ?thesis
          unfolding q same passed_Cons [OF c [unfolded same]] by (auto simp: allowance_def)
      next
        case (Some w)
        obtain h e where w: "w = (h, e)" by fastforce
        with hit [OF c assms(1)] same Some have "n = Suc h" "window s' now k = Some (Suc h, e)" by simp_all
        with ih Some w order(2) True show ?thesis
          unfolding q same passed_Cons [OF c [unfolded same]] by (auto simp: allowance_def)
      qed
    qed
    also have "\<dots> \<le> allowance limit (t + len) (window s now0 k)"
      using allowance_later order(1) True .
    finally show ?thesis .
  qed
qed simp

theorem passed_bounded:
  assumes "0 < len" and "sorted (map fst qs)"
  shows "passed k limit t (t + len) qs s \<le> 2 * limit"
  using assms(2)
proof (induction qs arbitrary: s)
  case (Cons q qs)
  obtain now k' s' n where q: "q = (now, k')" and c: "consume k' now s = (s', n)" by (metis surj_pair)
  show ?case
  proof (cases "t \<le> now")
    case True
    have "sorted (now # map fst (q # qs))" using Cons.prems q by simp
    from passed_within [OF assms(1) True this] allowance_le show ?thesis by (rule le_trans)
  next
    case False
    with Cons.IH [of s'] Cons.prems show ?thesis by (simp add: q passed_Cons [OF c])
  qed
qed simp

end

section \<open>Both stores keep the contract\<close>

lemma live_window_simps [simp]:
  "live_window (ws(k \<mapsto> (h, e))) now k' = (if k' = k then (if now < e then Some (h, e) else None) else live_window ws now k')"
  by (simp add: live_window_def)

lemma live_window_evict [simp]: "live_window (evictExpired now ws) now k = live_window ws now k"
  by (auto simp: live_window_def evictExpired_def split: option.splits)

definition redis_hit :: "nat \<Rightarrow> string \<Rightarrow> nat \<Rightarrow> windows \<Rightarrow> windows \<times> nat" where
  "redis_hit len k now r =
     (fst (consume_script k len now r), (case live_window r now k of None \<Rightarrow> 1 | Some (h, e) \<Rightarrow> Suc h))"

definition memory_hit :: "nat \<Rightarrow> string \<Rightarrow> nat \<Rightarrow> windows \<Rightarrow> windows \<times> nat" where
  "memory_hit len k now ws =
     (fst (memory_consume k len now ws), (case live_window ws now k of None \<Rightarrow> 1 | Some (h, e) \<Rightarrow> Suc h))"

text \<open>A window of Redis has at least one hit, by which the script knows the first one.\<close>

definition started :: "windows \<Rightarrow> windows" where
  "started r = (\<lambda>k. case r k of Some (h, e) \<Rightarrow> if h = 0 then None else Some (h, e) | None \<Rightarrow> None)"

lemma started_simps [simp]: "started (r(k \<mapsto> (h, e))) = (if h = 0 then (started r)(k := None) else (started r)(k \<mapsto> (h, e)))"
  by (auto simp: started_def fun_eq_iff)

lemma live_started: "live_window (started r) now k = (case live_window r now k of Some (h, e) \<Rightarrow> if h = 0 then None else Some (h, e) | None \<Rightarrow> None)"
  by (auto simp: live_window_def started_def split: option.splits)

interpretation memory_store: window_counter "memory_hit len" live_window len
proof
  show "live_window s now k = Some (h, e) \<Longrightarrow> now < e" for s now k h e
    by (auto simp: live_window_def split: option.splits if_splits)
  show "live_window s now k = Some (h, e) \<Longrightarrow> now \<le> now' \<Longrightarrow> now' < e \<Longrightarrow> live_window s now' k = Some (h, e)" for s now k h e now'
    by (auto simp: live_window_def split: option.splits if_splits)
  show "live_window s now k = Some (h, e) \<Longrightarrow> e \<le> now' \<Longrightarrow> live_window s now' k = None" for s now k h e now'
    by (auto simp: live_window_def split: option.splits if_splits)
  show "live_window s now k = None \<Longrightarrow> now \<le> now' \<Longrightarrow> live_window s now' k = None" for s now k now'
    by (auto simp: live_window_def split: option.splits if_splits)
  show "memory_hit len k now s = (s', n) \<Longrightarrow> 0 < len \<Longrightarrow>
      (case live_window s now k of
         None \<Rightarrow> n = 1 \<and> live_window s' now k = Some (1, now + len)
       | Some (h, e) \<Rightarrow> n = Suc h \<and> live_window s' now k = Some (Suc h, e))" for k now s s' n
    by (auto simp: memory_hit_def memory_consume_def split: option.splits) (auto simp: live_window_def split: option.splits if_splits)
  show "memory_hit len k now s = (s', n) \<Longrightarrow> k' \<noteq> k \<Longrightarrow> live_window s' now k' = live_window s now k'" for k now s s' n k'
    by (auto simp: memory_hit_def memory_consume_def split: option.splits)
qed

interpretation redis_store: window_counter "redis_hit len" "\<lambda>r. live_window (started r)" len
proof
  show "live_window (started s) now k = Some (h, e) \<Longrightarrow> now < e" for s now k h e
    by (auto simp: live_window_def split: option.splits if_splits)
  show "live_window (started s) now k = Some (h, e) \<Longrightarrow> now \<le> now' \<Longrightarrow> now' < e \<Longrightarrow> live_window (started s) now' k = Some (h, e)" for s now k h e now'
    by (auto simp: live_window_def split: option.splits if_splits)
  show "live_window (started s) now k = Some (h, e) \<Longrightarrow> e \<le> now' \<Longrightarrow> live_window (started s) now' k = None" for s now k h e now'
    by (auto simp: live_window_def split: option.splits if_splits)
  show "live_window (started s) now k = None \<Longrightarrow> now \<le> now' \<Longrightarrow> live_window (started s) now' k = None" for s now k now'
    by (auto simp: live_window_def split: option.splits if_splits)
  show "redis_hit len k now s = (s', n) \<Longrightarrow> 0 < len \<Longrightarrow>
      (case live_window (started s) now k of
         None \<Rightarrow> n = 1 \<and> live_window (started s') now k = Some (1, now + len)
       | Some (h, e) \<Rightarrow> n = Suc h \<and> live_window (started s') now k = Some (Suc h, e))" for k now s s' n
    by (auto simp: redis_hit_def consume_script_def live_started Let_def split: option.splits if_splits)
      (auto simp: live_window_def split: option.splits if_splits)
  show "redis_hit len k now s = (s', n) \<Longrightarrow> k' \<noteq> k \<Longrightarrow> live_window (started s') now k' = live_window (started s) now k'" for k now s s' n k'
    by (auto simp: redis_hit_def consume_script_def Let_def live_window_def started_def split: option.splits if_splits)
qed

section \<open>The guard over time\<close>

text \<open>A sequence of requests, each with the time of its arrival.\<close>

fun guard_run :: "rate_options \<Rightarrow> (nat \<times> rate_context \<times> request) list \<Rightarrow> rate_store \<Rightarrow> bool list" where
  "guard_run opts [] st = []"
| "guard_run opts ((now, ctx, r) # qs) st =
     (case RateLimitGuard_canActivate opts ctx None now r st of
        (st', headers, res) \<Rightarrow> (res = Inr ()) # guard_run opts qs st')"

definition let_through :: "rate_options \<Rightarrow> rate_policy \<Rightarrow> string \<Rightarrow> nat \<Rightarrow> nat \<Rightarrow> (nat \<times> rate_context \<times> request) list \<Rightarrow> rate_store \<Rightarrow> nat" where
  "let_through opts policy key t t' qs st =
     length (filter (\<lambda>((now, ctx, r), ok). billed opts ctx r = Some (policy, key) \<and> t \<le> now \<and> now < t' \<and> ok)
       (zip qs (guard_run opts qs st)))"

definition billed_hits :: "rate_options \<Rightarrow> (nat \<times> rate_context \<times> request) list \<Rightarrow> (nat \<times> string) list" where
  "billed_hits opts qs =
     concat (map (\<lambda>(now, ctx, r). case billed opts ctx r of None \<Rightarrow> [] | Some (policy, key) \<Rightarrow> [(now, key)]) qs)"


lemma memory_call:
  "\<exists>c. store_consume None k len now (MemoryStore ws) = (MemoryStore (fst (memory_hit len k now ws)), Inr c) \<and>
       totalHits c = of_nat (snd (memory_hit len k now ws))"
  by (cases "live_window ws now k") (auto simp: store_consume_def memory_hit_def memory_consume_def)

lemma redis_call:
  "\<exists>c. store_consume None k len now (RedisStore ws) = (RedisStore (fst (redis_hit len k now ws)), Inr c) \<and>
       totalHits c = of_nat (snd (redis_hit len k now ws))"
  by (cases "live_window ws now k")
    (auto simp: store_consume_def redis_consume_def redis_hit_def consume_script_def redis_consumption_def toPositiveNumber_def Let_def)

lemma billed_limit: "billed opts ctx r = Some (policy, key) \<Longrightarrow> 0 < policy_limit opts policy"
  by (auto simp: billed_def Let_def split: if_splits)

lemma guard_verdict:
  assumes "billed opts ctx r = Some (policy, key)" and "store_consume None key (nat (windowMs opts)) now st = (st', Inr c)"
    and "totalHits c = of_nat n"
  shows "\<exists>hs res. RateLimitGuard_canActivate opts ctx None now r st = (st', hs, res) \<and>
           (res = Inr () \<longleftrightarrow> n \<le> nat (policy_limit opts policy))"
proof -
  have "of_int (policy_limit opts policy) < (of_nat n :: rat) \<longleftrightarrow> policy_limit opts policy < int n"
    by (metis of_int_less_iff of_int_of_nat_eq)
  with assms billed_limit [OF assms(1)] show ?thesis
    by (auto simp: RateLimitGuard_canActivate_def Let_def)
qed

lemma let_through_Cons:
  assumes "RateLimitGuard_canActivate opts ctx None now r st = (st', hs, res)"
  shows "let_through opts policy key t t' ((now, ctx, r) # qs) st =
     (if billed opts ctx r = Some (policy, key) \<and> t \<le> now \<and> now < t' \<and> res = Inr () then 1 else 0)
     + let_through opts policy key t t' qs st'"
  using assms by (auto simp: let_through_def)

lemma billed_hits_Cons:
  "billed_hits opts ((now, ctx, r) # qs) =
     (case billed opts ctx r of None \<Rightarrow> [] | Some (policy, key) \<Rightarrow> [(now, key)]) @ billed_hits opts qs"
  by (simp add: billed_hits_def)

lemma billed_hits_times: "set (map fst (billed_hits opts qs)) \<subseteq> set (map fst qs)"
  by (force simp: billed_hits_def split: option.splits)

lemma billed_hits_sorted: "sorted (map fst qs) \<Longrightarrow> sorted (map fst (billed_hits opts qs))"
proof (induction qs)
  case (Cons q qs)
  obtain now ctx r where q: "q = (now, ctx, r)" by (metis surj_pair)
  have "\<forall>x \<in> set (map fst (billed_hits opts qs)). now \<le> x"
  proof
    fix x assume "x \<in> set (map fst (billed_hits opts qs))"
    with billed_hits_times have "x \<in> set (map fst qs)" by blast
    with Cons.prems q show "now \<le> x" by auto
  qed
  with Cons q show ?case by (simp add: billed_hits_Cons split: option.splits)
qed (simp add: billed_hits_def)

text \<open>What the guard lets through, against a store that \<open>consume\<close> describes.\<close>

context window_counter begin

lemma let_through_passed:
  assumes call: "\<And>k now s. \<exists>c. store_consume None k len now (store s) = (store (fst (consume k now s)), Inr c) \<and>
                   totalHits c = of_nat (snd (consume k now s))"
    and len: "len = nat (windowMs opts)"
  shows "let_through opts policy key t t' qs (store s) \<le> passed key (nat (policy_limit opts policy)) t t' (billed_hits opts qs) s"
proof (induction qs arbitrary: s)
  case (Cons q qs)
  obtain now ctx r where q: "q = (now, ctx, r)" by (metis surj_pair)
  show ?case
  proof (cases "billed opts ctx r")
    case None
    then have "RateLimitGuard_canActivate opts ctx None now r (store s) = (store s, [], Inr ())"
      by (simp add: RateLimitGuard_canActivate_def)
    with Cons None show ?thesis by (simp add: q let_through_Cons billed_hits_Cons)
  next
    case (Some pk)
    obtain p k where pk: "pk = (p, k)" by fastforce
    obtain s' n where h: "consume k now s = (s', n)" by fastforce
    with call [of k now s] obtain c where c: "store_consume None k (nat (windowMs opts)) now (store s) = (store s', Inr c)"
      "totalHits c = of_nat n" by (metis fst_conv snd_conv len)
    from guard_verdict [OF Some [unfolded pk] c] obtain hs res where
      g: "RateLimitGuard_canActivate opts ctx None now r (store s) = (store s', hs, res)"
      "res = Inr () \<longleftrightarrow> n \<le> nat (policy_limit opts p)" by blast
    show ?thesis
      using Cons [of s'] passed_Cons [OF h, of key "nat (policy_limit opts policy)" t t' "billed_hits opts qs"] g(2)
      by (auto simp: q let_through_Cons [OF g(1)] billed_hits_Cons Some pk)
  qed
qed (simp add: let_through_def)

lemma let_through_bounded:
  assumes "\<And>k now s. \<exists>c. store_consume None k len now (store s) = (store (fst (consume k now s)), Inr c) \<and>
                   totalHits c = of_nat (snd (consume k now s))"
    and "len = nat (windowMs opts)" and "0 < windowMs opts" and "sorted (map fst qs)"
  shows "let_through opts policy key t (t + nat (windowMs opts)) qs (store s) \<le> 2 * nat (policy_limit opts policy)"
  using let_through_passed [OF assms(1,2)] passed_bounded [OF _ billed_hits_sorted [OF assms(4)]] assms(2,3)
  by (metis le_trans zero_less_nat_eq)

end


section \<open>Fail open, and the routes in capitals\<close>

text \<open>A store that does not answer lets every request pass.\<close>

lemma rate_limit_fails_open:
  "RateLimitGuard_canActivate opts ctx (Some m) now r (RedisStore ws) = (RedisStore ws, [], Inr ())"
  by (simp add: RateLimitGuard_canActivate_def store_consume_def redis_consume_def split: option.splits)

definition rate_request :: "string \<Rightarrow> request" where
  "rate_request path =
     \<lparr>rq_method = ''POST'', rq_path = path, rq_url = path, rq_headers = [], rq_ip = None, rq_api_key = None, rq_tenant = Some ''acme''\<rparr>"

definition demo_limits :: rate_options where "demo_limits = \<lparr>windowMs = 60000, defaultLimit = 300, writeLimit = 2\<rparr>"

definition plain_context :: rate_context where "plain_context = \<lparr>rc_http = True, rc_skip = False, rc_policy = None\<rparr>"

text \<open>
  Routes are matched without regard to case, the table of write routes is not: the same route with a capital
  letter is billed against the general budget.
\<close>

lemma capital_route_evades_write_budget:
  "billed demo_limits plain_context (rate_request ''/api/v1/feeds/validate'')
     = Some (WritePolicy, ''feedpulse:ratelimit:write:tenant:acme'')"
  "billed demo_limits plain_context (rate_request ''/api/V1/feeds/validate'')
     = Some (DefaultPolicy, ''feedpulse:ratelimit:default:tenant:acme'')"
  by code_simp+


end
