(* ===== verification/Sql_Like.thy ===== *)
theory Sql_Like imports FP_Prelude begin

text \<open>
  The pattern language of PostgreSQL's \<open>LIKE\<close> and \<open>ILIKE\<close>, on lists of code points: \<open>%\<close> stands for any
  sequence, \<open>_\<close> for any character, a backslash takes the next character literally. The repositories
  build their patterns from texts of the caller without escaping. The case folding of \<open>ILIKE\<close>
  (\<open>lower\<close>) is the argument \<open>lc\<close>.
  Lemmas: what a pattern means when the text holds no special character, and what it means when it does.
\<close>


function (sequential) sql_like :: "nat list \<Rightarrow> nat list \<Rightarrow> bool" where
  "sql_like [] s = (s = [])"
| "sql_like (p # ps) s =
     (if p = 37 then sql_like ps s \<or> (case s of [] \<Rightarrow> False | _ # t \<Rightarrow> sql_like (p # ps) t)
      else if p = 95 then (case s of [] \<Rightarrow> False | _ # t \<Rightarrow> sql_like ps t)
      else if p = 92 then (case (ps, s) of (q # qs, c # t) \<Rightarrow> c = q \<and> sql_like qs t | _ \<Rightarrow> False)
      else (case s of [] \<Rightarrow> False | c # t \<Rightarrow> c = p \<and> sql_like ps t))"
  by pat_completeness auto
termination by (relation "measures [\<lambda>(p, s). length s, \<lambda>(p, s). length p]") auto

declare sql_like.simps(2) [simp del]

definition sql_ilike :: "(nat \<Rightarrow> nat) \<Rightarrow> nat list \<Rightarrow> nat list \<Rightarrow> bool" where
  "sql_ilike lc s p = sql_like (map lc p) (map lc s)"

text \<open>\<open>`%${text}%`\<close>\<close>

definition contains_pattern :: "nat list \<Rightarrow> nat list" where
  "contains_pattern body = [37] @ body @ [37]"

text \<open>No special character of the pattern language.\<close>

definition plain :: "nat list \<Rightarrow> bool" where
  "plain body \<longleftrightarrow> set body \<inter> {37, 95, 92} = {}"

lemma plain_simps [simp]:
  "plain []" "plain (c # body) \<longleftrightarrow> c \<noteq> 37 \<and> c \<noteq> 95 \<and> c \<noteq> 92 \<and> plain body"
  by (auto simp: plain_def)

lemma sql_like_any: "sql_like [37] s"
  by (induction s) (simp_all add: sql_like.simps(2))

lemma sql_like_plain: "plain body \<Longrightarrow> sql_like (body @ ps) s \<longleftrightarrow> (\<exists>t. s = body @ t \<and> sql_like ps t)"
proof (induction body arbitrary: s)
  case (Cons c body)
  then show ?case by (cases s) (auto simp: sql_like.simps(2))
qed simp

lemma sql_like_prefix: "plain body \<Longrightarrow> sql_like (body @ [37]) s \<longleftrightarrow> prefix body s"
  by (auto simp: sql_like_plain sql_like_any prefix_def)

lemma sql_like_leading: "sql_like (37 # ps) s \<longleftrightarrow> (\<exists>u t. s = u @ t \<and> sql_like ps t)"
proof (induction s)
  case (Cons c s)
  have "sql_like (37 # ps) (c # s) \<longleftrightarrow> sql_like ps (c # s) \<or> sql_like (37 # ps) s"
    by (simp add: sql_like.simps(2))
  also have "\<dots> \<longleftrightarrow> (\<exists>u t. c # s = u @ t \<and> sql_like ps t)"
    unfolding Cons.IH by (auto simp: Cons_eq_append_conv)
  finally show ?case .
qed (simp add: sql_like.simps(2))

lemma sql_like_contains: "plain body \<Longrightarrow> sql_like (contains_pattern body) s \<longleftrightarrow> sublist body s"
  by (auto simp: contains_pattern_def sql_like_leading sql_like_prefix sublist_def prefix_def)

text \<open>A text with a wildcard does not search for itself: \<open>%\<close> finds everything, \<open>_\<close> everything not empty.\<close>

lemma sql_like_pctI: "sql_like ps s \<Longrightarrow> sql_like (37 # ps) s"
  by (subst sql_like.simps(2)) simp

lemma contains_percent: "sql_like (contains_pattern [37]) s"
  unfolding contains_pattern_def append.simps by (intro sql_like_pctI sql_like_any)

lemma contains_underscore: "sql_like (contains_pattern [95]) s \<longleftrightarrow> s \<noteq> []"
proof
  assume "sql_like (contains_pattern [95]) s"
  then show "s \<noteq> []" by (auto simp: contains_pattern_def sql_like_leading sql_like.simps(2))
next
  assume "s \<noteq> []"
  then obtain c t where "s = [] @ c # t" by (cases s) auto
  moreover have "sql_like [95, 37] (c # t)" by (subst sql_like.simps(2)) (simp add: sql_like_any)
  ultimately show "sql_like (contains_pattern [95]) s"
    unfolding contains_pattern_def sql_like_leading append.simps by blast
qed

end
