(* ===== verification/Canonical_Link.thy ===== *)
theory Canonical_Link imports Url_Safety "HOL-Library.Multiset" begin

text \<open>
  Canonical links: the alert dedupe key of \<open>src/modules/alerts/domain/canonical-article-link.ts\<close>
  and the feed URL normal form of \<open>src/modules/opml-imports/domain/url-normalizer.ts\<close>.
  Both take the WHATWG parser as the parameter \<open>parseURL\<close>; SHA-256 is the parameter \<open>sha256\<close>.
  Theorems: which links share a dedupe key (tracking parameters, parameter order and the two
  spellings of a space are ignored, nothing else is merged), stability of the key, the errors of
  the feed URL normaliser and the shape of what it returns.
\<close>

section \<open>Query strings\<close>

definition TRACKING_PARAM_DENYLIST :: "string set" where
  "TRACKING_PARAM_DENYLIST =
     {''fbclid'', ''gclid'', ''mc_cid'', ''mc_eid'', ''ref'', ''ref_src'', ''at_medium'', ''at_campaign'',
      ''__twitter_impression''}"

definition isTrackingParam :: "string \<Rightarrow> bool" where
  "isTrackingParam name =
     (let lowerName = js_lower name in prefix ''utm_'' lowerName \<or> lowerName \<in> TRACKING_PARAM_DENYLIST)"

text \<open>\<open>QUERY_ESCAPES\<close> has the one entry \<open>'+': '%20'\<close>.\<close>

definition apply_query_escapes :: "string \<Rightarrow> string" where
  "apply_query_escapes pair = js_replace_char (CHR ''+'') ''%20'' pair"

definition rawQueryOf :: "string \<Rightarrow> string" where
  "rawQueryOf v =
     (let withoutFragment = takeWhile (\<lambda>c. c \<noteq> CHR ''#'') v
      in if CHR ''?'' \<notin> set withoutFragment then ''''
         else tl (dropWhile (\<lambda>c. c \<noteq> CHR ''?'') withoutFragment))"

definition keep_pair :: "string \<Rightarrow> bool" where
  "keep_pair pair \<longleftrightarrow> pair \<noteq> '''' \<and> \<not> isTrackingParam (takeWhile (\<lambda>c. c \<noteq> CHR ''='') pair)"

definition canonicalizeQuery :: "string \<Rightarrow> string" where
  "canonicalizeQuery rawQuery =
     (if rawQuery = '''' then ''''
      else js_join ''&'' (sort (map apply_query_escapes (filter keep_pair (js_split (CHR ''&'') rawQuery)))))"

section \<open>Paths, ports, links without a parser\<close>

definition normalizePath :: "string \<Rightarrow> string" where
  "normalizePath p =
     (let collapsed = collapse_runs (CHR ''/'') p
      in if collapsed = ''/'' then ''/'' else drop_end (\<lambda>c. c = CHR ''/'') collapsed)"

definition drop_suffix :: "string \<Rightarrow> string \<Rightarrow> string" where
  "drop_suffix s x = (if suffix s x then take (length x - length s) x else x)"

definition stripDefaultPort :: "string \<Rightarrow> string \<Rightarrow> string" where
  "stripDefaultPort scheme authority =
     (if scheme = ''http://'' then drop_suffix '':80'' authority
      else if scheme = ''https://'' then drop_suffix '':443'' authority
      else authority)"

definition is_letter :: "char \<Rightarrow> bool" where
  "is_letter c \<longleftrightarrow> 97 \<le> (of_char (js_lower_char c) :: nat) \<and> (of_char (js_lower_char c) :: nat) \<le> 122"

definition scheme_char :: "char \<Rightarrow> bool" where
  "scheme_char c \<longleftrightarrow> is_letter c \<or> is_digit c \<or> c = CHR ''+'' \<or> c = CHR ''.'' \<or> c = CHR ''-''"

text \<open>\<open>/^[a-z][a-z0-9+.-]*:\/\//i.exec(s)\<close>: the matched text.\<close>

definition match_scheme :: "string \<Rightarrow> string option" where
  "match_scheme s =
     (case s of
        [] \<Rightarrow> None
      | c # r \<Rightarrow>
          (let name = c # takeWhile scheme_char r
           in if is_letter c \<and> prefix ''://'' (drop (length name) s) then Some (name @ ''://'') else None))"

definition canonicalizeWithoutParser :: "string \<Rightarrow> string option" where
  "canonicalizeWithoutParser v =
     (let withoutFragment = js_trim (takeWhile (\<lambda>c. c \<noteq> CHR ''#'') v) in
      if withoutFragment = '''' then None
      else
        (let beforeQuery = takeWhile (\<lambda>c. c \<noteq> CHR ''?'') withoutFragment;
             rawQuery = rawQueryOf withoutFragment;
             schemeMatch = match_scheme beforeQuery;
             scheme = (case schemeMatch of Some m \<Rightarrow> js_lower m | None \<Rightarrow> '''');
             remainder = (case schemeMatch of Some m \<Rightarrow> drop (length m) beforeQuery | None \<Rightarrow> beforeQuery);
             authority = stripDefaultPort scheme (js_lower (takeWhile (\<lambda>c. c \<noteq> CHR ''/'') remainder));
             path = (let p = dropWhile (\<lambda>c. c \<noteq> CHR ''/'') remainder
                     in if p = '''' then '''' else normalizePath p);
             query = canonicalizeQuery rawQuery;
             base = scheme @ authority @ path;
             canonical = (if query \<noteq> '''' then base @ CHR ''?'' # query else base)
         in if canonical = '''' then None else Some canonical))"

section \<open>The dedupe key\<close>

definition default_port_dropped :: "url \<Rightarrow> url" where
  "default_port_dropped u =
     (if (protocol u = ''http:'' \<and> port u = ''80'') \<or> (protocol u = ''https:'' \<and> port u = ''443'')
      then clear_port u else u)"

text \<open>The parsed URL after the assignments of the \<open>try\<close> block, printed without its query.\<close>

definition link_base :: "url \<Rightarrow> string" where
  "link_base parsed =
     (let p1 = parsed\<lparr>fragment := ''''\<rparr>;
          p2 = set_hostname p1 (js_lower (hostname p1));
          p3 = default_port_dropped p2;
          p4 = set_pathname p3 (normalizePath (pathname p3));
          p5 = p4\<lparr>search := ''''\<rparr>
      in href p5)"

definition with_query :: "string \<Rightarrow> string \<Rightarrow> string" where
  "with_query base query = (if query \<noteq> '''' then base @ CHR ''?'' # query else base)"

definition canonicalizeArticleLink :: "(string \<Rightarrow> url option) \<Rightarrow> string option \<Rightarrow> string option" where
  "canonicalizeArticleLink parseURL link =
     (case link of
        None \<Rightarrow> None
      | Some l \<Rightarrow>
          (let trimmed = js_trim l in
           if trimmed = '''' then None
           else (case parseURL trimmed of
                   Some parsed \<Rightarrow> Some (with_query (link_base parsed) (canonicalizeQuery (rawQueryOf trimmed)))
                 | None \<Rightarrow> canonicalizeWithoutParser trimmed)))"

section \<open>Feed URLs\<close>

datatype feed_url_error =
  feed_url_empty | feed_url_invalid | feed_url_protocol_not_supported | feed_url_host_not_allowed

definition normalizeFeedUrl ::
  "(string \<Rightarrow> url option) \<Rightarrow> (string \<Rightarrow> string option) \<Rightarrow> bool option \<Rightarrow> string \<Rightarrow> feed_url_error + string" where
  "normalizeFeedUrl parseURL env allowOption input =
     (let trimmed = js_trim input in
      if trimmed = '''' then Inl feed_url_empty
      else (case parseURL trimmed of
              None \<Rightarrow> Inl feed_url_invalid
            | Some parsed \<Rightarrow>
                (let proto = js_lower (protocol parsed) in
                 if proto \<noteq> ''http:'' \<and> proto \<noteq> ''https:'' then Inl feed_url_protocol_not_supported
                 else
                   (let allowPrivateHosts = opt_else allowOption (privateFeedHostsAllowedByEnv env) in
                    if \<not> isSafePublicUrl parseURL allowPrivateHosts (UrlObject parsed)
                    then Inl feed_url_host_not_allowed
                    else
                      (let p1 = parsed\<lparr>protocol := proto\<rparr>;
                           p2 = set_hostname p1 (js_lower (hostname p1));
                           p3 = default_port_dropped p2;
                           p4 = set_pathname p3 (normalizePath (pathname p3));
                           p5 = p4\<lparr>fragment := ''''\<rparr>
                       in Inr (href p5))))))"

definition buildNormalizedFeedUrlHash :: "(string \<Rightarrow> string) \<Rightarrow> string \<Rightarrow> string" where
  "buildNormalizedFeedUrlHash sha256 normalizedUrl = sha256 normalizedUrl"

section \<open>Facts about queries\<close>

definition kept_pairs :: "string \<Rightarrow> string list" where
  "kept_pairs q = map apply_query_escapes (filter keep_pair (js_split (CHR ''&'') q))"

lemma canonicalizeQuery_kept: "canonicalizeQuery q = js_join ''&'' (sort (kept_pairs q))"
  by (cases q) (simp_all add: canonicalizeQuery_def kept_pairs_def keep_pair_def)

lemma apply_query_escapes_Nil_iff [simp]: "apply_query_escapes p = '''' \<longleftrightarrow> p = ''''"
  by (cases p) (auto simp: apply_query_escapes_def js_simps)

lemma apply_query_escapes_idem [simp]: "apply_query_escapes (apply_query_escapes p) = apply_query_escapes p"
  unfolding apply_query_escapes_def by (rule js_replace_char_id) (rule js_replace_char_gone, simp)

lemma apply_query_escapes_id: "CHR ''+'' \<notin> set p \<Longrightarrow> apply_query_escapes p = p"
  by (simp add: apply_query_escapes_def js_replace_char_id)

lemma kept_pairs_no_sep: "p \<in> set (kept_pairs q) \<Longrightarrow> CHR ''&'' \<notin> set p \<and> p \<noteq> '''' \<and> CHR ''+'' \<notin> set p"
proof -
  assume "p \<in> set (kept_pairs q)"
  then obtain r where r: "p = apply_query_escapes r" "keep_pair r" "r \<in> set (js_split (CHR ''&'') q)"
    by (auto simp: kept_pairs_def)
  have "CHR ''&'' \<notin> set r" using r(3) by (rule js_split_pieces)
  then have "CHR ''&'' \<notin> set p"
    using js_replace_char_set [of "CHR ''+''" "''%20''" r] by (auto simp: r(1) apply_query_escapes_def)
  moreover have "CHR ''+'' \<notin> set p"
    unfolding r(1) apply_query_escapes_def by (rule js_replace_char_gone) simp
  ultimately show ?thesis using r by (auto simp: keep_pair_def)
qed

lemma split_canonicalizeQuery:
  "kept_pairs q \<noteq> [] \<Longrightarrow> js_split (CHR ''&'') (canonicalizeQuery q) = sort (kept_pairs q)"
  unfolding canonicalizeQuery_kept
  by (rule js_split_join) (use kept_pairs_no_sep in \<open>auto simp flip: length_greater_0_conv\<close>)

lemma canonicalizeQuery_Nil_iff: "canonicalizeQuery q = '''' \<longleftrightarrow> kept_pairs q = []"
proof
  assume e: "canonicalizeQuery q = ''''"
  show "kept_pairs q = []"
  proof (rule ccontr)
    assume k: "kept_pairs q \<noteq> []"
    from split_canonicalizeQuery [OF this] e have "sort (kept_pairs q) = [''''] " by simp
    then have "'''' \<in> set (kept_pairs q)" by (metis list.set_intros(1) set_sort)
    then show False using kept_pairs_no_sep by blast
  qed
qed (simp add: canonicalizeQuery_kept)

lemma canonicalizeQuery_eq_iff:
  "canonicalizeQuery q1 = canonicalizeQuery q2 \<longleftrightarrow> mset (kept_pairs q1) = mset (kept_pairs q2)"
proof
  assume e: "canonicalizeQuery q1 = canonicalizeQuery q2"
  show "mset (kept_pairs q1) = mset (kept_pairs q2)"
  proof (cases "kept_pairs q1 = []")
    case True
    then have "canonicalizeQuery q1 = ''''" by (simp add: canonicalizeQuery_Nil_iff)
    then have "kept_pairs q2 = []" using e canonicalizeQuery_Nil_iff by metis
    with True show ?thesis by simp
  next
    case False
    then have "kept_pairs q2 \<noteq> []" using e canonicalizeQuery_Nil_iff by metis
    with False e split_canonicalizeQuery have "sort (kept_pairs q1) = sort (kept_pairs q2)" by metis
    then show ?thesis by (metis mset_sort)
  qed
next
  assume "mset (kept_pairs q1) = mset (kept_pairs q2)"
  then have "sort (kept_pairs q1) = sort (kept_pairs q2)"
    by (metis properties_for_sort mset_sort sorted_sort)
  then show "canonicalizeQuery q1 = canonicalizeQuery q2" by (simp add: canonicalizeQuery_kept)
qed

lemma prefix_lower_escapes:
  "prefix p (js_lower (apply_query_escapes s)) \<Longrightarrow> CHR ''%'' \<notin> set p \<Longrightarrow> prefix p (js_lower s)"
proof (induction p arbitrary: s)
  case (Cons x p)
  then show ?case
    by (cases s) (auto simp: apply_query_escapes_def js_simps js_lower_def js_lower_char_def split: if_splits)
qed simp

lemma takeWhile_name_escapes:
  "takeWhile (\<lambda>c. c \<noteq> CHR ''='') (apply_query_escapes p) = apply_query_escapes (takeWhile (\<lambda>c. c \<noteq> CHR ''='') p)"
  by (induction p) (auto simp: apply_query_escapes_def js_simps)

lemma isTrackingParam_escapes: "isTrackingParam (apply_query_escapes n) \<Longrightarrow> isTrackingParam n"
proof (cases "CHR ''+'' \<in> set n")
  case False
  then show "isTrackingParam (apply_query_escapes n) \<Longrightarrow> isTrackingParam n"
    by (simp add: apply_query_escapes_id)
next
  case True
  assume t: "isTrackingParam (apply_query_escapes n)"
  have "CHR ''%'' \<in> set (apply_query_escapes n)"
    using True by (auto simp: apply_query_escapes_def js_replace_char_def)
  then have "CHR ''%'' \<in> set (js_lower (apply_query_escapes n))"
    by (force simp: js_lower_def js_lower_char_def image_iff)
  then have "js_lower (apply_query_escapes n) \<notin> TRACKING_PARAM_DENYLIST"
    by (auto simp: TRACKING_PARAM_DENYLIST_def)
  with t have "prefix ''utm_'' (js_lower (apply_query_escapes n))"
    by (simp add: isTrackingParam_def Let_def)
  then have "prefix ''utm_'' (js_lower n)" by (rule prefix_lower_escapes) simp
  then show ?thesis by (simp add: isTrackingParam_def Let_def)
qed

lemma keep_pair_escapes: "keep_pair p \<Longrightarrow> keep_pair (apply_query_escapes p)"
  using isTrackingParam_escapes by (auto simp: keep_pair_def takeWhile_name_escapes)

lemma kept_pairs_canonical: "kept_pairs (canonicalizeQuery q) = sort (kept_pairs q)"
proof (cases "kept_pairs q = []")
  case True
  then show ?thesis
    by (simp add: canonicalizeQuery_kept) (simp add: kept_pairs_def keep_pair_def)
next
  case False
  have "\<forall>p \<in> set (sort (kept_pairs q)). keep_pair p \<and> apply_query_escapes p = p"
    by (auto simp: kept_pairs_def keep_pair_escapes)
  then have "filter keep_pair (sort (kept_pairs q)) = sort (kept_pairs q)"
    and "map apply_query_escapes (sort (kept_pairs q)) = sort (kept_pairs q)"
    by (simp, intro map_idI, simp)
  then show ?thesis
    unfolding kept_pairs_def [of "canonicalizeQuery q"] split_canonicalizeQuery [OF False] by simp
qed

lemma default_port_dropped_sel [simp]:
  "protocol (default_port_dropped u) = protocol u" "hostname (default_port_dropped u) = hostname u"
  "pathname (default_port_dropped u) = pathname u" "opaque (default_port_dropped u) = opaque u"
  "fragment (default_port_dropped u) = fragment u"
  by (simp_all add: default_port_dropped_def clear_port_def)

lemma default_port_dropped_port:
  "\<not> (protocol u = ''http:'' \<and> port (default_port_dropped u) = ''80'')
   \<and> \<not> (protocol u = ''https:'' \<and> port (default_port_dropped u) = ''443'')"
  by (simp add: default_port_dropped_def clear_port_def)

section \<open>Properties\<close>

text \<open>
  C5: The dedupe key of two links the parser accepts is the same exactly when their bases (scheme,
  user info, lower-cased host, non-default port, normalised path) are the same and their queries have
  the same parameters after dropping the tracking ones and reading \<open>+\<close> as \<open>%20\<close>, counted with
  multiplicity and in any order. So nothing else is merged: \<open>?page=2\<close> and \<open>?page=3\<close> stay apart.
  A printed base holds no question mark, as the parser percent-encodes it in every component.
\<close>

theorem canonical_link_same_iff:
  assumes "parseURL (js_trim l1) = Some u1" "parseURL (js_trim l2) = Some u2"
    and "js_trim l1 \<noteq> ''''" "js_trim l2 \<noteq> ''''"
    and "CHR ''?'' \<notin> set (link_base u1)" "CHR ''?'' \<notin> set (link_base u2)"
  shows "canonicalizeArticleLink parseURL (Some l1) = canonicalizeArticleLink parseURL (Some l2) \<longleftrightarrow>
     link_base u1 = link_base u2 \<and>
     mset (kept_pairs (rawQueryOf (js_trim l1))) = mset (kept_pairs (rawQueryOf (js_trim l2)))"
proof -
  have inj: "with_query b1 q1 = with_query b2 q2 \<longleftrightarrow> b1 = b2 \<and> q1 = q2"
    if "CHR ''?'' \<notin> set b1" "CHR ''?'' \<notin> set b2" for b1 b2 q1 q2
  proof
    assume e: "with_query b1 q1 = with_query b2 q2"
    have tw: "takeWhile (\<lambda>c. c \<noteq> CHR ''?'') (with_query b q) = b"
      "drop (length b) (with_query b q) = (if q = '''' then '''' else CHR ''?'' # q)"
      if "CHR ''?'' \<notin> set b" for b q
      using that by (auto simp: with_query_def takeWhile_append takeWhile_eq_all_conv)
    have b: "b1 = b2" using tw(1) [OF that(1), of q1] tw(1) [OF that(2), of q2] e by metis
    have "(if q1 = '''' then '''' else CHR ''?'' # q1) = (if q2 = '''' then '''' else CHR ''?'' # q2)"
      using tw(2) [OF that(1), of q1] tw(2) [OF that(2), of q2] e b by metis
    then show "b1 = b2 \<and> q1 = q2" using b by (simp split: if_splits)
  qed simp
  show ?thesis
    using assms inj [OF assms(5,6)]
    by (simp add: canonicalizeArticleLink_def Let_def canonicalizeQuery_eq_iff)
qed

text \<open>
  The query part of a dedupe key is stable: canonicalising it again changes nothing, whatever
  query it was computed from. A row back-filled from a stored key collides with a fresh one.
\<close>

theorem canonicalizeQuery_stable: "canonicalizeQuery (canonicalizeQuery q) = canonicalizeQuery q"
proof -
  have "canonicalizeQuery (canonicalizeQuery q) = js_join ''&'' (sort (sort (kept_pairs q)))"
    by (simp only: canonicalizeQuery_kept [of "canonicalizeQuery q"] kept_pairs_canonical)
  then show ?thesis by (simp add: canonicalizeQuery_kept [of q] sorted_sort_id)
qed

definition news_parser :: "string \<Rightarrow> url option" where
  "news_parser s =
     (if prefix ''http://N.example/a//b/'' s
      then Some (sample_url ''http:'' ''n.example'' \<lparr>pathname := ''/a//b/'', port := ''80''\<rparr>) else None)"

lemma canonical_link_same_iff_witness:
  "canonicalizeArticleLink news_parser (Some '' http://N.example/a//b/?utm_source=x&id=1+2&page=2'')
     = canonicalizeArticleLink news_parser (Some ''http://N.example/a//b/?page=2&id=1%202#top'')
   \<and> canonicalizeArticleLink news_parser (Some ''http://N.example/a//b/?page=2'')
     \<noteq> canonicalizeArticleLink news_parser (Some ''http://N.example/a//b/?page=3'')"
proof -
  let ?u = "sample_url ''http:'' ''n.example'' \<lparr>pathname := ''/a//b/'', port := ''80''\<rparr>"
  have base: "CHR ''?'' \<notin> set (link_base ?u)" by code_simp
  have k: "kept_pairs (rawQueryOf (js_trim '' http://N.example/a//b/?utm_source=x&id=1+2&page=2'')) = [''id=1%202'', ''page=2'']"
    "kept_pairs (rawQueryOf (js_trim ''http://N.example/a//b/?page=2&id=1%202#top'')) = [''page=2'', ''id=1%202'']"
    "kept_pairs (rawQueryOf (js_trim ''http://N.example/a//b/?page=2'')) = [''page=2'']"
    "kept_pairs (rawQueryOf (js_trim ''http://N.example/a//b/?page=3'')) = [''page=3'']"
    by code_simp+
  have p: "news_parser (js_trim '' http://N.example/a//b/?utm_source=x&id=1+2&page=2'') = Some ?u"
    "news_parser (js_trim ''http://N.example/a//b/?page=2&id=1%202#top'') = Some ?u"
    "news_parser (js_trim ''http://N.example/a//b/?page=2'') = Some ?u"
    "news_parser (js_trim ''http://N.example/a//b/?page=3'') = Some ?u"
    "js_trim '' http://N.example/a//b/?utm_source=x&id=1+2&page=2'' \<noteq> ''''"
    "js_trim ''http://N.example/a//b/?page=2&id=1%202#top'' \<noteq> ''''"
    "js_trim ''http://N.example/a//b/?page=2'' \<noteq> ''''"
    "js_trim ''http://N.example/a//b/?page=3'' \<noteq> ''''"
    by code_simp+
  show ?thesis
    using canonical_link_same_iff [OF p(1) p(2) p(5) p(6) base base]
      canonical_link_same_iff [OF p(3) p(4) p(7) p(8) base base]
    by (simp add: k)
qed

text \<open>
  The feed URL normaliser: whenever it returns, the URL parsed from the trimmed input is http(s),
  passed the SSRF guard, and the result prints it with a lower-cased host, no fragment, no default
  port and a path with no double slash that ends in a slash only if it is \<open>/\<close> itself.
\<close>

theorem normalizeFeedUrl_result:
  assumes "normalizeFeedUrl parseURL env allowOption input = Inr s"
  shows "\<exists>parsed v. parseURL (js_trim input) = Some parsed
     \<and> isSafePublicUrl parseURL (opt_else allowOption (privateFeedHostsAllowedByEnv env)) (UrlObject parsed)
     \<and> s = href v \<and> protocol v \<in> {''http:'', ''https:''} \<and> fragment v = ''''
     \<and> (hostless parsed \<or> hostname v = js_lower (hostname parsed))
     \<and> \<not> (protocol v = ''http:'' \<and> port v = ''80'') \<and> \<not> (protocol v = ''https:'' \<and> port v = ''443'')
     \<and> (opaque parsed \<or> pathname v = normalizePath (pathname parsed))"
proof -
  from assms obtain parsed where p: "parseURL (js_trim input) = Some parsed"
    and proto: "js_lower (protocol parsed) \<in> {''http:'', ''https:''}"
    and safe: "isSafePublicUrl parseURL (opt_else allowOption (privateFeedHostsAllowedByEnv env)) (UrlObject parsed)"
    by (auto simp: normalizeFeedUrl_def Let_def split: if_splits option.splits)
  define w where "w = set_hostname (parsed\<lparr>protocol := js_lower (protocol parsed)\<rparr>) (js_lower (hostname parsed))"
  have w: "protocol w = js_lower (protocol parsed)" "hostless parsed \<or> hostname w = js_lower (hostname parsed)"
    "opaque w = opaque parsed" "pathname w = pathname parsed"
    by (simp_all add: w_def set_hostname_def)
  define v where "v = (set_pathname (default_port_dropped (set_hostname (parsed\<lparr>protocol := js_lower (protocol parsed)\<rparr>)
      (js_lower (hostname parsed)))) (normalizePath (pathname parsed)))\<lparr>fragment := ''''\<rparr>"
  have "s = href v"
    using assms p proto safe
    by (auto simp: normalizeFeedUrl_def Let_def v_def set_hostname_def default_port_dropped_def clear_port_def
        split: if_splits)
  moreover have "protocol v = protocol w" "hostname v = hostname w" "fragment v = ''''"
    "opaque parsed \<or> pathname v = normalizePath (pathname parsed)"
    "port v = port (default_port_dropped w)"
    using w by (simp_all add: v_def set_pathname_def flip: w_def)
  moreover note default_port_dropped_port [of w]
  ultimately show ?thesis
    using p proto safe w by (intro exI [of _ parsed] exI [of _ v]) simp
qed

lemma normalizeFeedUrl_result_witness:
  "normalizeFeedUrl news_parser (\<lambda>_. None) None ''http://N.example/a//b/'' = Inr ''http://n.example/a/b''
   \<and> (\<exists>v. ''http://n.example/a/b'' = href v \<and> fragment v = '''')"
proof -
  have run: "normalizeFeedUrl news_parser (\<lambda>_. None) None ''http://N.example/a//b/'' = Inr ''http://n.example/a/b''"
    by code_simp
  from normalizeFeedUrl_result [OF run] run show ?thesis by blast
qed

end
