(* ===== verification/Keyword_Match.thy ===== *)
theory Keyword_Match imports FP_Prelude begin

text \<open>
  Search text and keyword rules: \<open>src/shared/text/normalize-search-text.ts\<close> and
  \<open>src/modules/ingestion/domain/keyword-match.ts\<close>.
  Free text is a list of Unicode code points. The Unicode tables of the JavaScript engine (NFD,
  lower-casing, the classes L and N) are the record \<open>unicode\<close>, a parameter of every definition.
  The module-level memo of compiled patterns is an explicit cache, threaded through every call.
  The locale \<open>memoized\<close> is the contract of such a cache; \<open>phrasePattern\<close> provides it.
  Theorems: a keyword matches exactly at whole-word occurrences, whatever the cache holds; the meaning
  of a rule; the bound of the cache; escaping a phrase loses nothing.
\<close>

type_synonym ustr = "nat list"

record unicode =
  nfd :: "ustr \<Rightarrow> ustr"
  lower_case :: "ustr \<Rightarrow> ustr"
  letter_or_digit :: "nat \<Rightarrow> bool"

section \<open>Search text\<close>

text \<open>The code points of \<open>\s\<close> and of \<open>trim\<close>.\<close>

definition js_space :: "nat \<Rightarrow> bool" where
  "js_space c \<longleftrightarrow>
     c \<in> {9, 10, 11, 12, 13, 32, 160, 0x1680, 0x2028, 0x2029, 0x202F, 0x205F, 0x3000, 0xFEFF}
     \<or> (0x2000 \<le> c \<and> c \<le> 0x200A)"

definition combining_mark :: "nat \<Rightarrow> bool" where
  "combining_mark c \<longleftrightarrow> 0x300 \<le> c \<and> c \<le> 0x36F"

text \<open>\<open>replace(/\s+/gu, ' ')\<close>; the flag says that the last code point read was white space.\<close>

fun squash :: "bool \<Rightarrow> ustr \<Rightarrow> ustr" where
  "squash in_run [] = []"
| "squash in_run (c # cs) =
     (if js_space c then (if in_run then squash True cs else 32 # squash True cs)
      else c # squash False cs)"

definition utrim :: "ustr \<Rightarrow> ustr" where
  "utrim s = drop_end js_space (dropWhile js_space s)"

definition normalizeSearchText :: "unicode \<Rightarrow> ustr \<Rightarrow> ustr" where
  "normalizeSearchText U v =
     utrim (squash False (lower_case U (filter (\<lambda>c. \<not> combining_mark c) (nfd U v))))"

section \<open>Patterns\<close>

definition syntax_chars :: "nat list" where
  "syntax_chars = 92 # map of_char ''.*+?^${}()|[]''"

definition escapeRegExp :: "ustr \<Rightarrow> ustr" where
  "escapeRegExp v = concat (map (\<lambda>c. if c \<in> set syntax_chars then [92, c] else [c]) v)"

text \<open>
  A compiled pattern is the text between its two lookarounds. The expressions built here are
  literals; \<open>literal_of\<close> reads one as the engine does: an escaped syntax character is that
  character, an unescaped one is not a literal.
\<close>

datatype pattern = Pattern ustr

fun literal_of :: "ustr \<Rightarrow> ustr option" where
  "literal_of [] = Some []"
| "literal_of [c] = (if c \<in> set syntax_chars then None else Some [c])"
| "literal_of (c # d # r) =
     (if c = 92 then (if d \<in> set syntax_chars then map_option (Cons d) (literal_of r) else None)
      else if c \<in> set syntax_chars then None
      else map_option (Cons c) (literal_of (d # r)))"

text \<open>
  \<open>(?<![\p{L}\p{N}])literal(?![\p{L}\p{N}])\<close> tried at every position; \<open>prev\<close> is the code point
  before the current one.
\<close>

definition not_word :: "unicode \<Rightarrow> nat option \<Rightarrow> bool" where
  "not_word U c = (case c of None \<Rightarrow> True | Some x \<Rightarrow> \<not> letter_or_digit U x)"

definition first_of :: "'a list \<Rightarrow> 'a option" where
  "first_of xs = (case xs of [] \<Rightarrow> None | x # _ \<Rightarrow> Some x)"

fun scan :: "unicode \<Rightarrow> ustr \<Rightarrow> nat option \<Rightarrow> ustr \<Rightarrow> bool" where
  "scan U lit prev [] = (not_word U prev \<and> lit = [])"
| "scan U lit prev (c # cs) =
     ((not_word U prev \<and> prefix lit (c # cs) \<and> not_word U (first_of (drop (length lit) (c # cs))))
      \<or> scan U lit (Some c) cs)"

fun pattern_test :: "unicode \<Rightarrow> pattern \<Rightarrow> ustr \<Rightarrow> bool" where
  "pattern_test U (Pattern body) haystack =
     (case literal_of body of Some lit \<Rightarrow> scan U lit None haystack | None \<Rightarrow> False)"

text \<open>The memo: a \<open>Map\<close> from normalised phrases to patterns or null, oldest entry first.\<close>

type_synonym pattern_cache = "(ustr \<times> pattern option) list"

definition MAX_COMPILED_PHRASE_PATTERNS :: nat where
  "MAX_COMPILED_PHRASE_PATTERNS = 5000"

definition compile_phrase :: "ustr \<Rightarrow> pattern option" where
  "compile_phrase normalizedPhrase =
     (if normalizedPhrase \<noteq> [] then Some (Pattern (escapeRegExp normalizedPhrase)) else None)"

definition phrasePattern :: "unicode \<Rightarrow> ustr \<Rightarrow> pattern_cache \<Rightarrow> pattern_cache \<times> pattern option" where
  "phrasePattern U keyword cache =
     (let normalizedPhrase = normalizeSearchText U keyword in
      case map_of cache normalizedPhrase of
        Some cached \<Rightarrow> (cache, cached)
      | None \<Rightarrow>
          (let compiled = compile_phrase normalizedPhrase;
               cache' = (if length cache \<ge> MAX_COMPILED_PHRASE_PATTERNS then [] else cache)
           in (cache' @ [(normalizedPhrase, compiled)], compiled)))"

definition keywordMatches :: "unicode \<Rightarrow> ustr \<Rightarrow> ustr \<Rightarrow> pattern_cache \<Rightarrow> pattern_cache \<times> bool" where
  "keywordMatches U normalizedHaystack keyword cache =
     (case phrasePattern U keyword cache of
        (cache', None) \<Rightarrow> (cache', False)
      | (cache', Some p) \<Rightarrow> (cache', pattern_test U p normalizedHaystack))"

section \<open>Rules\<close>

record keyword_rule =
  includeKeywords :: "ustr list"
  excludeKeywords :: "ustr list"

text \<open>\<open>Array.prototype.some\<close> with a callback that changes the cache.\<close>

fun some_m :: "('a \<Rightarrow> 'c \<Rightarrow> 'c \<times> bool) \<Rightarrow> 'a list \<Rightarrow> 'c \<Rightarrow> 'c \<times> bool" where
  "some_m f [] c = (c, False)"
| "some_m f (x # xs) c = (case f x c of (c', b) \<Rightarrow> if b then (c', True) else some_m f xs c')"

definition ruleMatchesNormalizedText ::
  "unicode \<Rightarrow> ustr \<Rightarrow> ('r) keyword_rule_scheme \<Rightarrow> pattern_cache \<Rightarrow> pattern_cache \<times> bool" where
  "ruleMatchesNormalizedText U normalizedHaystack rule cache =
     (case some_m (keywordMatches U normalizedHaystack) (includeKeywords rule) cache of
        (cache1, included) \<Rightarrow>
          if \<not> included then (cache1, False)
          else (case some_m (keywordMatches U normalizedHaystack) (excludeKeywords rule) cache1 of
                  (cache2, excluded) \<Rightarrow> (cache2, \<not> excluded)))"

definition entryMatchesRule ::
  "unicode \<Rightarrow> ustr \<Rightarrow> ('r) keyword_rule_scheme \<Rightarrow> pattern_cache \<Rightarrow> pattern_cache \<times> bool" where
  "entryMatchesRule U body rule cache = ruleMatchesNormalizedText U (normalizeSearchText U body) rule cache"

section \<open>The contract of a memo\<close>

locale memoized =
  fixes step :: "'k \<Rightarrow> 'c \<Rightarrow> 'c \<times> 'v" and value_of :: "'k \<Rightarrow> 'v" and inv :: "'c \<Rightarrow> bool"
  assumes step_value: "inv c \<Longrightarrow> snd (step k c) = value_of k"
    and step_inv: "inv c \<Longrightarrow> inv (fst (step k c))"
begin

lemma some_step:
  assumes "inv c"
  shows "inv (fst (some_m (\<lambda>k c. (fst (step k c), test (snd (step k c)))) ks c))
    \<and> snd (some_m (\<lambda>k c. (fst (step k c), test (snd (step k c)))) ks c) = (\<exists>k \<in> set ks. test (value_of k))"
  using assms
proof (induction ks arbitrary: c)
  case (Cons k ks)
  from Cons.IH [OF step_inv [OF Cons.prems, of k]] show ?case
    by (auto simp: step_value [OF Cons.prems] step_inv [OF Cons.prems])
qed simp

end

definition cache_ok :: "pattern_cache \<Rightarrow> bool" where
  "cache_ok cache \<longleftrightarrow>
     length cache \<le> MAX_COMPILED_PHRASE_PATTERNS \<and> distinct (map fst cache)
     \<and> (\<forall>e \<in> set cache. snd e = compile_phrase (fst e))"

lemma cache_ok_empty: "cache_ok []"
  by (simp add: cache_ok_def)

interpretation phrase_memo:
  memoized "phrasePattern U" "\<lambda>k. compile_phrase (normalizeSearchText U k)" cache_ok for U
proof
  fix c k
  assume ok: "cache_ok c"
  show "snd (phrasePattern U k c) = compile_phrase (normalizeSearchText U k)"
    using ok by (auto simp: phrasePattern_def Let_def cache_ok_def split: option.splits dest: map_of_SomeD)
  show "cache_ok (fst (phrasePattern U k c))"
    using ok
    by (auto simp: phrasePattern_def Let_def cache_ok_def MAX_COMPILED_PHRASE_PATTERNS_def
        map_of_eq_None_iff split: option.splits)
qed

section \<open>What a pattern matches\<close>

lemma backslash_syntax: "92 \<in> set syntax_chars"
  by code_simp

lemma escapeRegExp_simps [simp]:
  "escapeRegExp [] = []"
  "escapeRegExp (c # s) = (if c \<in> set syntax_chars then [92, c] else [c]) @ escapeRegExp s"
  by (simp_all add: escapeRegExp_def)

lemma literal_of_plain: "c \<notin> set syntax_chars \<Longrightarrow> literal_of (c # r) = map_option (Cons c) (literal_of r)"
  using backslash_syntax by (cases r) auto

lemma literal_of_escape: "literal_of (escapeRegExp s) = Some s"
  by (induction s) (auto simp: literal_of_plain)

text \<open>A whole-word occurrence of a literal.\<close>

definition occurs_whole :: "unicode \<Rightarrow> ustr \<Rightarrow> ustr \<Rightarrow> bool" where
  "occurs_whole U lit hay \<longleftrightarrow>
     (\<exists>pre post. hay = pre @ lit @ post
        \<and> (pre = [] \<or> \<not> letter_or_digit U (last pre)) \<and> (post = [] \<or> \<not> letter_or_digit U (hd post)))"

lemma scan_spec:
  "scan U lit prev hay \<longleftrightarrow>
     (\<exists>pre post. hay = pre @ lit @ post
        \<and> not_word U (if pre = [] then prev else Some (last pre)) \<and> not_word U (first_of post))"
proof (induction U lit prev hay rule: scan.induct)
  case (1 U lit prev)
  then show ?case by (auto simp: not_word_def first_of_def)
next
  case (2 U lit prev c cs)
  show ?case (is "?L \<longleftrightarrow> ?R")
  proof
    assume ?L
    then consider "not_word U prev" "prefix lit (c # cs)" "not_word U (first_of (drop (length lit) (c # cs)))"
      | "scan U lit (Some c) cs" by auto
    then show ?R
    proof cases
      case 1
      then obtain post where "c # cs = lit @ post" by (auto simp: prefix_def)
      with 1 show ?thesis by (intro exI [of _ "[]"] exI [of _ post]) simp
    next
      case 2
      with "2.IH" obtain pre post where "cs = pre @ lit @ post"
        "not_word U (if pre = [] then Some c else Some (last pre))" "not_word U (first_of post)" by blast
      then show ?thesis by (intro exI [of _ "c # pre"] exI [of _ post]) (auto split: if_splits)
    qed
  next
    assume ?R
    then obtain pre post where d: "c # cs = pre @ lit @ post"
      "not_word U (if pre = [] then prev else Some (last pre))" "not_word U (first_of post)" by blast
    show ?L
    proof (cases pre)
      case Nil
      with d(1) have "prefix lit (c # cs)" "drop (length lit) (c # cs) = post" by simp_all
      with d(2,3) Nil show ?thesis by simp
    next
      case (Cons x pre')
      with d have "cs = pre' @ lit @ post" "not_word U (if pre' = [] then Some c else Some (last pre'))"
        by (auto split: if_splits)
      with d(3) have "scan U lit (Some c) cs" unfolding "2.IH" by blast
      then show ?thesis by simp
    qed
  qed
qed

lemma scan_occurs_whole: "scan U lit None hay \<longleftrightarrow> occurs_whole U lit hay"
proof -
  have "not_word U (if pre = [] then None else Some (last pre)) \<longleftrightarrow> pre = [] \<or> \<not> letter_or_digit U (last pre)" for pre
    by (simp add: not_word_def)
  moreover have "not_word U (first_of post) \<longleftrightarrow> post = [] \<or> \<not> letter_or_digit U (hd post)" for post
    by (cases post) (simp_all add: not_word_def first_of_def)
  ultimately show ?thesis by (simp only: scan_spec occurs_whole_def)
qed

text \<open>A keyword matches when it is not blank and its normal form occurs as a whole word.\<close>

definition keyword_holds :: "unicode \<Rightarrow> ustr \<Rightarrow> ustr \<Rightarrow> bool" where
  "keyword_holds U hay k \<longleftrightarrow>
     normalizeSearchText U k \<noteq> [] \<and> occurs_whole U (normalizeSearchText U k) hay"

definition test_opt :: "unicode \<Rightarrow> ustr \<Rightarrow> pattern option \<Rightarrow> bool" where
  "test_opt U hay p = (case p of None \<Rightarrow> False | Some q \<Rightarrow> pattern_test U q hay)"

lemma keywordMatches_step:
  "keywordMatches U hay k c = (fst (phrasePattern U k c), test_opt U hay (snd (phrasePattern U k c)))"
  by (simp add: keywordMatches_def test_opt_def split: prod.splits option.splits)

lemma test_compile: "test_opt U hay (compile_phrase (normalizeSearchText U k)) = keyword_holds U hay k"
  by (simp add: test_opt_def compile_phrase_def keyword_holds_def literal_of_escape scan_occurs_whole)

lemma keywordMatches_sound:
  assumes "cache_ok c"
  shows "cache_ok (fst (keywordMatches U hay k c)) \<and> snd (keywordMatches U hay k c) = keyword_holds U hay k"
  using phrase_memo.step_inv [OF assms] phrase_memo.step_value [OF assms]
  by (simp add: keywordMatches_step test_compile)

lemma some_keyword_sound:
  assumes "cache_ok c"
  shows "cache_ok (fst (some_m (keywordMatches U hay) ks c))
    \<and> snd (some_m (keywordMatches U hay) ks c) = (\<exists>k \<in> set ks. keyword_holds U hay k)"
proof -
  have "keywordMatches U hay = (\<lambda>k c. (fst (phrasePattern U k c), test_opt U hay (snd (phrasePattern U k c))))"
    by (intro ext) (rule keywordMatches_step)
  then show ?thesis
    using phrase_memo.some_step [OF assms, of U "test_opt U hay" ks] by (simp add: test_compile)
qed

definition rule_holds :: "unicode \<Rightarrow> ustr \<Rightarrow> ('r) keyword_rule_scheme \<Rightarrow> bool" where
  "rule_holds U hay r \<longleftrightarrow>
     (\<exists>k \<in> set (includeKeywords r). keyword_holds U hay k)
     \<and> \<not> (\<exists>k \<in> set (excludeKeywords r). keyword_holds U hay k)"

lemma ruleMatches_sound:
  assumes "cache_ok c"
  shows "cache_ok (fst (ruleMatchesNormalizedText U hay r c))
    \<and> snd (ruleMatchesNormalizedText U hay r c) = rule_holds U hay r"
proof -
  obtain c1 b1 where s1: "some_m (keywordMatches U hay) (includeKeywords r) c = (c1, b1)" by fastforce
  obtain c2 b2 where s2: "some_m (keywordMatches U hay) (excludeKeywords r) c1 = (c2, b2)" by fastforce
  have 1: "cache_ok c1" "b1 = (\<exists>k \<in> set (includeKeywords r). keyword_holds U hay k)"
    using some_keyword_sound [OF assms, of U hay "includeKeywords r"] by (simp_all add: s1)
  have 2: "cache_ok c2" "b2 = (\<exists>k \<in> set (excludeKeywords r). keyword_holds U hay k)"
    using some_keyword_sound [OF 1(1), of U hay "excludeKeywords r"] by (simp_all add: s2)
  show ?thesis
    using 1 2 by (simp add: ruleMatchesNormalizedText_def rule_holds_def s1 s2)
qed

section \<open>Shape of normalised text\<close>

fun single_spaced :: "bool \<Rightarrow> ustr \<Rightarrow> bool" where
  "single_spaced after_space [] = True"
| "single_spaced after_space (c # cs) =
     (if js_space c then c = 32 \<and> \<not> after_space \<and> single_spaced True cs else single_spaced False cs)"

lemma js_space_32 [simp]: "js_space 32"
  by (simp add: js_space_def)

lemma single_spaced_squash: "single_spaced b (squash b s)"
  by (induction b s rule: squash.induct) auto

lemma single_spaced_weaken: "single_spaced True s \<Longrightarrow> single_spaced False s"
  by (cases s) auto

lemma single_spaced_dropWhile: "single_spaced b s \<Longrightarrow> single_spaced False (dropWhile js_space s)"
  by (induction b s rule: single_spaced.induct) (auto split: if_splits)

lemma single_spaced_append: "single_spaced b (s @ t) \<Longrightarrow> single_spaced b s"
  by (induction b s rule: single_spaced.induct) (auto split: if_splits)

lemma single_spaced_drop_end: "single_spaced b s \<Longrightarrow> single_spaced b (drop_end P s)"
  using drop_end_prefix [of s P] single_spaced_append by metis

lemma single_spaced_normalized: "single_spaced False (normalizeSearchText U v)"
  unfolding normalizeSearchText_def utrim_def
  by (rule single_spaced_drop_end, rule single_spaced_dropWhile, rule single_spaced_squash)


section \<open>Properties\<close>

text \<open>
  C6: A keyword matches a normalised text exactly when its normal form is not empty and occurs in the
  text with no letter or digit directly before or after it, whatever patterns the cache already
  holds; the cache stays valid and never exceeds its bound.
\<close>

theorem keywordMatches_whole_word:
  assumes "cache_ok cache" and "keywordMatches U hay keyword cache = (cache', matched)"
  shows "(matched \<longleftrightarrow> normalizeSearchText U keyword \<noteq> []
      \<and> (\<exists>pre post. hay = pre @ normalizeSearchText U keyword @ post
          \<and> (pre = [] \<or> \<not> letter_or_digit U (last pre)) \<and> (post = [] \<or> \<not> letter_or_digit U (hd post))))
    \<and> cache_ok cache' \<and> length cache' \<le> 5000"
proof -
  have "cache_ok cache'" "matched = keyword_holds U hay keyword"
    using keywordMatches_sound [OF assms(1), of U hay keyword] assms(2) by simp_all
  then show ?thesis
    by (simp add: keyword_holds_def occurs_whole_def cache_ok_def MAX_COMPILED_PHRASE_PATTERNS_def)
qed

text \<open>A Unicode table for ASCII text.\<close>

definition ascii_unicode :: unicode where
  "ascii_unicode = \<lparr>nfd = (\<lambda>s. s), lower_case = map (\<lambda>c. if 65 \<le> c \<and> c \<le> 90 then c + 32 else c),
     letter_or_digit = (\<lambda>c. (48 \<le> c \<and> c \<le> 57) \<or> (65 \<le> c \<and> c \<le> 90) \<or> (97 \<le> c \<and> c \<le> 122))\<rparr>"

abbreviation cps :: "string \<Rightarrow> ustr" where
  "cps s \<equiv> map of_char s"

lemmas match_eval = phrasePattern_def normalizeSearchText_def utrim_def drop_end_def ascii_unicode_def
  js_space_def combining_mark_def compile_phrase_def syntax_chars_def not_word_def first_of_def
  MAX_COMPILED_PHRASE_PATTERNS_def Let_def

lemma keywordMatches_whole_word_witness:
  "\<exists>cache'. keywordMatches ascii_unicode (cps ''big c++ news'') (cps '' C++ '') [] = (cache', True)
     \<and> (\<exists>pre post. cps ''big c++ news'' = pre @ normalizeSearchText ascii_unicode (cps '' C++ '') @ post
         \<and> (pre = [] \<or> \<not> letter_or_digit ascii_unicode (last pre)))"
proof -
  have run: "keywordMatches ascii_unicode (cps ''big c++ news'') (cps '' C++ '') [] =
      ([(cps ''c++'', Some (Pattern (99 # 92 # 43 # 92 # 43 # [])))], True)"
    by (simp add: match_eval keywordMatches_def)
  from keywordMatches_whole_word [OF cache_ok_empty run] run show ?thesis by blast
qed

text \<open>
  C7: An entry matches a rule exactly when some include keyword and no exclude keyword occurs in its
  normalised text, whatever the cache holds; so the verdict on an entry does not depend on the entries
  and rules evaluated before it.
\<close>

theorem entryMatchesRule_meaning:
  assumes "cache_ok cache"
  shows "snd (entryMatchesRule U body r cache) =
      ((\<exists>k \<in> set (includeKeywords r). keyword_holds U (normalizeSearchText U body) k)
       \<and> \<not> (\<exists>k \<in> set (excludeKeywords r). keyword_holds U (normalizeSearchText U body) k))
    \<and> cache_ok (fst (entryMatchesRule U body r cache))"
  using ruleMatches_sound [OF assms, of U "normalizeSearchText U body" r]
  by (simp add: entryMatchesRule_def rule_holds_def)

lemma entryMatchesRule_meaning_witness:
  "snd (entryMatchesRule ascii_unicode (cps ''Big  News today'')
      \<lparr>includeKeywords = [cps ''big news''], excludeKeywords = [cps ''sport'']\<rparr> [])
   \<and> \<not> snd (entryMatchesRule ascii_unicode (cps ''Big  News in Sport'')
      \<lparr>includeKeywords = [cps ''big news''], excludeKeywords = [cps ''sport'']\<rparr> [])
   \<and> keyword_holds ascii_unicode (normalizeSearchText ascii_unicode (cps ''Big  News today'')) (cps ''big news'')"
proof -
  have run: "snd (entryMatchesRule ascii_unicode (cps ''Big  News today'')
      \<lparr>includeKeywords = [cps ''big news''], excludeKeywords = [cps ''sport'']\<rparr> [])"
    "\<not> snd (entryMatchesRule ascii_unicode (cps ''Big  News in Sport'')
      \<lparr>includeKeywords = [cps ''big news''], excludeKeywords = [cps ''sport'']\<rparr> [])"
    by (simp_all add: match_eval keywordMatches_def entryMatchesRule_def ruleMatchesNormalizedText_def)
  with entryMatchesRule_meaning [OF cache_ok_empty, of ascii_unicode "cps ''Big  News today''"
      "\<lparr>includeKeywords = [cps ''big news''], excludeKeywords = [cps ''sport'']\<rparr>"]
  show ?thesis by simp
qed

end
