(* ===== verification/Alert_Store.thy ===== *)
theory Alert_Store imports Canonical_Link Keyword_Match "HOL-Library.Product_Lexorder" begin

text \<open>
  The alert tables and the class \<open>AlertsRepository\<close> of \<open>src/modules/alerts/alerts.repository.ts\<close>.
  A table is the list of its rows; \<open>NOW()\<close> is the argument \<open>now\<close> of the operation, in milliseconds
  (\<open>Date.getTime()\<close>; a timestamp is kept as that number, \<open>toISOString\<close> is left out).
  Every \<open>UPDATE\<close> is a \<open>sql_update\<close> with a row function; the row functions are interpretations of
  the locale \<open>keyed_update\<close>.
  Theorems: one alert per article and tenant, rule sets only grow, the upsert of a batch adds exactly
  the matched rules; the per-channel statuses; the life of a digest item.
\<close>

section \<open>Rows\<close>

type_synonym msec = nat

datatype delivery_status = StPending | StQueued | StRetrying | StSent | StFailed | StDisabled

datatype channel_status = ChPending | ChSent | ChFailed

record alert =
  alert_id :: nat
  alert_tenant :: string
  alert_entry :: nat
  alert_rule :: nat
  matched_rules :: "nat list"
  canonical_link :: "string option"
  sent :: bool
  sent_at :: "msec option"
  delivery_status :: delivery_status
  delivery_attempts :: nat
  last_attempt_at :: "msec option"
  last_error :: "string option"
  last_queued_at :: "msec option"
  alert_created_at :: msec
  webhook_status :: channel_status
  telegram_status :: channel_status
  email_status :: channel_status

record digest_item =
  item_id :: nat
  item_tenant :: string
  item_alert :: nat
  item_chat :: string
  scheduled_for :: msec
  item_sent_at :: "msec option"
  item_created_at :: msec

record entry =
  entry_id :: nat
  entry_tenant :: string
  entry_feed :: nat
  entry_title :: "ustr option"
  entry_link :: "string option"
  entry_guid :: "string option"
  entry_content :: "ustr option"
  content_hash :: string
  normalized_search_document :: ustr
  published_at :: "msec option"
  fetched_at :: msec

record rule = keyword_rule +
  rule_id :: nat
  rule_tenant :: string
  rule_name :: string
  rule_active :: bool
  rule_created_at :: msec
  rule_updated_at :: msec

record alert_db =
  alerts :: "alert list"
  next_alert :: nat
  digest_items :: "digest_item list"
  next_item :: nat
  entries :: "entry list"
  next_entry :: nat
  rules :: "rule list"

text \<open>The columns an \<open>INSERT\<close> of an alert leaves to the table's defaults.\<close>

definition new_alert :: "nat \<Rightarrow> msec \<Rightarrow> string \<Rightarrow> nat \<Rightarrow> nat \<Rightarrow> nat list \<Rightarrow> string option \<Rightarrow> alert" where
  "new_alert i now tenant entry_i rule_i ruleset link =
     \<lparr>alert_id = i, alert_tenant = tenant, alert_entry = entry_i, alert_rule = rule_i,
      matched_rules = ruleset, canonical_link = link, sent = False, sent_at = None,
      delivery_status = StPending, delivery_attempts = 0, last_attempt_at = None, last_error = None,
      last_queued_at = None, alert_created_at = now,
      webhook_status = ChPending, telegram_status = ChPending, email_status = ChPending\<rparr>"

section \<open>Channels\<close>

datatype channel = Webhook | Telegram | Email

definition CHANNEL_DELIVERY_STATUS_COLUMNS :: "string \<rightharpoonup> channel" where
  "CHANNEL_DELIVERY_STATUS_COLUMNS =
     [''webhook'' \<mapsto> Webhook, ''telegram'' \<mapsto> Telegram, ''email'' \<mapsto> Email]"

text \<open>The column as the pair of its reading and its writing; an unknown channel throws.\<close>

definition deliveryStatusColumn :: "string \<Rightarrow> string + channel" where
  "deliveryStatusColumn ch =
     (case CHANNEL_DELIVERY_STATUS_COLUMNS ch of
        None \<Rightarrow> Inl (''unknown_alert_delivery_channel:'' @ ch)
      | Some column \<Rightarrow> Inr column)"

fun status_of :: "channel \<Rightarrow> alert \<Rightarrow> channel_status" where
  "status_of Webhook a = webhook_status a"
| "status_of Telegram a = telegram_status a"
| "status_of Email a = email_status a"

fun set_channel :: "channel \<Rightarrow> channel_status \<Rightarrow> alert \<Rightarrow> alert" where
  "set_channel Webhook s a = a\<lparr>webhook_status := s\<rparr>"
| "set_channel Telegram s a = a\<lparr>telegram_status := s\<rparr>"
| "set_channel Email s a = a\<lparr>email_status := s\<rparr>"

section \<open>The upsert of a batch\<close>

record created_alert =
  created_id :: nat
  created_entry :: nat
  created_rule :: nat

record upsert_outcome =
  created :: "created_alert list"
  ruleSetExtended :: "created_alert list"

record pending_upsert =
  up_tenant :: string
  up_entry :: nat
  up_rules :: "nat list"
  up_link :: "string option"

datatype sql_error = InvalidArrayLiteral string | CannotAffectRowTwice

text \<open>A \<open>Set<number>\<close> in insertion order.\<close>

definition set_add :: "'a list \<Rightarrow> 'a \<Rightarrow> 'a list" where
  "set_add s x = (if x \<in> set s then s else s @ [x])"

definition unit_separator :: char where
  "unit_separator = CHR 0x1F"

definition dedupe_part :: "string option \<Rightarrow> nat \<Rightarrow> string" where
  "dedupe_part link entry_i = opt_else link (''entry:'' @ dec entry_i)"

definition dedupeKey :: "string \<Rightarrow> string option \<Rightarrow> nat \<Rightarrow> string" where
  "dedupeKey tenant link entry_i = tenant @ unit_separator # dedupe_part link entry_i"

text \<open>\<open>upserts.get\<close> followed by the mutation of the entry found, or \<open>upserts.set\<close>.\<close>

fun add_upsert ::
  "string \<Rightarrow> pending_upsert \<Rightarrow> (string \<times> pending_upsert) list \<Rightarrow> (string \<times> pending_upsert) list" where
  "add_upsert k u [] = [(k, u\<lparr>up_rules := foldl set_add [] (up_rules u)\<rparr>)]"
| "add_upsert k u ((k', u') # m) =
     (if k' = k then (k', u'\<lparr>up_rules := foldl set_add (up_rules u') (up_rules u)\<rparr>) # m
      else (k', u') # add_upsert k u m)"

fun collect_upserts ::
  "(string \<Rightarrow> url option) \<Rightarrow> (nat \<times> nat list) list \<Rightarrow> entry list \<Rightarrow> (string \<times> pending_upsert) list
   \<Rightarrow> (string \<times> pending_upsert) list" where
  "collect_upserts parseURL matchesByEntry [] upserts = upserts"
| "collect_upserts parseURL matchesByEntry (e # es) upserts =
     (case map_of matchesByEntry (entry_id e) of
        None \<Rightarrow> collect_upserts parseURL matchesByEntry es upserts
      | Some ruleIds \<Rightarrow>
          if ruleIds = [] then collect_upserts parseURL matchesByEntry es upserts
          else (let canonicalLink = canonicalizeArticleLink parseURL (entry_link e) in
                collect_upserts parseURL matchesByEntry es
                  (add_upsert (dedupeKey (entry_tenant e) canonicalLink (entry_id e))
                     \<lparr>up_tenant = entry_tenant e, up_entry = entry_id e, up_rules = ruleIds,
                      up_link = canonicalLink\<rparr>
                     upserts)))"

text \<open>
  The five parameter arrays, zipped: tenant, entry, primary rule, array literal of the rules, link.
\<close>

type_synonym upsert_value = "string \<times> nat \<times> nat \<times> string \<times> string option"

definition rules_literal :: "nat list \<Rightarrow> string" where
  "rules_literal sortedRuleIds = ''{'' @ js_join '','' (map dec sortedRuleIds) @ ''}''"

fun upsert_values :: "(string \<times> pending_upsert) list \<Rightarrow> upsert_value list" where
  "upsert_values [] = []"
| "upsert_values ((k, u) # m) =
     (let sortedRuleIds = sort (up_rules u) in
      case sortedRuleIds of
        [] \<Rightarrow> upsert_values m
      | primaryRuleId # _ \<Rightarrow>
          (up_tenant u, up_entry u, primaryRuleId, rules_literal sortedRuleIds, up_link u) # upsert_values m)"

text \<open>\<open>text::int[]\<close> for literals of unsigned numbers.\<close>

definition pg_int_array :: "string \<Rightarrow> nat list option" where
  "pg_int_array s =
     (if length s < 2 \<or> hd s \<noteq> CHR ''{'' \<or> last s \<noteq> CHR ''}'' then None
      else (let body = butlast (tl s) in
            if body = '''' then Some []
            else if \<forall>p \<in> set (js_split CHR '','' body). p \<noteq> '''' \<and> list_all is_digit p
            then Some (map digits_val (js_split CHR '','' body)) else None))"

text \<open>The unique index \<open>idx_alerts_tenant_dedupe_key_unique\<close>.\<close>

definition alert_key :: "alert \<Rightarrow> string \<times> string" where
  "alert_key a = (alert_tenant a, dedupe_part (canonical_link a) (alert_entry a))"

definition extend_rules :: "nat list \<Rightarrow> alert \<Rightarrow> alert" where
  "extend_rules ruleset a = a\<lparr>matched_rules := sort (remdups (matched_rules a @ ruleset))\<rparr>"

definition returned_alert :: "alert \<Rightarrow> created_alert" where
  "returned_alert a = \<lparr>created_id = alert_id a, created_entry = alert_entry a, created_rule = alert_rule a\<rparr>"

text \<open>
  \<open>INSERT .. ON CONFLICT .. DO UPDATE .. RETURNING .., (xmax = 0)\<close>, for one row of \<open>VALUES\<close>. The
  sequence of the identifiers advances on a conflict as well.
\<close>

definition upsert_one ::
  "msec \<Rightarrow> string \<Rightarrow> nat \<Rightarrow> nat \<Rightarrow> nat list \<Rightarrow> string option \<Rightarrow> alert_db \<Rightarrow> (created_alert \<times> bool) \<times> alert_db" where
  "upsert_one now tenant entry_i rule_i ruleset link db =
     (let k = (tenant, dedupe_part link entry_i) in
      case row_by alert_key k (alerts db) of
        Some a \<Rightarrow>
          ((returned_alert a, False),
           db\<lparr>alerts := sql_update (\<lambda>b. alert_key b = k) (extend_rules ruleset) (alerts db),
              next_alert := Suc (next_alert db)\<rparr>)
      | None \<Rightarrow>
          (let a = new_alert (next_alert db) now tenant entry_i rule_i ruleset link in
           ((returned_alert a, True),
            db\<lparr>alerts := alerts db @ [a], next_alert := Suc (next_alert db)\<rparr>)))"

text \<open>
  The whole statement: \<open>touched\<close> are the rows it has already inserted or updated, which PostgreSQL
  refuses to update again.
\<close>

fun insert_on_conflict ::
  "msec \<Rightarrow> upsert_value list \<Rightarrow> (string \<times> string) list \<Rightarrow> alert_db
   \<Rightarrow> sql_error + ((created_alert \<times> bool) list \<times> alert_db)" where
  "insert_on_conflict now [] touched db = Inr ([], db)"
| "insert_on_conflict now ((tenant, entry_i, rule_i, lit, link) # vs) touched db =
     (case pg_int_array lit of
        None \<Rightarrow> Inl (InvalidArrayLiteral lit)
      | Some ruleset \<Rightarrow>
          if (tenant, dedupe_part link entry_i) \<in> set touched then Inl CannotAffectRowTwice
          else (case upsert_one now tenant entry_i rule_i ruleset link db of
                  (row, db1) \<Rightarrow>
                    (case insert_on_conflict now vs ((tenant, dedupe_part link entry_i) # touched) db1 of
                       Inl err \<Rightarrow> Inl err
                     | Inr (returned, db2) \<Rightarrow> Inr (row # returned, db2))))"

text \<open>
  \<open>SELECT id::text AS id .. ORDER BY id\<close>: the name is the output column, so the order is that of the
  decimal texts.
\<close>

definition entries_by_ids :: "nat list \<Rightarrow> entry list \<Rightarrow> entry list" where
  "entries_by_ids ids rows = sort_key (\<lambda>e. dec (entry_id e)) (filter (\<lambda>e. entry_id e \<in> set ids) rows)"

definition createForEntryWithRules ::
  "(string \<Rightarrow> url option) \<Rightarrow> msec \<Rightarrow> (nat \<times> nat list) list \<Rightarrow> alert_db
   \<Rightarrow> sql_error + (upsert_outcome \<times> alert_db)" where
  "createForEntryWithRules parseURL now matchesByEntry db =
     (let entryIds = map fst (filter (\<lambda>(i, ruleIds). ruleIds \<noteq> []) matchesByEntry) in
      if entryIds = [] then Inr (\<lparr>created = [], ruleSetExtended = []\<rparr>, db)
      else (let upserts = collect_upserts parseURL matchesByEntry (entries_by_ids entryIds (entries db)) [] in
            if upserts = [] then Inr (\<lparr>created = [], ruleSetExtended = []\<rparr>, db)
            else (case insert_on_conflict now (upsert_values upserts) [] db of
                    Inl err \<Rightarrow> Inl err
                  | Inr (returned, db') \<Rightarrow>
                      Inr (\<lparr>created = map fst (filter snd returned),
                            ruleSetExtended = map fst (filter (\<lambda>r. \<not> snd r) returned)\<rparr>, db'))))"


section \<open>Reads\<close>

record entry_view =
  ev_id :: nat
  ev_title :: "ustr option"
  ev_link :: "string option"
  ev_content :: "ustr option"

record rule_view =
  rv_id :: nat
  rv_name :: string
  rv_include :: "ustr list"
  rv_exclude :: "ustr list"

record alert_view =
  view_id :: nat
  view_sent :: bool
  view_sent_at :: "msec option"
  view_status :: delivery_status
  view_attempts :: nat
  view_last_attempt_at :: "msec option"
  view_last_error :: "string option"
  view_last_queued_at :: "msec option"
  view_created_at :: msec
  view_matched_rules :: "nat list"
  view_webhook :: channel_status
  view_telegram :: channel_status
  view_email :: channel_status
  view_entry :: entry_view
  view_rule :: rule_view

record alert_notification = alert_view +
  view_tenant :: string

text \<open>\<open>COALESCE((a.matched_rules)[1], a.rule_id)\<close> and the two inner joins.\<close>

definition primary_rule :: "alert \<Rightarrow> nat" where
  "primary_rule a = (case matched_rules a of r # _ \<Rightarrow> r | [] \<Rightarrow> alert_rule a)"

type_synonym alert_row = "alert \<times> entry \<times> rule"

definition alert_rows :: "alert_db \<Rightarrow> alert_row list" where
  "alert_rows db =
     [(a, e, r). a \<leftarrow> alerts db, e \<leftarrow> filter (\<lambda>e. entry_id e = alert_entry a) (entries db),
        r \<leftarrow> filter (\<lambda>r. rule_id r = primary_rule a) (rules db)]"

fun mapAlert :: "alert_row \<Rightarrow> alert_notification" where
  "mapAlert (a, e, r) =
     \<lparr>view_id = alert_id a, view_sent = sent a, view_sent_at = sent_at a,
      view_status = delivery_status a, view_attempts = delivery_attempts a,
      view_last_attempt_at = last_attempt_at a, view_last_error = last_error a,
      view_last_queued_at = last_queued_at a, view_created_at = alert_created_at a,
      view_matched_rules = (if matched_rules a \<noteq> [] then matched_rules a else [primary_rule a]),
      view_webhook = webhook_status a, view_telegram = telegram_status a, view_email = email_status a,
      view_entry = \<lparr>ev_id = entry_id e, ev_title = entry_title e, ev_link = entry_link e,
                    ev_content = entry_content e\<rparr>,
      view_rule = \<lparr>rv_id = primary_rule a, rv_name = rule_name r, rv_include = includeKeywords r,
                   rv_exclude = excludeKeywords r\<rparr>,
      view_tenant = alert_tenant a\<rparr>"

definition findByIdForTenant :: "nat \<Rightarrow> string \<Rightarrow> alert_db \<Rightarrow> alert_notification option" where
  "findByIdForTenant i tenant db =
     (case filter (\<lambda>(a, e, r). alert_id a = i \<and> alert_tenant a = tenant) (alert_rows db) of
        [] \<Rightarrow> None | row # _ \<Rightarrow> Some (mapAlert row))"

definition findByIdForWorker :: "nat \<Rightarrow> alert_db \<Rightarrow> alert_notification option" where
  "findByIdForWorker i db =
     (case filter (\<lambda>(a, e, r). alert_id a = i) (alert_rows db) of
        [] \<Rightarrow> None | row # _ \<Rightarrow> Some (mapAlert row))"

definition findById :: "nat \<Rightarrow> string option \<Rightarrow> alert_db \<Rightarrow> alert_notification option" where
  "findById i tenantId db =
     (case tenantId of None \<Rightarrow> findByIdForWorker i db | Some tenant \<Rightarrow> findByIdForTenant i tenant db)"

text \<open>\<open>list\<close>: the page of the joined rows, newest first, and the count without the joins.\<close>

record alert_query =
  q_tenant :: string
  q_page :: nat
  q_page_size :: nat
  q_sent :: "bool option"

definition alert_clause :: "alert_query \<Rightarrow> alert \<Rightarrow> bool" where
  "alert_clause q a \<longleftrightarrow>
     alert_tenant a = q_tenant q \<and> (case q_sent q of None \<Rightarrow> True | Some b \<Rightarrow> sent a = b)"

definition list_alerts :: "alert_query \<Rightarrow> alert_db \<Rightarrow> alert_view list \<times> nat" where
  "list_alerts q db =
     (map (alert_view.truncate \<circ> mapAlert)
        (sql_page (q_page_size q) ((q_page q - 1) * q_page_size q)
           (rev (sort_key (\<lambda>(a, e, r). (alert_created_at a, alert_id a))
             (filter (\<lambda>(a, e, r). alert_clause q a) (alert_rows db))))),
      length (filter (alert_clause q) (alerts db)))"

section \<open>Delivery bookkeeping\<close>

definition update_alert :: "nat \<Rightarrow> (alert \<Rightarrow> alert) \<Rightarrow> alert_db \<Rightarrow> alert_db" where
  "update_alert i f db = db\<lparr>alerts := sql_update (\<lambda>a. alert_id a = i) f (alerts db)\<rparr>"

definition queued_row :: "msec \<Rightarrow> alert \<Rightarrow> alert" where
  "queued_row now a =
     a\<lparr>delivery_status := (if delivery_attempts a > 0 then StRetrying else StQueued),
       last_queued_at := Some now\<rparr>"

definition markDeliveryQueued :: "msec \<Rightarrow> nat \<Rightarrow> alert_db \<Rightarrow> alert_db" where
  "markDeliveryQueued now i = update_alert i (queued_row now)"

definition disabled_row :: "msec \<Rightarrow> alert \<Rightarrow> alert" where
  "disabled_row now a =
     a\<lparr>delivery_status := StDisabled, last_error := Some ''notifier_disabled'', last_attempt_at := Some now\<rparr>"

definition markDeliveryDisabled :: "msec \<Rightarrow> nat \<Rightarrow> alert_db \<Rightarrow> alert_db" where
  "markDeliveryDisabled now i = update_alert i (disabled_row now)"

definition sent_row :: "msec \<Rightarrow> nat \<Rightarrow> alert \<Rightarrow> alert" where
  "sent_row now attemptNumber a =
     a\<lparr>sent := True, sent_at := coalesce (sent_at a) (Some now), delivery_status := StSent,
       delivery_attempts := max (delivery_attempts a) attemptNumber, last_attempt_at := Some now,
       last_error := None\<rparr>"

text \<open>The boolean is \<open>rowCount > 0\<close>.\<close>

definition markSent :: "msec \<Rightarrow> nat \<Rightarrow> nat \<Rightarrow> alert_db \<Rightarrow> alert_db \<times> bool" where
  "markSent now i attemptNumber db =
     (update_alert i (sent_row now attemptNumber) db, \<exists>a \<in> set (alerts db). alert_id a = i)"

definition failure_row :: "msec \<Rightarrow> nat \<Rightarrow> string \<Rightarrow> bool \<Rightarrow> alert \<Rightarrow> alert" where
  "failure_row now attemptNumber err willRetry a =
     a\<lparr>delivery_status := (if willRetry then StRetrying else StFailed),
       delivery_attempts := max (delivery_attempts a) attemptNumber, last_attempt_at := Some now,
       last_error := Some err\<rparr>"

definition markDeliveryFailure :: "msec \<Rightarrow> nat \<Rightarrow> nat \<Rightarrow> string \<Rightarrow> bool \<Rightarrow> alert_db \<Rightarrow> alert_db" where
  "markDeliveryFailure now i attemptNumber err willRetry =
     update_alert i (failure_row now attemptNumber err willRetry)"

definition delivered_row :: "msec \<Rightarrow> channel \<Rightarrow> alert \<Rightarrow> alert" where
  "delivered_row now ch a = (set_channel ch ChSent a)\<lparr>last_attempt_at := Some now\<rparr>"

definition markChannelDelivered :: "msec \<Rightarrow> nat \<Rightarrow> string \<Rightarrow> alert_db \<Rightarrow> string + alert_db" where
  "markChannelDelivered now i ch db =
     (case deliveryStatusColumn ch of
        Inl err \<Rightarrow> Inl err
      | Inr column \<Rightarrow> Inr (update_alert i (delivered_row now column) db))"

text \<open>\<open>WHERE id = $1 AND column <> 'sent'\<close>.\<close>

definition failed_row :: "msec \<Rightarrow> channel \<Rightarrow> alert \<Rightarrow> alert" where
  "failed_row now ch a =
     (if status_of ch a \<noteq> ChSent then (set_channel ch ChFailed a)\<lparr>last_attempt_at := Some now\<rparr> else a)"

definition markChannelFailed :: "msec \<Rightarrow> nat \<Rightarrow> string \<Rightarrow> alert_db \<Rightarrow> string + alert_db" where
  "markChannelFailed now i ch db =
     (case deliveryStatusColumn ch of
        Inl err \<Rightarrow> Inl err
      | Inr column \<Rightarrow> Inr (update_alert i (failed_row now column) db))"

record channel_config =
  hasWebhook :: bool
  hasEmail :: bool
  hasTelegram :: bool

definition checkAllChannelsDelivered :: "nat \<Rightarrow> channel_config \<Rightarrow> alert_db \<Rightarrow> bool" where
  "checkAllChannelsDelivered i config db =
     (case row_by alert_id i (alerts db) of
        None \<Rightarrow> False
      | Some a \<Rightarrow>
          (\<not> hasWebhook config \<or> webhook_status a = ChSent)
          \<and> (\<not> hasEmail config \<or> email_status a = ChSent)
          \<and> (\<not> hasTelegram config \<or> telegram_status a = ChSent))"

definition retry_row :: "msec \<Rightarrow> nat \<Rightarrow> alert \<Rightarrow> alert" where
  "retry_row now attemptNumber a =
     a\<lparr>delivery_status := StRetrying, delivery_attempts := max (delivery_attempts a) attemptNumber,
       last_attempt_at := Some now\<rparr>"

definition markDeliveryRetryPending :: "msec \<Rightarrow> nat \<Rightarrow> nat \<Rightarrow> alert_db \<Rightarrow> alert_db" where
  "markDeliveryRetryPending now i attemptNumber = update_alert i (retry_row now attemptNumber)"

section \<open>Digest items\<close>

definition digestWindowMs :: nat where
  "digestWindowMs = 10 * 60 * 1000"

definition computeNextDigestWindow :: "msec \<Rightarrow> msec" where
  "computeNextDigestWindow now = (now + digestWindowMs - 1) div digestWindowMs * digestWindowMs"

text \<open>\<open>INSERT .. ON CONFLICT (alert_id, chat_id) DO NOTHING\<close>.\<close>

definition queue_item :: "msec \<Rightarrow> nat \<Rightarrow> string \<Rightarrow> msec \<Rightarrow> string \<Rightarrow> alert_db \<Rightarrow> alert_db" where
  "queue_item now alertId tenantId scheduledFor chatId db =
     (if \<exists>d \<in> set (digest_items db). item_alert d = alertId \<and> item_chat d = chatId
      then db\<lparr>next_item := Suc (next_item db)\<rparr>
      else db\<lparr>digest_items := digest_items db @
                [\<lparr>item_id = next_item db, item_tenant = tenantId, item_alert = alertId, item_chat = chatId,
                  scheduled_for = scheduledFor, item_sent_at = None, item_created_at = now\<rparr>],
              next_item := Suc (next_item db)\<rparr>)"

definition queueTelegramDigestItems :: "msec \<Rightarrow> nat \<Rightarrow> string \<Rightarrow> string list \<Rightarrow> alert_db \<Rightarrow> alert_db" where
  "queueTelegramDigestItems now alertId tenantId chatIds db =
     foldl (\<lambda>d chatId. queue_item now alertId tenantId (computeNextDigestWindow now) chatId d) db chatIds"

definition due_item :: "msec \<Rightarrow> digest_item \<Rightarrow> bool" where
  "due_item now d \<longleftrightarrow> item_sent_at d = None \<and> scheduled_for d \<le> now"

definition item_group :: "digest_item \<Rightarrow> string \<times> string" where
  "item_group d = (item_tenant d, item_chat d)"

text \<open>
  \<open>GROUP BY tenant_id, chat_id ORDER BY MIN(scheduled_for) LIMIT $2\<close>; groups with the same minimum
  are taken in insertion order.
\<close>

definition due_groups :: "msec \<Rightarrow> nat \<Rightarrow> alert_db \<Rightarrow> (string \<times> string) list" where
  "due_groups now maxGroups db =
     (let due = filter (due_item now) (digest_items db) in
      take maxGroups
        (sort_key (\<lambda>g. Min (set (map scheduled_for (filter (\<lambda>d. item_group d = g) due))))
           (rev (remdups (rev (map item_group due))))))"

record digest_entry =
  de_item :: nat
  de_alert :: nat
  de_created_at :: msec
  de_title :: "ustr option"
  de_link :: "string option"
  de_snippet :: "ustr option"

record digest_group =
  dg_tenant :: string
  dg_chat :: string
  dg_scheduled_for :: msec
  dg_items :: "digest_entry list"

definition group_rows :: "msec \<Rightarrow> string \<times> string \<Rightarrow> alert_db \<Rightarrow> (digest_item \<times> alert \<times> entry) list" where
  "group_rows now g db =
     [(d, a, e). d \<leftarrow> sort_key (\<lambda>d. (item_created_at d, item_id d))
                     (filter (\<lambda>d. item_group d = g \<and> due_item now d) (digest_items db)),
        a \<leftarrow> filter (\<lambda>a. alert_id a = item_alert d) (alerts db),
        e \<leftarrow> filter (\<lambda>e. entry_id e = alert_entry a) (entries db)]"

definition digest_entry_of :: "digest_item \<times> alert \<times> entry \<Rightarrow> digest_entry" where
  "digest_entry_of = (\<lambda>(d, a, e).
     \<lparr>de_item = item_id d, de_alert = alert_id a, de_created_at = alert_created_at a,
      de_title = entry_title e, de_link = entry_link e, de_snippet = entry_content e\<rparr>)"

fun load_groups :: "msec \<Rightarrow> (string \<times> string) list \<Rightarrow> alert_db \<Rightarrow> digest_group list" where
  "load_groups now [] db = []"
| "load_groups now (g # gs) db =
     (case group_rows now g db of
        [] \<Rightarrow> load_groups now gs db
      | (d, a, e) # rows \<Rightarrow>
          \<lparr>dg_tenant = fst g, dg_chat = snd g, dg_scheduled_for = scheduled_for d,
           dg_items = map digest_entry_of ((d, a, e) # rows)\<rparr> # load_groups now gs db)"

definition listDueTelegramDigestGroups :: "msec \<Rightarrow> nat \<Rightarrow> alert_db \<Rightarrow> digest_group list" where
  "listDueTelegramDigestGroups now maxGroups db = load_groups now (due_groups now maxGroups db) db"

definition item_sent_row :: "msec \<Rightarrow> digest_item \<Rightarrow> digest_item" where
  "item_sent_row now d = (if item_sent_at d = None then d\<lparr>item_sent_at := Some now\<rparr> else d)"

definition mark_item :: "msec \<Rightarrow> nat \<Rightarrow> alert_db \<Rightarrow> alert_db" where
  "mark_item now i db =
     db\<lparr>digest_items := sql_update (\<lambda>d. item_id d = i) (item_sent_row now) (digest_items db)\<rparr>"

definition unsent_items_of :: "nat \<Rightarrow> alert_db \<Rightarrow> bool" where
  "unsent_items_of i db \<longleftrightarrow> (\<exists>d \<in> set (digest_items db). item_alert d = i \<and> item_sent_at d = None)"

definition converge_alert :: "msec \<Rightarrow> nat \<Rightarrow> alert_db \<Rightarrow> alert_db \<times> nat list" where
  "converge_alert now i db =
     (let p = (\<lambda>a. alert_id a = i \<and> telegram_status a \<noteq> ChSent \<and> \<not> unsent_items_of (alert_id a) db) in
      (db\<lparr>alerts := sql_update p (delivered_row now Telegram) (alerts db)\<rparr>,
       map alert_id (take 1 (sql_returning p (delivered_row now Telegram) (alerts db)))))"

fun converge_alerts :: "msec \<Rightarrow> nat list \<Rightarrow> alert_db \<Rightarrow> alert_db \<times> nat list" where
  "converge_alerts now [] db = (db, [])"
| "converge_alerts now (i # al) db =
     (case converge_alert now i db of
        (db1, delivered) \<Rightarrow>
          (case converge_alerts now al db1 of (db2, delivered') \<Rightarrow> (db2, delivered @ delivered')))"

text \<open>The items are pairs of a digest item and its alert.\<close>

definition markTelegramDigestGroupSent ::
  "msec \<Rightarrow> (nat \<times> nat) list \<Rightarrow> alert_db \<Rightarrow> alert_db \<times> nat list" where
  "markTelegramDigestGroupSent now items db =
     (if items = [] then (db, [])
      else converge_alerts now (foldl set_add [] (map snd items))
             (foldl (\<lambda>d item. mark_item now (fst item) d) db items))"

definition reconcileTelegramDigestDeliveryStatus :: "msec \<Rightarrow> alert_db \<Rightarrow> alert_db \<times> nat list" where
  "reconcileTelegramDigestDeliveryStatus now db =
     (let p = (\<lambda>a. telegram_status a = ChPending
                 \<and> (\<exists>d \<in> set (digest_items db). item_alert d = alert_id a \<and> item_sent_at d \<noteq> None)
                 \<and> \<not> unsent_items_of (alert_id a) db) in
      (db\<lparr>alerts := sql_update p (delivered_row now Telegram) (alerts db)\<rparr>,
       map alert_id (sql_returning p (delivered_row now Telegram) (alerts db))))"


section \<open>The row updates keep the primary key\<close>

lemma set_channel_simps [simp]:
  "alert_id (set_channel ch s a) = alert_id a"
  "alert_key (set_channel ch s a) = alert_key a"
  "matched_rules (set_channel ch s a) = matched_rules a"
  "delivery_attempts (set_channel ch s a) = delivery_attempts a"
  "delivery_status (set_channel ch s a) = delivery_status a"
  "sent (set_channel ch s a) = sent a"
  "status_of ch' (set_channel ch s a) = (if ch' = ch then s else status_of ch' a)"
  by (cases ch; cases ch'; simp add: alert_key_def)+

lemmas row_defs [row_simps] = queued_row_def disabled_row_def sent_row_def failure_row_def
  delivered_row_def failed_row_def retry_row_def extend_rules_def

interpretation queued: keyed_update alert_id "queued_row now" for now
  by unfold_locales (simp add: row_simps)
interpretation disabled: keyed_update alert_id "disabled_row now" for now
  by unfold_locales (simp add: row_simps)
interpretation sending: keyed_update alert_id "sent_row now n" for now n
  by unfold_locales (simp add: row_simps)
interpretation failure: keyed_update alert_id "failure_row now n err willRetry" for now n err willRetry
  by unfold_locales (simp add: row_simps)
interpretation delivered: keyed_update alert_id "delivered_row now ch" for now ch
  by unfold_locales (simp add: row_simps)
interpretation channel_failed: keyed_update alert_id "failed_row now ch" for now ch
  by unfold_locales (simp add: row_simps)
interpretation retrying: keyed_update alert_id "retry_row now n" for now n
  by unfold_locales (simp add: row_simps)
interpretation extended: keyed_update alert_key "extend_rules rs" for rs
  by unfold_locales (simp add: row_simps alert_key_def)
interpretation item_flushed: keyed_update item_id "item_sent_row now" for now
  by unfold_locales (simp add: item_sent_row_def)

section \<open>The upsert, value by value\<close>

lemma set_add_set [simp]: "set (set_add s x) = insert x (set s)"
  by (auto simp: set_add_def)

lemma foldl_set_add:
  "set (foldl set_add s xs) = set s \<union> set xs"
  "distinct s \<Longrightarrow> distinct (foldl set_add s xs)"
  by (induction xs arbitrary: s) (auto simp: set_add_def)

lemma digits_no_comma: "CHR '','' \<notin> set (dec n)"
  using dec_digits [of n] by (auto simp: is_digit_def)

lemma pg_int_array_literal: "pg_int_array (rules_literal xs) = Some xs"
proof (cases xs)
  case (Cons x ys)
  have split: "js_split CHR '','' (js_join '','' (map dec xs)) = map dec xs"
    using Cons by (intro js_split_join) (auto simp: digits_no_comma)
  have "js_join '','' (map dec xs) \<noteq> ''''"
    using Cons by (cases ys) (auto simp: js_join_Cons)
  moreover have "map digits_val (map dec xs) = xs"
    by (simp add: js_simps comp_def)
  moreover have "\<forall>p \<in> set (map dec xs). p \<noteq> '''' \<and> list_all is_digit p"
    using dec_digits by (auto simp: list_all_iff)
  ultimately show ?thesis
    by (simp add: pg_int_array_def rules_literal_def Let_def split)
qed (simp add: rules_literal_def pg_int_array_def)

text \<open>What holds of the alerts table after migration 0013.\<close>

definition alerts_ok :: "alert_db \<Rightarrow> bool" where
  "alerts_ok db \<longleftrightarrow>
     distinct (map alert_key (alerts db)) \<and> distinct (map alert_id (alerts db))
     \<and> (\<forall>a \<in> set (alerts db). alert_id a < next_alert db
          \<and> matched_rules a \<noteq> [] \<and> sorted (matched_rules a) \<and> distinct (matched_rules a))"

definition alert_rules :: "alert_db \<Rightarrow> string \<times> string \<Rightarrow> nat set" where
  "alert_rules db k = (case row_by alert_key k (alerts db) of None \<Rightarrow> {} | Some a \<Rightarrow> set (matched_rules a))"

definition without_rules :: "alert \<Rightarrow> alert" where
  "without_rules a = a\<lparr>matched_rules := []\<rparr>"

text \<open>Everything but the alerts and their sequence is unchanged.\<close>

definition same_rest :: "alert_db \<Rightarrow> alert_db \<Rightarrow> bool" where
  "same_rest db db' \<longleftrightarrow>
     digest_items db' = digest_items db \<and> next_item db' = next_item db \<and> entries db' = entries db
     \<and> next_entry db' = next_entry db \<and> rules db' = rules db"

definition value_key :: "upsert_value \<Rightarrow> string \<times> string" where
  "value_key = (\<lambda>(tenant, entry_i, rule_i, lit, link). (tenant, dedupe_part link entry_i))"

definition value_rules :: "upsert_value \<Rightarrow> nat list" where
  "value_rules = (\<lambda>(tenant, entry_i, rule_i, lit, link). opt_else (pg_int_array lit) [])"

definition value_ok :: "upsert_value \<Rightarrow> bool" where
  "value_ok v \<longleftrightarrow> value_rules v \<noteq> [] \<and> sorted (value_rules v) \<and> distinct (value_rules v)"

lemma alert_key_new [simp]: "alert_key (new_alert i now t e r rs l) = (t, dedupe_part l e)"
  by (simp add: alert_key_def new_alert_def)


lemma upsert_one_ok:
  assumes ok: "alerts_ok db" and rs: "rs \<noteq> []" "sorted rs" "distinct rs"
    and one: "upsert_one now t e r rs l db = (row, db')"
  shows "alerts_ok db'"
proof (cases "row_by alert_key (t, dedupe_part l e) (alerts db)")
  case None
  then have "(t, dedupe_part l e) \<notin> alert_key ` set (alerts db)"
    by (simp add: row_by_None_iff)
  moreover have "next_alert db \<notin> alert_id ` set (alerts db)"
    using ok by (auto simp: alerts_ok_def)
  moreover have "matched_rules (new_alert i now t e r rs l) = rs" "alert_id (new_alert i now t e r rs l) = i" for i
    by (simp_all add: new_alert_def)
  ultimately show ?thesis
    using ok one None rs
    by (auto simp: upsert_one_def Let_def alerts_ok_def less_Suc_eq)
next
  case (Some a)
  have "map alert_id (sql_update p (extend_rules rs) xs) = map alert_id xs" for p xs
    by (induction xs) (auto simp: row_simps)
  moreover have "sort (remdups (xs @ rs)) \<noteq> []" for xs
    using rs(1) by (metis append_is_Nil_conv remdups_eq_nil_iff sort_key_simps(1) set_sort set_empty)
  ultimately show ?thesis
    using ok one Some
    by (auto simp: upsert_one_def Let_def alerts_ok_def extended.keys_kept in_sql_update less_Suc_eq
        extend_rules_def split: if_splits)
qed

lemma upsert_one_rules:
  assumes "upsert_one now t e r rs l db = (row, db')"
  shows "alert_rules db' k = alert_rules db k \<union> (if k = (t, dedupe_part l e) then set rs else {})"
proof (cases "row_by alert_key (t, dedupe_part l e) (alerts db)")
  case None
  with assms show ?thesis
    by (auto simp: upsert_one_def Let_def alert_rules_def row_by_append row_simps new_alert_def alert_key_def
        split: option.splits)
next
  case (Some a)
  with assms show ?thesis
    by (auto simp: upsert_one_def Let_def alert_rules_def extended.row_by_update_key extend_rules_def
        split: option.splits dest: row_by_SomeD)
qed

lemma upsert_one_frame:
  assumes "upsert_one now t e r rs l db = (row, db')"
  shows "same_rest db db'"
    and "map returned_alert (alerts db') = map returned_alert (alerts db) @ (if snd row then [fst row] else [])"
    and "prefix (map without_rules (alerts db)) (map without_rules (alerts db'))"
proof -
  have u: "map returned_alert (sql_update p (extend_rules rs) xs) = map returned_alert xs"
    "map without_rules (sql_update p (extend_rules rs) xs) = map without_rules xs" for p xs
    by (induction xs) (auto simp: row_simps returned_alert_def without_rules_def)
  show "same_rest db db'"
    "map returned_alert (alerts db') = map returned_alert (alerts db) @ (if snd row then [fst row] else [])"
    "prefix (map without_rules (alerts db)) (map without_rules (alerts db'))"
    using assms u by (auto simp: upsert_one_def Let_def same_rest_def split: option.splits)
qed

lemma Union_key_Cons:
  "(\<Union>w \<in> {w \<in> set (v # vs). f w = k}. S w) = (if f v = k then S v else {}) \<union> (\<Union>w \<in> {w \<in> set vs. f w = k}. S w)"
  by auto

lemma insert_on_conflict_spec:
  assumes "alerts_ok db" and "\<forall>v \<in> set vs. value_ok v" and "distinct (map value_key vs)"
    and "set (map value_key vs) \<inter> set touched = {}"
  shows "\<exists>returned db'. insert_on_conflict now vs touched db = Inr (returned, db')
    \<and> alerts_ok db' \<and> same_rest db db'
    \<and> map returned_alert (alerts db') = map returned_alert (alerts db) @ map fst (filter snd returned)
    \<and> prefix (map without_rules (alerts db)) (map without_rules (alerts db'))
    \<and> (\<forall>k. alert_rules db' k = alert_rules db k \<union> (\<Union>v \<in> {v \<in> set vs. value_key v = k}. set (value_rules v)))"
  using assms
proof (induction vs arbitrary: touched db)
  case Nil
  then show ?case by (simp add: same_rest_def)
next
  case (Cons v vs)
  obtain t e r lit l where v: "v = (t, e, r, lit, l)" by (cases v) auto
  define k0 where "k0 = (t, dedupe_part l e)"
  have vk: "value_key v = k0" by (simp add: value_key_def v k0_def)
  obtain rs where rs: "pg_int_array lit = Some rs" "rs \<noteq> []" "sorted rs" "distinct rs" "value_rules v = rs"
    using Cons.prems(2) by (cases "pg_int_array lit") (auto simp: value_ok_def value_rules_def v)
  obtain row db1 where one: "upsert_one now t e r rs l db = (row, db1)" by fastforce
  have ok1: "alerts_ok db1" using upsert_one_ok [OF Cons.prems(1) rs(2-4) one] .
  have d: "set (map value_key vs) \<inter> set (k0 # touched) = {}"
    using Cons.prems(3,4) vk by auto
  obtain returned db2 where ih: "insert_on_conflict now vs (k0 # touched) db1 = Inr (returned, db2)"
    "alerts_ok db2" "same_rest db1 db2"
    "map returned_alert (alerts db2) = map returned_alert (alerts db1) @ map fst (filter snd returned)"
    "prefix (map without_rules (alerts db1)) (map without_rules (alerts db2))"
    "\<forall>k. alert_rules db2 k = alert_rules db1 k \<union> (\<Union>v \<in> {v \<in> set vs. value_key v = k}. set (value_rules v))"
    using Cons.IH [OF ok1 _ _ d] Cons.prems(2,3) by auto
  have run: "insert_on_conflict now (v # vs) touched db = Inr (row # returned, db2)"
    using Cons.prems(4) vk rs(1) one ih(1) by (simp add: v flip: k0_def)
  note f = upsert_one_frame [OF one]
  have "same_rest db db2" using f(1) ih(3) by (simp add: same_rest_def)
  moreover have "prefix (map without_rules (alerts db)) (map without_rules (alerts db2))"
    using f(3) ih(5) by (rule prefix_order.trans)
  moreover have "map returned_alert (alerts db2) = map returned_alert (alerts db) @ map fst (filter snd (row # returned))"
    using f(2) ih(4) by simp
  moreover have "alert_rules db2 k = alert_rules db k
      \<union> (\<Union>w \<in> {w \<in> set (v # vs). value_key w = k}. set (value_rules w))" for k
    unfolding Union_key_Cons vk rs(5) using upsert_one_rules [OF one, of k, folded k0_def]
    using ih(6) [THEN spec, of k] by (auto simp: eq_commute [of k k0])
  ultimately show ?case using run ih(2) by blast
qed


section \<open>The upsert, entry by entry\<close>

definition link_key :: "(string \<Rightarrow> url option) \<Rightarrow> entry \<Rightarrow> string \<times> string" where
  "link_key parseURL e =
     (entry_tenant e, dedupe_part (canonicalizeArticleLink parseURL (entry_link e)) (entry_id e))"

definition pending_key :: "pending_upsert \<Rightarrow> string \<times> string" where
  "pending_key u = (up_tenant u, dedupe_part (up_link u) (up_entry u))"

definition key_text :: "string \<times> string \<Rightarrow> string" where
  "key_text k = fst k @ unit_separator # snd k"

lemma key_text_inject:
  "unit_separator \<notin> set (fst j) \<Longrightarrow> unit_separator \<notin> set (fst k) \<Longrightarrow> key_text j = key_text k \<longleftrightarrow> j = k"
proof -
  have "takeWhile (\<lambda>c. c \<noteq> s) (t @ s # l) = t" "tl (dropWhile (\<lambda>c. c \<noteq> s) (t @ s # l)) = l"
    if "s \<notin> set t" for s :: char and t l :: string
    using that by (induction t) auto
  then show "unit_separator \<notin> set (fst j) \<Longrightarrow> unit_separator \<notin> set (fst k) \<Longrightarrow> ?thesis"
    unfolding key_text_def by (metis prod.collapse)
qed

lemma dedupeKey_text: "dedupeKey t l i = key_text (t, dedupe_part l i)"
  by (simp add: dedupeKey_def key_text_def)

definition pending_ok :: "string \<times> pending_upsert \<Rightarrow> bool" where
  "pending_ok = (\<lambda>(k, u). k = key_text (pending_key u) \<and> unit_separator \<notin> set (up_tenant u)
     \<and> up_rules u \<noteq> [] \<and> distinct (up_rules u))"

definition upserts_ok :: "(string \<times> pending_upsert) list \<Rightarrow> bool" where
  "upserts_ok m \<longleftrightarrow> distinct (map fst m) \<and> (\<forall>p \<in> set m. pending_ok p)"

definition upsert_rules :: "(string \<times> pending_upsert) list \<Rightarrow> string \<times> string \<Rightarrow> nat set" where
  "upsert_rules m k = (\<Union>p \<in> {p \<in> set m. pending_key (snd p) = k}. set (up_rules (snd p)))"

lemma upsert_rules_simps [simp]:
  "upsert_rules [] k = {}"
  "upsert_rules (p # m) k = (if pending_key (snd p) = k then set (up_rules (snd p)) else {}) \<union> upsert_rules m k"
  by (auto simp: upsert_rules_def)

lemma pending_key_rules [simp]: "pending_key (u\<lparr>up_rules := rs\<rparr>) = pending_key u"
  by (simp add: pending_key_def)

lemma add_upsert_keys:
  "map fst (add_upsert k u m) = (if k \<in> fst ` set m then map fst m else map fst m @ [k])"
  by (induction k u m rule: add_upsert.induct) auto

lemma foldl_set_add_neq_Nil: "xs \<noteq> [] \<Longrightarrow> foldl set_add s xs \<noteq> []"
  using foldl_set_add(1) [of s xs] by auto

lemma add_upsert_ok:
  assumes "upserts_ok m" and "k = key_text (pending_key u)" and "unit_separator \<notin> set (up_tenant u)"
    and "up_rules u \<noteq> []"
  shows "upserts_ok (add_upsert k u m)"
proof -
  have "\<forall>p \<in> set (add_upsert k u m). pending_ok p"
    using assms
    by (induction k u m rule: add_upsert.induct)
      (auto simp: upserts_ok_def pending_ok_def foldl_set_add foldl_set_add_neq_Nil)
  then show ?thesis using assms(1) by (simp add: upserts_ok_def add_upsert_keys)
qed

lemma add_upsert_rules:
  assumes "upserts_ok m" and "k = key_text (pending_key u)" and "unit_separator \<notin> set (up_tenant u)"
  shows "upsert_rules (add_upsert k u m) j = upsert_rules m j \<union> (if pending_key u = j then set (up_rules u) else {})"
  using assms
proof (induction k u m rule: add_upsert.induct)
  case (2 k u k' u' m)
  then have "k' = key_text (pending_key u')" "unit_separator \<notin> set (fst (pending_key u'))"
    by (auto simp: upserts_ok_def pending_ok_def pending_key_def)
  moreover have "unit_separator \<notin> set (fst (pending_key u))"
    using 2 by (simp add: pending_key_def)
  ultimately have same: "k' = k \<longleftrightarrow> pending_key u' = pending_key u"
    using 2 key_text_inject by metis
  have "upserts_ok m" using 2 by (simp add: upserts_ok_def)
  with 2 same show ?case
    by (cases "k' = k") (auto simp: foldl_set_add)
qed (auto simp: foldl_set_add)

definition matched_by :: "(nat \<times> nat list) list \<Rightarrow> entry \<Rightarrow> nat set" where
  "matched_by m e = (case map_of m (entry_id e) of None \<Rightarrow> {} | Some rs \<Rightarrow> set rs)"

lemma collect_upserts_spec:
  assumes "upserts_ok m" and "\<forall>e \<in> set es. unit_separator \<notin> set (entry_tenant e)"
  shows "upserts_ok (collect_upserts parseURL mm es m)
    \<and> upsert_rules (collect_upserts parseURL mm es m) k =
        upsert_rules m k \<union> (\<Union>e \<in> {e \<in> set es. link_key parseURL e = k}. matched_by mm e)"
  using assms
proof (induction es arbitrary: m)
  case (Cons e es)
  show ?case
  proof (cases "matched_by mm e = {}")
    case True
    then have "collect_upserts parseURL mm (e # es) m = collect_upserts parseURL mm es m"
      by (auto simp: matched_by_def split: option.splits)
    with Cons True show ?thesis unfolding Union_key_Cons by simp
  next
    case False
    then obtain rs where rs: "map_of mm (entry_id e) = Some rs" "rs \<noteq> []"
      by (auto simp: matched_by_def split: option.splits)
    define u where "u = \<lparr>up_tenant = entry_tenant e, up_entry = entry_id e, up_rules = rs,
      up_link = canonicalizeArticleLink parseURL (entry_link e)\<rparr>"
    have u: "pending_key u = link_key parseURL e" "up_rules u = rs" "up_tenant u = entry_tenant e"
      by (simp_all add: u_def pending_key_def link_key_def)
    have run: "collect_upserts parseURL mm (e # es) m
        = collect_upserts parseURL mm es (add_upsert (key_text (pending_key u)) u m)"
      using rs by (simp add: Let_def u_def pending_key_def dedupeKey_text)
    have free: "unit_separator \<notin> set (up_tenant u)" using Cons.prems(2) u(3) by simp
    have ok: "upserts_ok (add_upsert (key_text (pending_key u)) u m)"
      by (rule add_upsert_ok [OF Cons.prems(1) refl free]) (simp add: u rs)
    have tail: "\<forall>e \<in> set es. unit_separator \<notin> set (entry_tenant e)" using Cons.prems(2) by simp
    have "matched_by mm e = set rs" using rs by (simp add: matched_by_def)
    then show ?thesis
      using Cons.IH [OF ok tail] add_upsert_rules [OF Cons.prems(1) refl free, of k]
      unfolding Union_key_Cons run u by (simp add: Un_assoc)
  qed
qed simp

lemma upsert_values_map:
  assumes "upserts_ok m"
  shows "upsert_values m = map (\<lambda>(k, u). (up_tenant u, up_entry u, hd (sort (up_rules u)),
     rules_literal (sort (up_rules u)), up_link u)) m"
  using assms
proof (induction m)
  case (Cons p m)
  obtain k u where p: "p = (k, u)" by (cases p)
  have "up_rules u \<noteq> []" "upserts_ok m" using Cons.prems by (auto simp: upserts_ok_def pending_ok_def p)
  then obtain r rs where "sort (up_rules u) = r # rs"
    by (metis set_sort set_empty neq_Nil_conv)
  then show ?case using Cons.IH [OF \<open>upserts_ok m\<close>] by (simp add: p Let_def)
qed simp

lemma upsert_values_ok:
  assumes "upserts_ok m"
  shows "\<forall>v \<in> set (upsert_values m). value_ok v"
    and "map value_key (upsert_values m) = map (pending_key \<circ> snd) m"
    and "distinct (map value_key (upsert_values m))"
    and "(\<Union>v \<in> {v \<in> set (upsert_values m). value_key v = k}. set (value_rules v)) = upsert_rules m k"
proof -
  have ne: "sort xs \<noteq> []" if "xs \<noteq> []" for xs :: "nat list"
    using that by (metis set_sort set_empty)
  show "\<forall>v \<in> set (upsert_values m). value_ok v"
    using assms
    by (auto simp: upsert_values_map [OF assms] value_ok_def value_rules_def pg_int_array_literal ne
        upserts_ok_def pending_ok_def)
  show keys: "map value_key (upsert_values m) = map (pending_key \<circ> snd) m"
    by (auto simp: upsert_values_map [OF assms] value_key_def pending_key_def)
  have "map fst m = map key_text (map (pending_key \<circ> snd) m)"
    using assms by (auto simp: upserts_ok_def pending_ok_def)
  then have "distinct (map key_text (map (pending_key \<circ> snd) m))"
    using assms by (metis upserts_ok_def)
  then show "distinct (map value_key (upsert_values m))"
    unfolding keys distinct_map by blast
  show "(\<Union>v \<in> {v \<in> set (upsert_values m). value_key v = k}. set (value_rules v)) = upsert_rules m k"
    by (auto simp: upsert_values_map [OF assms] value_key_def value_rules_def pending_key_def upsert_rules_def
        pg_int_array_literal)
qed

lemma createForEntryWithRules_spec:
  assumes ok: "alerts_ok db" and free: "\<forall>e \<in> set (entries db). unit_separator \<notin> set (entry_tenant e)"
  shows "\<exists>out db'. createForEntryWithRules parseURL now m db = Inr (out, db')
    \<and> alerts_ok db' \<and> same_rest db db'
    \<and> map returned_alert (alerts db') = map returned_alert (alerts db) @ created out
    \<and> prefix (map without_rules (alerts db)) (map without_rules (alerts db'))
    \<and> (\<forall>k. alert_rules db' k =
          alert_rules db k \<union> (\<Union>e \<in> {e \<in> set (entries db). link_key parseURL e = k}. matched_by m e))"
proof -
  define ids where "ids = map fst (filter (\<lambda>(i, ruleIds). ruleIds \<noteq> []) m)"
  define es where "es = entries_by_ids ids (entries db)"
  define ups where "ups = collect_upserts parseURL m es []"
  have es: "set es = {e \<in> set (entries db). entry_id e \<in> set ids}"
    by (auto simp: es_def entries_by_ids_def)
  have none: "matched_by m e = {}" if "entry_id e \<notin> set ids" for e
  proof (rule ccontr)
    assume "matched_by m e \<noteq> {}"
    then obtain rs where "map_of m (entry_id e) = Some rs" "rs \<noteq> []"
      by (auto simp: matched_by_def split: option.splits)
    then have "(entry_id e, rs) \<in> set (filter (\<lambda>(i, ruleIds). ruleIds \<noteq> []) m)"
      by (auto dest: map_of_SomeD)
    with that show False unfolding ids_def by force
  qed
  have all: "(\<Union>e \<in> {e \<in> set es. link_key parseURL e = k}. matched_by m e)
      = (\<Union>e \<in> {e \<in> set (entries db). link_key parseURL e = k}. matched_by m e)" for k
    using none by (auto simp: es)
  have spec: "upserts_ok ups" "\<And>k. upsert_rules ups k
      = (\<Union>e \<in> {e \<in> set (entries db). link_key parseURL e = k}. matched_by m e)"
    using collect_upserts_spec [of "[]" es parseURL m] free es all by (auto simp: ups_def upserts_ok_def)
  show ?thesis
  proof (cases "ids = [] \<or> ups = []")
    case True
    then have "ids = [] \<Longrightarrow> ups = []"
      using es by (cases es) (auto simp: ups_def)
    with True have "ups = []" by blast
    then have "(\<Union>e \<in> {e \<in> set (entries db). link_key parseURL e = k}. matched_by m e) = {}" for k
      using spec(2) [of k] by simp
    moreover have "createForEntryWithRules parseURL now m db = Inr (\<lparr>created = [], ruleSetExtended = []\<rparr>, db)"
      using True by (auto simp: createForEntryWithRules_def Let_def ids_def es_def ups_def)
    ultimately show ?thesis
      using ok by (intro exI [of _ "\<lparr>created = [], ruleSetExtended = []\<rparr>"] exI [of _ db])
        (simp add: same_rest_def)
  next
    case False
    note v = upsert_values_ok [OF spec(1)]
    obtain returned db' where r: "insert_on_conflict now (upsert_values ups) [] db = Inr (returned, db')"
      "alerts_ok db'" "same_rest db db'"
      "map returned_alert (alerts db') = map returned_alert (alerts db) @ map fst (filter snd returned)"
      "prefix (map without_rules (alerts db)) (map without_rules (alerts db'))"
      "\<forall>k. alert_rules db' k = alert_rules db k \<union> upsert_rules ups k"
      using insert_on_conflict_spec [OF ok v(1) v(3), where touched = "[]" and now = now] unfolding v(4) by auto
    have "createForEntryWithRules parseURL now m db = Inr (\<lparr>created = map fst (filter snd returned),
        ruleSetExtended = map fst (filter (\<lambda>r. \<not> snd r) returned)\<rparr>, db')"
      using False r(1) by (auto simp: createForEntryWithRules_def Let_def ids_def es_def ups_def)
    then show ?thesis using r spec(2) by auto
  qed
qed


section \<open>What the repository never undoes\<close>

text \<open>\<open>progress a a'\<close>: \<open>a'\<close> is a later state of the alert \<open>a\<close>.\<close>

definition progress :: "alert \<Rightarrow> alert \<Rightarrow> bool" where
  "progress a a' \<longleftrightarrow>
     alert_id a' = alert_id a \<and> alert_key a' = alert_key a
     \<and> set (matched_rules a) \<subseteq> set (matched_rules a')
     \<and> (\<forall>ch. status_of ch a = ChSent \<longrightarrow> status_of ch a' = ChSent)
     \<and> (sent a \<longrightarrow> sent a') \<and> (\<forall>t. sent_at a = Some t \<longrightarrow> sent_at a' = Some t)
     \<and> delivery_attempts a \<le> delivery_attempts a'"

lemma progress_refl [intro, simp]: "progress a a"
  by (simp add: progress_def)

lemma progress_trans: "progress a b \<Longrightarrow> progress b c \<Longrightarrow> progress a c"
  by (fastforce simp: progress_def)

lemma status_of_simps [simp]:
  "status_of ch (a\<lparr>delivery_status := x\<rparr>) = status_of ch a"
  "status_of ch (a\<lparr>last_attempt_at := y\<rparr>) = status_of ch a"
  "status_of ch (a\<lparr>last_error := z\<rparr>) = status_of ch a"
  "status_of ch (a\<lparr>last_queued_at := y\<rparr>) = status_of ch a"
  "status_of ch (a\<lparr>sent := b\<rparr>) = status_of ch a"
  "status_of ch (a\<lparr>sent_at := y\<rparr>) = status_of ch a"
  "status_of ch (a\<lparr>delivery_attempts := n\<rparr>) = status_of ch a"
  "status_of ch (a\<lparr>matched_rules := rs\<rparr>) = status_of ch a"
  by (cases ch; simp)+

lemma alert_key_simps [simp]:
  "alert_key (a\<lparr>delivery_status := x\<rparr>) = alert_key a"
  "alert_key (a\<lparr>last_attempt_at := y\<rparr>) = alert_key a"
  "alert_key (a\<lparr>last_error := z\<rparr>) = alert_key a"
  "alert_key (a\<lparr>last_queued_at := y\<rparr>) = alert_key a"
  "alert_key (a\<lparr>sent := b\<rparr>) = alert_key a"
  "alert_key (a\<lparr>sent_at := y\<rparr>) = alert_key a"
  "alert_key (a\<lparr>delivery_attempts := n\<rparr>) = alert_key a"
  "alert_key (a\<lparr>matched_rules := rs\<rparr>) = alert_key a"
  by (simp_all add: alert_key_def)

lemma set_channel_sent_at [simp]: "sent_at (set_channel ch s a) = sent_at a"
  by (cases ch) simp_all

lemma progress_rows [intro, simp]:
  "progress a (queued_row now a)" "progress a (disabled_row now a)" "progress a (sent_row now n a)"
  "progress a (failure_row now n err w a)" "progress a (delivered_row now ch a)"
  "progress a (failed_row now ch a)" "progress a (retry_row now n a)" "progress a (extend_rules rs a)"
  by (auto simp: progress_def row_simps)

lemma matched_rules_rows [simp]:
  "matched_rules (queued_row now a) = matched_rules a" "matched_rules (disabled_row now a) = matched_rules a"
  "matched_rules (sent_row now n a) = matched_rules a" "matched_rules (failure_row now n err w a) = matched_rules a"
  "matched_rules (delivered_row now ch a) = matched_rules a" "matched_rules (failed_row now ch a) = matched_rules a"
  "matched_rules (retry_row now n a) = matched_rules a"
  by (simp_all add: row_simps)

text \<open>The contract of one operation on the alerts table: nothing is lost, the invariant stays.\<close>

definition keeps_alerts :: "alert_db \<Rightarrow> alert_db \<Rightarrow> bool" where
  "keeps_alerts db db' \<longleftrightarrow>
     (\<forall>a \<in> set (alerts db). \<exists>a' \<in> set (alerts db'). progress a a')
     \<and> (alerts_ok db \<longrightarrow> alerts_ok db')"

lemma keeps_alerts_trans: "keeps_alerts a b \<Longrightarrow> keeps_alerts b c \<Longrightarrow> keeps_alerts a c"
  unfolding keeps_alerts_def using progress_trans by meson

lemma keeps_alerts_refl [intro, simp]: "keeps_alerts db db"
  by (auto simp: keeps_alerts_def)

lemma progress_same_keys:
  assumes "\<And>a. progress a (f a)"
  shows "map alert_id (sql_update p f xs) = map alert_id xs" "map alert_key (sql_update p f xs) = map alert_key xs"
  using assms by (induction xs) (auto simp: row_simps progress_def)

lemma keeps_alerts_update:
  assumes p: "\<And>a. progress a (f a)" and m: "\<And>a. matched_rules (f a) = matched_rules a"
    and db': "alerts db' = sql_update q f (alerts db)" "next_alert db' = next_alert db"
  shows "keeps_alerts db db'"
proof -
  have "\<exists>a' \<in> set (alerts db'). progress a a'" if "a \<in> set (alerts db)" for a
    using that p by (intro bexI [of _ "if q a then f a else a"]) (auto simp: db' in_sql_update)
  moreover have "alert_id (if b then f a else a) = alert_id a" "matched_rules (if b then f a else a) = matched_rules a"
    for a b using p [of a] m [of a] by (simp_all add: progress_def)
  then have "alerts_ok db'" if "alerts_ok db"
    using that by (auto simp only: alerts_ok_def db' progress_same_keys [OF p] in_sql_update)
  ultimately show ?thesis by (auto simp: keeps_alerts_def)
qed

lemma keeps_alerts_update_alert:
  assumes "\<And>a. progress a (f a)" and "\<And>a. matched_rules (f a) = matched_rules a"
  shows "keeps_alerts db (update_alert i f db)"
  by (rule keeps_alerts_update [OF assms]) (simp_all add: update_alert_def)

lemma keeps_alerts_same: "alerts db' = alerts db \<Longrightarrow> next_alert db' = next_alert db \<Longrightarrow> keeps_alerts db db'"
  by (auto simp: keeps_alerts_def alerts_ok_def)

lemma queue_items_same:
  "alerts (queueTelegramDigestItems now i t cs db) = alerts db
   \<and> next_alert (queueTelegramDigestItems now i t cs db) = next_alert db
   \<and> entries (queueTelegramDigestItems now i t cs db) = entries db"
  unfolding queueTelegramDigestItems_def
  by (induction cs arbitrary: db) (simp_all add: queue_item_def)

lemma mark_items_same:
  "alerts (foldl (\<lambda>d item. mark_item now (fst item) d) db items) = alerts db
   \<and> next_alert (foldl (\<lambda>d item. mark_item now (fst item) d) db items) = next_alert db
   \<and> entries (foldl (\<lambda>d item. mark_item now (fst item) d) db items) = entries db"
  by (induction items arbitrary: db) (simp_all add: mark_item_def)

lemma converge_alert_keeps:
  "keeps_alerts db (fst (converge_alert now i db)) \<and> entries (fst (converge_alert now i db)) = entries db
   \<and> digest_items (fst (converge_alert now i db)) = digest_items db"
proof -
  have "keeps_alerts db (fst (converge_alert now i db))"
    by (rule keeps_alerts_update [where f = "delivered_row now Telegram"
        and q = "\<lambda>a. alert_id a = i \<and> telegram_status a \<noteq> ChSent \<and> \<not> unsent_items_of (alert_id a) db"])
      (simp_all add: converge_alert_def Let_def)
  then show ?thesis by (simp add: converge_alert_def Let_def)
qed

lemma converge_alerts_keeps:
  "keeps_alerts db (fst (converge_alerts now al db)) \<and> entries (fst (converge_alerts now al db)) = entries db
   \<and> digest_items (fst (converge_alerts now al db)) = digest_items db"
proof (induction al arbitrary: db)
  case (Cons i al)
  show ?case
    using converge_alert_keeps [of db now i] Cons.IH [of "fst (converge_alert now i db)"] keeps_alerts_trans
    by (auto split: prod.splits)
qed simp

lemma group_sent_keeps: "keeps_alerts db (fst (markTelegramDigestGroupSent now items db))"
  and group_sent_entries: "entries (fst (markTelegramDigestGroupSent now items db)) = entries db"
  using converge_alerts_keeps mark_items_same [of now db items] keeps_alerts_same keeps_alerts_trans
  by (auto simp: markTelegramDigestGroupSent_def; blast)+

lemma reconcile_keeps: "keeps_alerts db (fst (reconcileTelegramDigestDeliveryStatus now db))"
  by (rule keeps_alerts_update [where f = "delivered_row now Telegram"
      and q = "\<lambda>a. telegram_status a = ChPending
        \<and> (\<exists>d \<in> set (digest_items db). item_alert d = alert_id a \<and> item_sent_at d \<noteq> None)
        \<and> \<not> unsent_items_of (alert_id a) db"])
    (simp_all add: reconcileTelegramDigestDeliveryStatus_def Let_def)

lemma without_rules_eq: "without_rules a' = without_rules a \<Longrightarrow> a' = a\<lparr>matched_rules := matched_rules a'\<rparr>"
  by (cases a; cases a') (simp add: without_rules_def)

lemma create_keeps:
  assumes ok: "alerts_ok db" and free: "\<forall>e \<in> set (entries db). unit_separator \<notin> set (entry_tenant e)"
    and run: "createForEntryWithRules parseURL now m db = Inr (out, db')"
  shows "keeps_alerts db db'"
proof -
  obtain r: "alerts_ok db'" "prefix (map without_rules (alerts db)) (map without_rules (alerts db'))"
    "\<forall>k. alert_rules db k \<subseteq> alert_rules db' k"
    using createForEntryWithRules_spec [OF ok free, of parseURL now m] run by auto
  have "\<exists>a' \<in> set (alerts db'). progress a a'" if a: "a \<in> set (alerts db)" for a
  proof -
    from r(2) a obtain a' where a': "a' \<in> set (alerts db')" "without_rules a' = without_rules a"
      by (fastforce dest: set_mono_prefix)
    from a'(2) have eq: "a' = a\<lparr>matched_rules := matched_rules a'\<rparr>" by (rule without_rules_eq)
    have k: "alert_key a' = alert_key a" by (subst eq) simp
    have "row_by alert_key (alert_key a) (alerts db) = Some a" "row_by alert_key (alert_key a) (alerts db') = Some a'"
      using row_by_distinct [of alert_key] ok r(1) a a'(1) k by (metis alerts_ok_def)+
    then have "set (matched_rules a) \<subseteq> set (matched_rules a')"
      using r(3) [THEN spec, of "alert_key a"] by (simp add: alert_rules_def)
    then have "progress a a'" by (subst eq) (simp add: progress_def)
    with a' show ?thesis by blast
  qed
  with r(1) show ?thesis by (simp add: keeps_alerts_def)
qed


section \<open>Histories of the repository\<close>

text \<open>
  One operation of the repository. The other writers of the database (the repositories of the entries
  and of the rules) may replace those tables in between; \<open>entries_free\<close> is what the code relies on.
\<close>

definition entries_free :: "entry list \<Rightarrow> bool" where
  "entries_free es \<longleftrightarrow> (\<forall>e \<in> set es. unit_separator \<notin> set (entry_tenant e))"

inductive alert_op :: "alert_db \<Rightarrow> alert_db \<Rightarrow> bool" where
  create: "createForEntryWithRules parseURL now m db = Inr (out, db') \<Longrightarrow> alert_op db db'"
| queued: "alert_op db (markDeliveryQueued now i db)"
| disabled: "alert_op db (markDeliveryDisabled now i db)"
| sent: "markSent now i n db = (db', found) \<Longrightarrow> alert_op db db'"
| failure: "alert_op db (markDeliveryFailure now i n err willRetry db)"
| channel_delivered: "markChannelDelivered now i ch db = Inr db' \<Longrightarrow> alert_op db db'"
| channel_failed: "markChannelFailed now i ch db = Inr db' \<Longrightarrow> alert_op db db'"
| retry: "alert_op db (markDeliveryRetryPending now i n db)"
| queue_items: "alert_op db (queueTelegramDigestItems now i tenant chats db)"
| group_sent: "markTelegramDigestGroupSent now items db = (db', ids) \<Longrightarrow> alert_op db db'"
| reconcile: "reconcileTelegramDigestDeliveryStatus now db = (db', ids) \<Longrightarrow> alert_op db db'"
| other_tables: "entries_free es \<Longrightarrow> alert_op db (db\<lparr>entries := es, next_entry := n, rules := rs\<rparr>)"

inductive_cases alert_opE: "alert_op db db'"

lemma update_alert_entries [simp]: "entries (update_alert i f db) = entries db"
  by (simp add: update_alert_def)

lemma create_entries: "createForEntryWithRules parseURL now m db = Inr (out, db') \<Longrightarrow>
  alerts_ok db \<Longrightarrow> entries_free (entries db) \<Longrightarrow> entries db' = entries db"
  using createForEntryWithRules_spec [of db parseURL now m] by (auto simp: entries_free_def same_rest_def)

lemmas mark_defs = markDeliveryQueued_def markDeliveryDisabled_def markSent_def markDeliveryFailure_def
  markChannelDelivered_def markChannelFailed_def markDeliveryRetryPending_def

lemma alert_op_keeps:
  assumes "alert_op db db'" and "alerts_ok db" and "entries_free (entries db)"
  shows "keeps_alerts db db' \<and> entries_free (entries db')"
  using assms
proof (induction rule: alert_op.induct)
  case (create parseURL now m db out db')
  then show ?case using create_keeps [of db parseURL now m] create_entries by (auto simp: entries_free_def)
next
  case (group_sent now items db db' ids)
  then show ?case using group_sent_keeps [of db now items] group_sent_entries [of now items db] by simp
next
  case (reconcile now db db' ids)
  then show ?case
    using reconcile_keeps [of db now] by (auto simp: reconcileTelegramDigestDeliveryStatus_def Let_def)
next
  case (queue_items db now i tenant chats)
  then show ?case using queue_items_same keeps_alerts_same by simp
next
  case (other_tables es db n rs)
  then show ?case using keeps_alerts_same by simp
qed (auto simp: mark_defs intro!: keeps_alerts_update_alert split: sum.splits)

lemma history_keeps:
  assumes "alert_op\<^sup>*\<^sup>* db db'" and "alerts_ok db" and "entries_free (entries db)"
  shows "keeps_alerts db db' \<and> entries_free (entries db')"
  using assms
proof (induction rule: rtranclp_induct)
  case (step b c)
  then have b: "keeps_alerts db b" "entries_free (entries b)" by blast+
  then have "alerts_ok b" using step.prems(1) by (simp add: keeps_alerts_def)
  with alert_op_keeps [OF step.hyps(2)] b show ?case using keeps_alerts_trans by blast
qed simp

section \<open>Flushing a digest group\<close>

lemma unsent_mark_item:
  "unsent_items_of a (mark_item now i db) \<longleftrightarrow>
     (\<exists>d \<in> set (digest_items db). item_alert d = a \<and> item_sent_at d = None \<and> item_id d \<noteq> i)"
proof
  assume "unsent_items_of a (mark_item now i db)"
  then obtain d where d: "d \<in> set (digest_items db)"
    "item_alert (if item_id d = i then item_sent_row now d else d) = a"
    "item_sent_at (if item_id d = i then item_sent_row now d else d) = None"
    by (auto simp: unsent_items_of_def mark_item_def in_sql_update)
  then have "item_id d \<noteq> i" by (auto simp: item_sent_row_def split: if_splits)
  with d show "\<exists>d \<in> set (digest_items db). item_alert d = a \<and> item_sent_at d = None \<and> item_id d \<noteq> i"
    by auto
next
  assume "\<exists>d \<in> set (digest_items db). item_alert d = a \<and> item_sent_at d = None \<and> item_id d \<noteq> i"
  then show "unsent_items_of a (mark_item now i db)"
    by (auto simp: unsent_items_of_def mark_item_def in_sql_update intro!: bexI exI split: if_splits)
qed

lemma converge_alert_status:
  assumes "converge_alert now i db = (db', ids)"
  shows "\<forall>a \<in> set (alerts db'). alert_id a = i \<longrightarrow> telegram_status a = ChSent \<or> unsent_items_of i db'"
    and "set ids \<subseteq> {i}" and "\<forall>j \<in> set ids. \<not> unsent_items_of j db'"
    and "\<forall>a \<in> set (alerts db'). \<forall>j \<in> set ids. alert_id a = j \<longrightarrow> telegram_status a = ChSent"
proof -
  have u: "unsent_items_of j db' = unsent_items_of j db" for j
    using assms by (auto simp: converge_alert_def Let_def unsent_items_of_def)
  have a: "alerts db' = sql_update (\<lambda>a. alert_id a = i \<and> telegram_status a \<noteq> ChSent
      \<and> \<not> unsent_items_of (alert_id a) db) (delivered_row now Telegram) (alerts db)"
    using assms by (auto simp: converge_alert_def Let_def)
  have ids: "ids = map alert_id (take 1 (sql_returning (\<lambda>a. alert_id a = i \<and> telegram_status a \<noteq> ChSent
      \<and> \<not> unsent_items_of (alert_id a) db) (delivered_row now Telegram) (alerts db)))"
    using assms by (auto simp: converge_alert_def Let_def)
  have ids': "set ids \<subseteq> alert_id ` set (sql_returning (\<lambda>a. alert_id a = i \<and> telegram_status a \<noteq> ChSent
      \<and> \<not> unsent_items_of (alert_id a) db) (delivered_row now Telegram) (alerts db))"
    unfolding ids by (auto dest: in_set_takeD)
  then have sub: "j = i \<and> \<not> unsent_items_of i db" if "j \<in> set ids" for j
    using that by (auto simp: sql_returning_def row_simps)
  then show "set ids \<subseteq> {i}" and "\<forall>j \<in> set ids. \<not> unsent_items_of j db'"
    by (auto simp: u)
  have st: "telegram_status (delivered_row now Telegram x) = ChSent"
    "alert_id (delivered_row now Telegram x) = alert_id x" for x
    by (simp_all add: row_simps)
  show 1: "\<forall>a \<in> set (alerts db'). alert_id a = i \<longrightarrow> telegram_status a = ChSent \<or> unsent_items_of i db'"
  proof (intro ballI impI)
    fix x assume x: "x \<in> set (alerts db')" "alert_id x = i"
    define C :: "alert \<Rightarrow> bool" where "C = (\<lambda>a. alert_id a = i \<and> telegram_status a \<noteq> ChSent \<and> \<not> unsent_items_of (alert_id a) db)"
    obtain r where r: "x = (if C r then delivered_row now Telegram r else r)"
      using x(1) by (auto simp: a in_sql_update C_def)
    show "telegram_status x = ChSent \<or> unsent_items_of i db'"
    proof (cases "C r")
      case True
      then show ?thesis using r st by simp
    next
      case False
      then have "x = r" using r by simp
      then show ?thesis using False x(2) u by (auto simp: C_def)
    qed
  qed
  show "\<forall>a \<in> set (alerts db'). \<forall>j \<in> set ids. alert_id a = j \<longrightarrow> telegram_status a = ChSent"
    using 1 sub u by blast
qed

text \<open>Backwards: every row after the convergence was a row before it, with a weaker status.\<close>

lemma converge_alert_origin:
  assumes "a' \<in> set (alerts (fst (converge_alert now i db)))"
  shows "\<exists>a \<in> set (alerts db). alert_id a' = alert_id a \<and> (telegram_status a = ChSent \<longrightarrow> telegram_status a' = ChSent)"
  using assms by (auto simp: converge_alert_def Let_def in_sql_update row_simps)

lemma converge_alerts_origin:
  assumes "a' \<in> set (alerts (fst (converge_alerts now al db)))"
  shows "\<exists>a \<in> set (alerts db). alert_id a' = alert_id a \<and> (telegram_status a = ChSent \<longrightarrow> telegram_status a' = ChSent)"
  using assms
proof (induction al arbitrary: db)
  case (Cons i al)
  then have "a' \<in> set (alerts (fst (converge_alerts now al (fst (converge_alert now i db)))))"
    by (auto split: prod.splits)
  with Cons.IH obtain b where b: "b \<in> set (alerts (fst (converge_alert now i db)))" "alert_id a' = alert_id b"
    "telegram_status b = ChSent \<longrightarrow> telegram_status a' = ChSent" by blast
  with converge_alert_origin [OF b(1)] show ?case by auto
qed auto

lemma converge_alerts_status:
  assumes "converge_alerts now al db = (db', ids)"
  shows "(\<forall>a \<in> set (alerts db'). alert_id a \<in> set al \<longrightarrow> telegram_status a = ChSent \<or> unsent_items_of (alert_id a) db')
    \<and> (\<forall>j \<in> set ids. \<not> unsent_items_of j db')"
  using assms
proof (induction al arbitrary: db ids)
  case (Cons i al)
  obtain db1 ids1 where one: "converge_alert now i db = (db1, ids1)" by fastforce
  obtain ids2 where rest: "converge_alerts now al db1 = (db', ids2)" "ids = ids1 @ ids2"
    using Cons.prems one by (auto split: prod.splits)
  have du: "unsent_items_of j db' = unsent_items_of j db1" for j
    using converge_alerts_keeps [of db1 now al] rest(1) by (simp add: unsent_items_of_def)
  note c = converge_alert_status [OF one]
  note ih = Cons.IH [OF rest(1)]
  have "telegram_status a' = ChSent \<or> unsent_items_of i db'" if a': "a' \<in> set (alerts db')" "alert_id a' = i" for a'
  proof -
    have len: "\<exists>a \<in> set (alerts db1). alert_id a = i \<and> (telegram_status a = ChSent \<longrightarrow> telegram_status a' = ChSent)"
      using converge_alerts_origin [where a' = a' and now = now and db = db1 and al = al] a' rest(1) by auto
    then show ?thesis using c(1) du by blast
  qed
  then show ?case using ih c(3) du rest(2) by auto
qed simp


lemma marked_items_sent:
  "\<forall>d \<in> set (digest_items (foldl (\<lambda>d item. mark_item now (fst item) d) db items)).
     item_id d \<in> set (map fst items) \<longrightarrow> item_sent_at d \<noteq> None"
proof (induction items rule: rev_induct)
  case (snoc item items)
  let ?m = "foldl (\<lambda>d item. mark_item now (fst item) d) db items"
  show ?case
  proof (intro ballI impI)
    fix d
    assume d: "d \<in> set (digest_items (foldl (\<lambda>d item. mark_item now (fst item) d) db (items @ [item])))"
      and i: "item_id d \<in> set (map fst (items @ [item]))"
    from d obtain c where c: "c \<in> set (digest_items ?m)"
      "d = (if item_id c = fst item then item_sent_row now c else c)"
      by (auto simp: mark_item_def in_sql_update)
    have "item_id d = item_id c" using c(2) item_flushed.key_kept [of now c] by simp
    with i c snoc show "item_sent_at d \<noteq> None"
      by (cases "item_id c = fst item") (auto simp: item_sent_row_def)
  qed
qed simp

section \<open>Properties\<close>


definition sample_entry :: "nat \<Rightarrow> string option \<Rightarrow> entry" where
  "sample_entry i link = \<lparr>entry_id = i, entry_tenant = ''acme'', entry_feed = 1, entry_title = None,
     entry_link = link, entry_guid = None, entry_content = None, content_hash = dec i,
     normalized_search_document = [], published_at = None, fetched_at = 0\<rparr>"

definition sample_db :: alert_db where
  "sample_db = \<lparr>alerts = [new_alert 1 0 ''acme'' 3 4 [4] None], next_alert = 2, digest_items = [], next_item = 1,
     entries = [sample_entry 1 (Some ''http://N.example/a//b/''),
                sample_entry 2 (Some ''http://N.example/a//b/?utm_source=x''), sample_entry 3 None],
     next_entry = 4, rules = []\<rparr>"

lemma sample_db_ok: "alerts_ok sample_db" "entries_free (entries sample_db)"
  by (simp_all add: alerts_ok_def sample_db_def new_alert_def entries_free_def sample_entry_def unit_separator_def)

lemma sample_entry_id [simp]: "entry_id (sample_entry i l) = i"
  by (simp add: sample_entry_def)


text \<open>
  Replaying a batch creates no alert and leaves the alerts table as it is: an article whose alert
  exists is never reported for delivery again.
\<close>

theorem alert_upsert_rerun:
  assumes "alerts_ok db" and "entries_free (entries db)"
    and "createForEntryWithRules parseURL now m db = Inr (out, db')"
  shows "\<exists>out' db''. createForEntryWithRules parseURL later m db' = Inr (out', db'')
    \<and> created out' = [] \<and> alerts db'' = alerts db'"
proof -
  let ?R = "\<lambda>k. \<Union>e \<in> {e \<in> set (entries db). link_key parseURL e = k}. matched_by m e"
  have free: "\<forall>e \<in> set (entries db). unit_separator \<notin> set (entry_tenant e)"
    using assms(2) by (simp add: entries_free_def)
  have one: "alerts_ok db'" "entries db' = entries db" "\<forall>k. alert_rules db' k = alert_rules db k \<union> ?R k"
    using createForEntryWithRules_spec [OF assms(1) free, of parseURL now m] assms(3)
    by (auto simp: same_rest_def)
  obtain out' db'' where two: "createForEntryWithRules parseURL later m db' = Inr (out', db'')" "alerts_ok db''"
    "map returned_alert (alerts db'') = map returned_alert (alerts db') @ created out'"
    "prefix (map without_rules (alerts db')) (map without_rules (alerts db''))"
    "\<forall>k. alert_rules db'' k = alert_rules db' k"
    using createForEntryWithRules_spec [OF one(1), of parseURL later m] free one(2,3) by auto
  have keys: "alert_key ` set (alerts db) = {k. alert_rules db k \<noteq> {}}" if "alerts_ok db" for db
  proof -
    have "alert_rules db (alert_key a) \<noteq> {}" if "a \<in> set (alerts db)" for a
      using row_by_distinct [of alert_key "alerts db" a] that \<open>alerts_ok db\<close> by (simp add: alerts_ok_def alert_rules_def)
    moreover have "k \<in> alert_key ` set (alerts db)" if "alert_rules db k \<noteq> {}" for k
      using that by (auto simp: alert_rules_def split: option.splits dest: row_by_SomeD)
    ultimately show ?thesis by blast
  qed
  have "length (alerts db'') = card (alert_key ` set (alerts db''))"
    "length (alerts db') = card (alert_key ` set (alerts db'))"
    using one(1) two(2) distinct_card [of "map alert_key (alerts db'')"] distinct_card [of "map alert_key (alerts db')"]
    by (simp_all add: alerts_ok_def)
  then have len: "length (alerts db'') = length (alerts db')"
    using keys [OF one(1)] keys [OF two(2)] two(5) by simp
  have "length (created out') = 0"
    using arg_cong [OF two(3), of length] len by simp
  moreover have "alerts db'' = alerts db'"
  proof (rule nth_equalityI [OF len])
    fix i assume i: "i < length (alerts db'')"
    let ?a = "alerts db' ! i" and ?b = "alerts db'' ! i"
    have "map without_rules (alerts db'') = map without_rules (alerts db')"
    proof -
      obtain zs where zs: "map without_rules (alerts db'') = map without_rules (alerts db') @ zs"
        using two(4) by (auto simp: prefix_def)
      have "length zs = 0" using arg_cong [OF zs, of length] len by simp
      with zs show ?thesis by simp
    qed
    then have "without_rules ?b = without_rules ?a" using i len by (metis length_map nth_map)
    then have eq: "?b = ?a\<lparr>matched_rules := matched_rules ?b\<rparr>" by (rule without_rules_eq)
    then have "alert_key ?b = alert_key ?a" by (metis alert_key_simps(8))
    then have "set (matched_rules ?b) = set (matched_rules ?a)"
      using two(5) [THEN spec, of "alert_key ?a"] row_by_distinct [of alert_key "alerts db'" ?a]
        row_by_distinct [of alert_key "alerts db''" ?b] one(1) two(2) i len
      by (simp add: alerts_ok_def alert_rules_def)
    moreover have "sorted (matched_rules ?b)" "distinct (matched_rules ?b)"
      "sorted (matched_rules ?a)" "distinct (matched_rules ?a)"
      using one(1) two(2) i len by (auto simp: alerts_ok_def)
    ultimately have "matched_rules ?b = matched_rules ?a" using sorted_distinct_set_unique by blast
    with eq show "?b = ?a" by simp
  qed
  ultimately show ?thesis using two(1) by auto
qed

lemma alert_upsert_rerun_witness:
  "\<exists>out db' out' db''. createForEntryWithRules news_parser 1000 [(1, [7, 2]), (2, [5])] sample_db = Inr (out, db')
     \<and> createForEntryWithRules news_parser 2000 [(1, [7, 2]), (2, [5])] db' = Inr (out', db'')
     \<and> length (created out) = 1 \<and> created out' = [] \<and> alerts db'' = alerts db'"
proof -
  let ?run = "createForEntryWithRules news_parser 1000 [(1, [7, 2]), (2, [5])] sample_db"
  have "case ?run of Inl _ \<Rightarrow> False | Inr (out, db') \<Rightarrow> length (created out) = 1" by code_simp
  then obtain out db' where run: "?run = Inr (out, db')" "length (created out) = 1" by (auto split: sum.splits)
  show ?thesis using alert_upsert_rerun [OF sample_db_ok run(1), of 2000] run by blast
qed


text \<open>
  C9: Over any sequence of repository operations no alert is lost or duplicated, a channel marked sent
  stays sent, the sent flag and its first timestamp stay, the attempt counter never decreases and the
  matched rules only grow.
\<close>

theorem alert_history_monotone:
  assumes "alert_op\<^sup>*\<^sup>* db db'" and "alerts_ok db" and "entries_free (entries db)" and "a \<in> set (alerts db)"
  shows "(\<exists>!a'. a' \<in> set (alerts db') \<and> alert_id a' = alert_id a)
    \<and> (\<exists>a' \<in> set (alerts db'). alert_id a' = alert_id a \<and> alert_key a' = alert_key a
      \<and> set (matched_rules a) \<subseteq> set (matched_rules a')
      \<and> (\<forall>ch. status_of ch a = ChSent \<longrightarrow> status_of ch a' = ChSent)
      \<and> (sent a \<longrightarrow> sent a') \<and> (\<forall>t. sent_at a = Some t \<longrightarrow> sent_at a' = Some t)
      \<and> delivery_attempts a \<le> delivery_attempts a')"
proof -
  from history_keeps [OF assms(1-3)] have k: "alerts_ok db'" "\<exists>a' \<in> set (alerts db'). progress a a'"
    using assms(2,4) by (auto simp: keeps_alerts_def)
  then have 2: "\<exists>a' \<in> set (alerts db'). alert_id a' = alert_id a \<and> alert_key a' = alert_key a
      \<and> set (matched_rules a) \<subseteq> set (matched_rules a')
      \<and> (\<forall>ch. status_of ch a = ChSent \<longrightarrow> status_of ch a' = ChSent)
      \<and> (sent a \<longrightarrow> sent a') \<and> (\<forall>t. sent_at a = Some t \<longrightarrow> sent_at a' = Some t)
      \<and> delivery_attempts a \<le> delivery_attempts a'"
    unfolding progress_def by blast
  have "x = y" if "x \<in> set (alerts db')" "y \<in> set (alerts db')" "alert_id x = alert_id y" for x y
    using that k(1) row_by_distinct [of alert_id "alerts db'"] by (metis alerts_ok_def option.inject)
  with 2 have "\<exists>!a'. a' \<in> set (alerts db') \<and> alert_id a' = alert_id a" by metis
  with 2 show ?thesis by blast
qed
lemma alert_history_monotone_witness:
  "\<exists>db1. markChannelDelivered 20 1 ''email'' sample_db = Inr db1
     \<and> (\<exists>a \<in> set (alerts db1). status_of Email a = ChSent
          \<and> (\<exists>a' \<in> set (alerts (markDeliveryFailure 30 1 2 ''smtp'' True db1)).
               alert_id a' = 1 \<and> (\<forall>ch. status_of ch a = ChSent \<longrightarrow> status_of ch a' = ChSent)))"
proof -
  define a where "a = delivered_row 20 Email (new_alert 1 0 ''acme'' 3 4 [4] None)"
  define db1 where "db1 = sample_db\<lparr>alerts := [a]\<rparr>"
  have run: "markChannelDelivered 20 1 ''email'' sample_db = Inr db1"
    by (simp add: markChannelDelivered_def deliveryStatusColumn_def CHANNEL_DELIVERY_STATUS_COLUMNS_def
        update_alert_def sample_db_def row_simps db1_def a_def new_alert_def)
  have a: "a \<in> set (alerts db1)" "status_of Email a = ChSent" "alert_id a = 1"
    by (simp_all add: db1_def a_def row_simps new_alert_def)
  have ok: "alerts_ok db1" "entries_free (entries db1)"
    using alert_op_keeps [OF alert_op.channel_delivered [OF run] sample_db_ok] sample_db_ok
    by (simp_all add: keeps_alerts_def)
  have step: "alert_op\<^sup>*\<^sup>* db1 (markDeliveryFailure 30 1 2 ''smtp'' True db1)"
    by (rule r_into_rtranclp) (rule alert_op.failure)
  obtain a' where "a' \<in> set (alerts (markDeliveryFailure 30 1 2 ''smtp'' True db1))" "alert_id a' = alert_id a"
    "\<forall>ch. status_of ch a = ChSent \<longrightarrow> status_of ch a' = ChSent"
    using alert_history_monotone [OF step ok a(1)] by blast
  with run a show ?thesis by (intro exI [of _ db1] conjI bexI [of _ a] bexI [of _ a']) simp_all
qed

text \<open>
  Flushing a digest group marks the Telegram channel of each alert of the group as soon as no
  digest item of that alert is left unsent, and reports only alerts of which none is left: an alert
  fanned out to several chats converges with the last of them.
\<close>

theorem digest_group_converges:
  assumes "markTelegramDigestGroupSent now items db = (db', delivered)" and "items \<noteq> []"
  shows "(\<forall>a \<in> set (alerts db'). alert_id a \<in> set (map snd items) \<longrightarrow>
           telegram_status a = ChSent \<or> (\<exists>d \<in> set (digest_items db'). item_alert d = alert_id a \<and> item_sent_at d = None))
    \<and> (\<forall>i \<in> set delivered. \<forall>d \<in> set (digest_items db'). item_alert d = i \<longrightarrow> item_sent_at d \<noteq> None)
    \<and> (\<forall>d \<in> set (digest_items db'). item_id d \<in> set (map fst items) \<longrightarrow> item_sent_at d \<noteq> None)"
proof -
  let ?m = "foldl (\<lambda>d item. mark_item now (fst item) d) db items"
  have run: "converge_alerts now (foldl set_add [] (map snd items)) ?m = (db', delivered)"
    using assms by (simp add: markTelegramDigestGroupSent_def)
  have ids: "set (foldl set_add [] (map snd items)) = set (map snd items)"
    by (simp add: foldl_set_add)
  have "digest_items db' = digest_items ?m"
    using converge_alerts_keeps [of ?m now "foldl set_add [] (map snd items)"] run by simp
  then have "\<forall>d \<in> set (digest_items db'). item_id d \<in> set (map fst items) \<longrightarrow> item_sent_at d \<noteq> None"
    using marked_items_sent [where now = now and items = items and db = db] by simp
  then show ?thesis
    using converge_alerts_status [OF run] unfolding ids by (auto simp: unsent_items_of_def)
qed

text \<open>One alert of two chats, one of them flushed.\<close>

definition digest_db :: alert_db where
  "digest_db = queue_item 5 1 ''acme'' 6 ''c2'' (queue_item 5 1 ''acme'' 6 ''c1'' sample_db)"

lemma digest_group_converges_witness:
  "\<exists>db1 db2. markTelegramDigestGroupSent 9 [(1, 1)] digest_db = (db1, [])
     \<and> markTelegramDigestGroupSent 9 [(2, 1)] db1 = (db2, [1])
     \<and> (\<forall>d \<in> set (digest_items db2). item_alert d = 1 \<longrightarrow> item_sent_at d \<noteq> None)"
proof -
  have "snd (markTelegramDigestGroupSent 9 [(1, 1)] digest_db) = []"
    "snd (markTelegramDigestGroupSent 9 [(2, 1)] (fst (markTelegramDigestGroupSent 9 [(1, 1)] digest_db))) = [1]"
    by code_simp+
  then obtain db1 db2 where r: "markTelegramDigestGroupSent 9 [(1, 1)] digest_db = (db1, [])"
    "markTelegramDigestGroupSent 9 [(2, 1)] db1 = (db2, [1])"
    by (metis prod.collapse)
  with digest_group_converges [OF r(2)] show ?thesis by auto
qed

end
