(* ===== verification/Rule_Store.thy ===== *)
theory Rule_Store imports Sql_Like Alert_Store Http_Common begin

text \<open>
  The rules table, the class \<open>RulesRepository\<close> of \<open>src/modules/rules/rules.repository.ts\<close>, the use cases
  and the handlers of \<open>rules.controller.ts\<close>. The unique index is \<open>(tenant_id, name)\<close>; a statement that
  breaks it fails with \<open>UniqueViolation\<close>, which nothing catches.
  Theorems: the constraints hold over any sequence of operations, what a batch creates and reports, and
  that an upsert by name replaces exactly one rule.
\<close>

section \<open>The repository\<close>

record rule_db =
  rule_rows :: "rule list"
  next_rule :: nat

record rule_draft =
  rd_name :: string
  rd_include :: "ustr list"
  rd_exclude :: "ustr list"
  rd_active :: bool

record rule_view =
  rw_id :: nat
  rw_name :: string
  rw_include :: "ustr list"
  rw_exclude :: "ustr list"
  rw_active :: bool
  rw_created :: msec
  rw_updated :: msec

datatype rules_error = UniqueViolation

definition mapRule :: "rule \<Rightarrow> rule_view" where
  "mapRule r = \<lparr>rw_id = rule_id r, rw_name = rule_name r, rw_include = includeKeywords r, rw_exclude = excludeKeywords r,
     rw_active = rule_active r, rw_created = rule_created_at r, rw_updated = rule_updated_at r\<rparr>"

definition new_rule :: "nat \<Rightarrow> msec \<Rightarrow> string \<Rightarrow> rule_draft \<Rightarrow> rule" where
  "new_rule i now tenant d =
     \<lparr>includeKeywords = rd_include d, excludeKeywords = rd_exclude d, rule_id = i, rule_tenant = tenant,
      rule_name = rd_name d, rule_active = rd_active d, rule_created_at = now, rule_updated_at = now\<rparr>"

definition named :: "string \<Rightarrow> string \<Rightarrow> rule \<Rightarrow> bool" where
  "named tenant name r \<longleftrightarrow> rule_tenant r = tenant \<and> rule_name r = name"

definition create_rule :: "msec \<Rightarrow> string \<Rightarrow> rule_draft \<Rightarrow> rule_db \<Rightarrow> rule_db \<times> (rules_error + rule_view)" where
  "create_rule now tenant d db =
     (let row = new_rule (next_rule db) now tenant d; db1 = db\<lparr>next_rule := next_rule db + 1\<rparr> in
      if list_ex (named tenant (rd_name d)) (rule_rows db) then (db1, Inl UniqueViolation)
      else (db1\<lparr>rule_rows := rule_rows db @ [row]\<rparr>, Inr (mapRule row)))"

record rule_query =
  rq_rule_tenant :: string
  rq_active :: "bool option"
  rq_query :: "string option"
  rq_page :: nat
  rq_page_size :: nat

definition rule_clause :: "(nat \<Rightarrow> nat) \<Rightarrow> rule_query \<Rightarrow> rule \<Rightarrow> bool" where
  "rule_clause lc q r \<longleftrightarrow>
     rule_tenant r = rq_rule_tenant q
     \<and> (case rq_active q of None \<Rightarrow> True | Some b \<Rightarrow> rule_active r = b)
     \<and> (case rq_query q of None \<Rightarrow> True
        | Some t \<Rightarrow> t = '''' \<or> sql_ilike lc (cps (rule_name r)) (contains_pattern (cps t)))"

definition list_rules :: "(nat \<Rightarrow> nat) \<Rightarrow> rule_query \<Rightarrow> rule_db \<Rightarrow> rule_view list \<times> nat" where
  "list_rules lc q db =
     (map mapRule
        (sql_page (rq_page_size q) ((rq_page q - 1) * rq_page_size q)
           (rev (sort_key rule_created_at (filter (rule_clause lc q) (rule_rows db))))),
      length (filter (rule_clause lc q) (rule_rows db)))"

text \<open>The rows of \<open>listActive\<close>; the matcher reads their keywords and identifiers.\<close>

definition listActive :: "string \<Rightarrow> rule list \<Rightarrow> rule list" where
  "listActive tenant rows = sort_key rule_id (filter (\<lambda>r. rule_tenant r = tenant \<and> rule_active r) rows)"

definition findByName :: "string \<Rightarrow> string \<Rightarrow> rule_db \<Rightarrow> rule_view option" where
  "findByName name tenant db = map_option mapRule (find (named tenant name) (rule_rows db))"

definition upserted_row :: "msec \<Rightarrow> rule_draft \<Rightarrow> rule \<Rightarrow> rule" where
  "upserted_row now d r =
     r\<lparr>includeKeywords := rd_include d, excludeKeywords := rd_exclude d, rule_active := rd_active d,
       rule_updated_at := now\<rparr>"

text \<open>\<open>INSERT .. ON CONFLICT (tenant_id, name) DO UPDATE\<close>: the identifier of the insert is used up either way.\<close>

definition upsertByName :: "msec \<Rightarrow> string \<Rightarrow> rule_draft \<Rightarrow> rule_db \<Rightarrow> rule_db \<times> rule_view" where
  "upsertByName now tenant d db =
     (let row = new_rule (next_rule db) now tenant d; db1 = db\<lparr>next_rule := next_rule db + 1\<rparr> in
      case find (named tenant (rd_name d)) (rule_rows db) of
        None \<Rightarrow> (db1\<lparr>rule_rows := rule_rows db @ [row]\<rparr>, mapRule row)
      | Some old \<Rightarrow>
          (db1\<lparr>rule_rows := sql_update (\<lambda>r. rule_id r = rule_id old) (upserted_row now d) (rule_rows db)\<rparr>,
           mapRule (upserted_row now d old)))"

text \<open>The loop over the drafts: the unique ones, the seen names, the duplicates.\<close>

fun collect_drafts :: "rule_draft list \<Rightarrow> rule_draft list \<Rightarrow> string list \<Rightarrow> string list \<Rightarrow> rule_draft list \<times> string list" where
  "collect_drafts [] uniq seen dups = (uniq, dups)"
| "collect_drafts (d # ds) uniq seen dups =
     (if rd_name d \<in> set seen then
        collect_drafts ds uniq seen (if rd_name d \<in> set dups then dups else dups @ [rd_name d])
      else collect_drafts ds (uniq @ [d]) (seen @ [rd_name d]) dups)"

text \<open>\<open>INSERT .. SELECT .. WHERE existing.id IS NULL ON CONFLICT DO NOTHING\<close>, row by row.\<close>

fun insert_drafts :: "msec \<Rightarrow> string \<Rightarrow> rule_draft list \<Rightarrow> rule_db \<Rightarrow> rule_db \<times> rule list" where
  "insert_drafts now tenant [] db = (db, [])"
| "insert_drafts now tenant (d # ds) db =
     (let row = new_rule (next_rule db) now tenant d; db1 = db\<lparr>next_rule := next_rule db + 1\<rparr> in
      if list_ex (named tenant (rd_name d)) (rule_rows db) then insert_drafts now tenant ds db1
      else (case insert_drafts now tenant ds (db1\<lparr>rule_rows := rule_rows db @ [row]\<rparr>) of
              (db', rows) \<Rightarrow> (db', row # rows)))"

record batch_result =
  batch_created :: "rule_view list"
  skippedNames :: "string list"
  duplicateNames :: "string list"

definition insertIgnoreOnConflict :: "msec \<Rightarrow> rule_draft list \<Rightarrow> string \<Rightarrow> rule_db \<Rightarrow> rule_db \<times> batch_result" where
  "insertIgnoreOnConflict now drafts tenant db =
     (case collect_drafts drafts [] [] [] of
        (uniq, dups) \<Rightarrow>
          if uniq = [] then (db, \<lparr>batch_created = [], skippedNames = [], duplicateNames = dups\<rparr>)
          else (let new = filter (\<lambda>d. \<not> list_ex (named tenant (rd_name d)) (rule_rows db)) uniq in
                case insert_drafts now tenant new db of
                  (db', rows) \<Rightarrow>
                    (let made = map mapRule rows in
                     (db', \<lparr>batch_created = made,
                            skippedNames = filter (\<lambda>n. n \<notin> set (map rw_name made)) (map rd_name uniq),
                            duplicateNames = dups\<rparr>))))"

definition rule_for_tenant :: "nat \<Rightarrow> string \<Rightarrow> rule_db \<Rightarrow> rule_view option" where
  "rule_for_tenant i tenant db =
     map_option mapRule (find (\<lambda>r. rule_tenant r = tenant \<and> rule_id r = i) (rule_rows db))"

record rule_change =
  rc_tenant :: string
  rc_id :: nat
  rc_name :: "string option"
  rc_include :: "ustr list option"
  rc_exclude :: "ustr list option"
  rc_active :: "bool option"

definition changed_rule :: "msec \<Rightarrow> rule_change \<Rightarrow> rule_view \<Rightarrow> rule \<Rightarrow> rule" where
  "changed_rule now c current r =
     r\<lparr>rule_name := opt_else (rc_name c) (rw_name current), includeKeywords := opt_else (rc_include c) (rw_include current),
       excludeKeywords := opt_else (rc_exclude c) (rw_exclude current), rule_active := opt_else (rc_active c) (rw_active current),
       rule_updated_at := now\<rparr>"

definition update_rule :: "msec \<Rightarrow> rule_change \<Rightarrow> rule_db \<Rightarrow> rule_db \<times> (rules_error + rule_view option)" where
  "update_rule now c db =
     (case rule_for_tenant (rc_id c) (rc_tenant c) db of
        None \<Rightarrow> (db, Inr None)
      | Some current \<Rightarrow>
          (let p = (\<lambda>r. rule_id r = rc_id c \<and> rule_tenant r = rc_tenant c); row = changed_rule now c current in
           if list_ex (\<lambda>r. rule_id r \<noteq> rc_id c \<and> named (rc_tenant c) (opt_else (rc_name c) (rw_name current)) r) (rule_rows db)
           then (db, Inl UniqueViolation)
           else (db\<lparr>rule_rows := sql_update p row (rule_rows db)\<rparr>,
                 Inr (case sql_returning p row (rule_rows db) of [] \<Rightarrow> None | r # _ \<Rightarrow> Some (mapRule r)))))"

definition disable_rule :: "msec \<Rightarrow> nat \<Rightarrow> string \<Rightarrow> rule_db \<Rightarrow> rule_db \<times> (rules_error + bool)" where
  "disable_rule now i tenant db =
     (case update_rule now \<lparr>rc_tenant = tenant, rc_id = i, rc_name = None, rc_include = None, rc_exclude = None,
            rc_active = Some False\<rparr> db of
        (db', Inl e) \<Rightarrow> (db', Inl e) | (db', Inr r) \<Rightarrow> (db', Inr (r \<noteq> None)))"

section \<open>Use cases and handlers\<close>

definition CreateRule_execute ::
  "msec \<Rightarrow> string \<Rightarrow> string \<Rightarrow> ustr list \<Rightarrow> ustr list option \<Rightarrow> bool option \<Rightarrow> rule_db \<Rightarrow> rule_db \<times> (rules_error + rule_view)" where
  "CreateRule_execute now tenant name include exclude active =
     create_rule now tenant \<lparr>rd_name = name, rd_include = include, rd_exclude = opt_else exclude [],
       rd_active = opt_else active True\<rparr>"

definition BatchCreateRules_execute :: "msec \<Rightarrow> string \<Rightarrow> rule_draft list \<Rightarrow> rule_db \<Rightarrow> rule_db \<times> batch_result" where
  "BatchCreateRules_execute now tenant drafts = insertIgnoreOnConflict now drafts tenant"

definition GetRule_execute :: "nat \<Rightarrow> string \<Rightarrow> rule_db \<Rightarrow> api_error + rule_view" where
  "GetRule_execute i tenant db =
     (case rule_for_tenant i tenant db of None \<Rightarrow> Inl (NotFound ''rule_not_found'') | Some r \<Rightarrow> Inr r)"

text \<open>A database error that no use case handles.\<close>

definition unhandled :: "rules_error \<Rightarrow> api_error" where
  "unhandled e = Unexpected ''duplicate key value violates unique constraint''"

definition UpdateRule_execute :: "msec \<Rightarrow> rule_change \<Rightarrow> rule_db \<Rightarrow> rule_db \<times> (api_error + rule_view)" where
  "UpdateRule_execute now c db =
     (case update_rule now c db of
        (db', Inl e) \<Rightarrow> (db', Inl (unhandled e))
      | (db', Inr None) \<Rightarrow> (db', Inl (NotFound ''rule_not_found''))
      | (db', Inr (Some r)) \<Rightarrow> (db', Inr r))"

definition DisableRule_execute :: "msec \<Rightarrow> nat \<Rightarrow> string \<Rightarrow> rule_db \<Rightarrow> rule_db \<times> (api_error + unit)" where
  "DisableRule_execute now i tenant db =
     (case disable_rule now i tenant db of
        (db', Inl e) \<Rightarrow> (db', Inl (unhandled e))
      | (db', Inr disabled) \<Rightarrow> (db', if disabled then Inr () else Inl (NotFound ''rule_not_found'')))"

record rule_payload =
  py_name :: string
  py_include :: "ustr list"
  py_exclude :: "ustr list option"
  py_active :: "bool option"

datatype rule_request =
    CreateRule rule_payload
  | BatchCreateRules "rule_payload list"
  | ListRules "bool option" "string option" nat nat
  | GetRule nat
  | UpdateRule nat "string option" "ustr list option" "ustr list option" "bool option"
  | RemoveRule nat

datatype rule_response =
    OneRule "rule_view \<times> api_meta"
  | BatchRules "batch_result \<times> api_meta"
  | RulePage "rule_view list \<times> paginated_meta"
  | RuleNoContent

definition draft_of :: "rule_payload \<Rightarrow> rule_draft" where
  "draft_of p = \<lparr>rd_name = py_name p, rd_include = py_include p, rd_exclude = opt_else (py_exclude p) [],
     rd_active = opt_else (py_active p) True\<rparr>"

definition rules_handle ::
  "(nat \<Rightarrow> nat) \<Rightarrow> msec \<Rightarrow> string \<Rightarrow> request \<Rightarrow> rule_request \<Rightarrow> rule_db \<Rightarrow> rule_db \<times> (api_error + rule_response)" where
  "rules_handle lc now uuid request rq db =
     (case resolveTenantIdFromRequest request of
        Inl err \<Rightarrow> (db, Inl err)
      | Inr t \<Rightarrow>
          (case rq of
             CreateRule p \<Rightarrow>
               (case CreateRule_execute now t (py_name p) (py_include p) (py_exclude p) (py_active p) db of
                  (db', Inl e) \<Rightarrow> (db', Inl (unhandled e))
                | (db', Inr r) \<Rightarrow> (db', Inr (OneRule (successResponse now uuid request r))))
           | BatchCreateRules ps \<Rightarrow>
               (case BatchCreateRules_execute now t (map draft_of ps) db of
                  (db', r) \<Rightarrow> (db', Inr (BatchRules (successResponse now uuid request r))))
           | ListRules active needle page psize \<Rightarrow>
               (case list_rules lc \<lparr>rq_rule_tenant = t, rq_active = active, rq_query = needle, rq_page = page,
                       rq_page_size = psize\<rparr> db of
                  (items, n) \<Rightarrow> (db, Inr (RulePage (paginatedResponse now uuid request items page psize n))))
           | GetRule i \<Rightarrow>
               (case GetRule_execute i t db of
                  Inl e \<Rightarrow> (db, Inl e) | Inr r \<Rightarrow> (db, Inr (OneRule (successResponse now uuid request r))))
           | UpdateRule i name inc exc active \<Rightarrow>
               (case UpdateRule_execute now \<lparr>rc_tenant = t, rc_id = i, rc_name = name, rc_include = inc, rc_exclude = exc,
                       rc_active = active\<rparr> db of
                  (db', Inl e) \<Rightarrow> (db', Inl e)
                | (db', Inr r) \<Rightarrow> (db', Inr (OneRule (successResponse now uuid request r))))
           | RemoveRule i \<Rightarrow>
               (case DisableRule_execute now i t db of
                  (db', Inl e) \<Rightarrow> (db', Inl e) | (db', Inr _) \<Rightarrow> (db', Inr RuleNoContent))))"

section \<open>The constraints of the table\<close>

text \<open>The primary key, the sequence ahead of it, and the unique index on tenant and name.\<close>

definition same_rule :: "rule \<Rightarrow> rule \<Rightarrow> bool" where
  "same_rule r s \<longleftrightarrow> rule_tenant r = rule_tenant s \<and> rule_name r = rule_name s"

definition rules_ok :: "rule_db \<Rightarrow> bool" where
  "rules_ok db \<longleftrightarrow> distinct (map rule_id (rule_rows db)) \<and> (\<forall>r \<in> set (rule_rows db). rule_id r < next_rule db)
     \<and> (\<forall>r \<in> set (rule_rows db). \<forall>s \<in> set (rule_rows db). same_rule r s \<longrightarrow> rule_id r = rule_id s)"

definition rules_of :: "string \<Rightarrow> rule_db \<Rightarrow> rule list" where
  "rules_of t db = filter (\<lambda>r. rule_tenant r = t) (rule_rows db)"

lemma new_rule_fields [simp]:
  "rule_id (new_rule i now t d) = i" "rule_tenant (new_rule i now t d) = t" "rule_name (new_rule i now t d) = rd_name d"
  by (simp_all add: new_rule_def)

interpretation changed_rules: keyed_update rule_id "changed_rule now c v" for now c v
  by unfold_locales (simp add: changed_rule_def)

interpretation upserted_rules: keyed_update rule_id "upserted_row now d" for now d
  by unfold_locales (simp add: upserted_row_def)

lemma skip_id_ok: "rules_ok db \<Longrightarrow> rules_ok (db\<lparr>next_rule := next_rule db + 1\<rparr>)"
  by (auto simp: rules_ok_def less_Suc_eq)

lemma append_ok:
  assumes ok: "rules_ok db" and "\<not> list_ex (named t (rd_name d)) (rule_rows db)"
  shows "rules_ok (db\<lparr>next_rule := next_rule db + 1, rule_rows := rule_rows db @ [new_rule (next_rule db) now t d]\<rparr>)"
proof -
  let ?row = "new_rule (next_rule db) now t d"
  have apart: "\<not> same_rule ?row r \<and> \<not> same_rule r ?row" if "r \<in> set (rule_rows db)" for r
    using assms(2) that by (auto simp: list_ex_iff named_def same_rule_def)
  have fresh: "next_rule db \<notin> rule_id ` set (rule_rows db)" using ok by (auto simp: rules_ok_def)
  show ?thesis
    unfolding rules_ok_def using ok apart fresh
    by (simp add: rules_ok_def) (metis less_SucI)
qed

text \<open>Updating the rows of one identifier, to rows whose name the tenant has nowhere else.\<close>

lemma update_rows_ok:
  assumes ok: "rules_ok db" and p: "\<And>r. p r \<Longrightarrow> rule_id r = i"
    and row: "\<And>r. rule_id (row r) = rule_id r"
    and apart: "\<And>r s. r \<in> set (rule_rows db) \<Longrightarrow> s \<in> set (rule_rows db) \<Longrightarrow> p r \<Longrightarrow> rule_id s \<noteq> i \<Longrightarrow>
      \<not> same_rule (row r) s"
  shows "rules_ok (db\<lparr>rule_rows := sql_update p row (rule_rows db)\<rparr>)"
proof -
  have ids: "map rule_id (sql_update p row (rule_rows db)) = map rule_id (rule_rows db)"
    using row by (simp add: sql_update_def)
  have sym: "same_rule x y = same_rule y x" for x y by (auto simp: same_rule_def)
  have clash: "rule_id r = rule_id s"
    if in_rows: "r \<in> set (rule_rows db)" "s \<in> set (rule_rows db)"
      and eq: "same_rule (if p r then row r else r) (if p s then row s else s)" for r s
  proof (rule ccontr)
    assume ne: "rule_id r \<noteq> rule_id s"
    then consider "p r" "\<not> p s" "rule_id s \<noteq> i" | "\<not> p r" "p s" "rule_id r \<noteq> i" | "\<not> p r" "\<not> p s"
      using p by metis
    then show False
    proof cases
      case 1
      with eq apart [OF in_rows 1(1,3)] show False by simp
    next
      case 2
      with eq sym apart [OF in_rows(2,1) 2(2,3)] show False by simp
    next
      case 3
      with eq ok in_rows ne show False by (simp add: rules_ok_def)
    qed
  qed
  show ?thesis
    unfolding rules_ok_def
  proof (intro conjI ballI impI)
    show "distinct (map rule_id (rule_rows (db\<lparr>rule_rows := sql_update p row (rule_rows db)\<rparr>)))"
      using ok ids by (simp add: rules_ok_def)
  next
    fix r assume "r \<in> set (rule_rows (db\<lparr>rule_rows := sql_update p row (rule_rows db)\<rparr>))"
    then show "rule_id r < next_rule (db\<lparr>rule_rows := sql_update p row (rule_rows db)\<rparr>)"
      using ok row by (auto simp: rules_ok_def in_sql_update)
  next
    fix x y assume "x \<in> set (rule_rows (db\<lparr>rule_rows := sql_update p row (rule_rows db)\<rparr>))"
      "y \<in> set (rule_rows (db\<lparr>rule_rows := sql_update p row (rule_rows db)\<rparr>))" and eq: "same_rule x y"
    then obtain r s where rs: "x = (if p r then row r else r)" "r \<in> set (rule_rows db)"
      "y = (if p s then row s else s)" "s \<in> set (rule_rows db)" by (auto simp: in_sql_update)
    then have "rule_id r = rule_id s" using clash [of r s] eq by simp
    then show "rule_id x = rule_id y" using rs row by simp
  qed
qed

lemma create_rule_ok: "rules_ok db \<Longrightarrow> rules_ok (fst (create_rule now t d db))"
  using skip_id_ok append_ok by (auto simp: create_rule_def Let_def)

lemma update_rule_ok:
  assumes ok: "rules_ok db"
  shows "rules_ok (fst (update_rule now c db))"
proof (cases "rule_for_tenant (rc_id c) (rc_tenant c) db")
  case (Some v)
  let ?row = "changed_rule now c v"
  let ?p = "\<lambda>r. rule_id r = rc_id c \<and> rule_tenant r = rc_tenant c"
  have "rules_ok (db\<lparr>rule_rows := sql_update ?p ?row (rule_rows db)\<rparr>)"
    if free: "\<not> list_ex (\<lambda>r. rule_id r \<noteq> rc_id c \<and> named (rc_tenant c) (opt_else (rc_name c) (rw_name v)) r) (rule_rows db)"
  proof (rule update_rows_ok [OF ok, where i = "rc_id c"])
    fix r s :: rule assume "s \<in> set (rule_rows db)" "?p r" "rule_id s \<noteq> rc_id c"
    then show "\<not> same_rule (?row r) s" using free by (simp add: list_ex_iff same_rule_def named_def changed_rule_def) metis
  qed (simp_all add: changed_rule_def)
  with Some ok show ?thesis by (simp add: update_rule_def Let_def)
qed (simp add: update_rule_def ok)

lemma named_unique:
  "rules_ok db \<Longrightarrow> r \<in> set (rule_rows db) \<Longrightarrow> s \<in> set (rule_rows db) \<Longrightarrow> same_rule r s \<Longrightarrow> r = s"
  unfolding rules_ok_def distinct_map inj_on_def by blast

lemma upsert_rule_ok:
  assumes ok: "rules_ok db"
  shows "rules_ok (fst (upsertByName now t d db))"
proof (cases "find (named t (rd_name d)) (rule_rows db)")
  case None
  then have "\<not> list_ex (named t (rd_name d)) (rule_rows db)" by (simp add: find_None_iff list_ex_iff)
  then show ?thesis using None append_ok [OF ok] by (simp add: upsertByName_def Let_def)
next
  case (Some old)
  let ?db1 = "db\<lparr>next_rule := next_rule db + 1\<rparr>"
  note ok1 = skip_id_ok [OF ok]
  have "rules_ok (?db1\<lparr>rule_rows := sql_update (\<lambda>r. rule_id r = rule_id old) (upserted_row now d) (rule_rows ?db1)\<rparr>)"
  proof (rule update_rows_ok [OF ok1, where i = "rule_id old"])
    fix r s :: rule
    assume "r \<in> set (rule_rows ?db1)" "s \<in> set (rule_rows ?db1)" "rule_id r = rule_id old" "rule_id s \<noteq> rule_id old"
    then have "\<not> same_rule r s" using ok by (fastforce simp: rules_ok_def)
    then show "\<not> same_rule (upserted_row now d r) s" by (simp add: same_rule_def upserted_row_def)
  qed (simp_all add: upserted_row_def)
  then show ?thesis using Some by (simp add: upsertByName_def Let_def)
qed

lemma insert_drafts_ok: "rules_ok db \<Longrightarrow> rules_ok (fst (insert_drafts now t ds db))"
proof (induction ds arbitrary: db)
  case (Cons d ds)
  show ?case
  proof (cases "list_ex (named t (rd_name d)) (rule_rows db)")
    case True
    then show ?thesis using Cons.IH [OF skip_id_ok [OF Cons.prems]] by (simp add: Let_def)
  next
    case False
    then show ?thesis using Cons.IH [OF append_ok [OF Cons.prems False, of now]] by (simp add: Let_def case_prod_beta)
  qed
qed simp

lemma batch_ok: "rules_ok db \<Longrightarrow> rules_ok (fst (insertIgnoreOnConflict now ds t db))"
  using insert_drafts_ok [of db now t]
  by (auto simp: insertIgnoreOnConflict_def Let_def case_prod_beta)

section \<open>Requests\<close>

text \<open>A request of tenant \<open>t\<close> keeps the rules of the others, and the rules it shows are stored rules of \<open>t\<close>.\<close>

definition others_kept :: "string \<Rightarrow> rule_db \<Rightarrow> rule_db \<Rightarrow> bool" where
  "others_kept t db db' \<longleftrightarrow> (\<forall>u. u \<noteq> t \<longrightarrow> rules_of u db' = rules_of u db)"

definition shows_own :: "string \<Rightarrow> rule_db \<Rightarrow> rule_view list \<Rightarrow> bool" where
  "shows_own t db vs \<longleftrightarrow> set vs \<subseteq> mapRule ` set (rules_of t db)"

definition response_rules :: "rule_response \<Rightarrow> rule_view list" where
  "response_rules r =
     (case r of OneRule (v, m) \<Rightarrow> [v] | BatchRules (b, m) \<Rightarrow> batch_created b | RulePage (vs, m) \<Rightarrow> vs | RuleNoContent \<Rightarrow> [])"

lemma kept_refl [simp]: "others_kept t db db" "shows_own t db []"
  by (simp_all add: others_kept_def shows_own_def)

lemma create_rule_request:
  "create_rule now t d db = (db', r) \<Longrightarrow> others_kept t db db' \<and> (case r of Inl _ \<Rightarrow> True | Inr v \<Rightarrow> shows_own t db' [v])"
  by (auto simp: create_rule_def Let_def others_kept_def shows_own_def rules_of_def split: if_splits)

lemma list_rules_request: "shows_own (rq_rule_tenant q) db (fst (list_rules lc q db))"
  unfolding shows_own_def list_rules_def sql_page_def fst_conv set_map rules_of_def
  by (intro image_mono) (auto dest!: in_set_takeD in_set_dropD simp: rule_clause_def)

lemma rule_for_tenant_request: "rule_for_tenant i t db = Some v \<Longrightarrow> shows_own t db [v]"
  by (auto simp: rule_for_tenant_def shows_own_def rules_of_def dest!: find_SomeD)

lemma update_rule_request:
  assumes "update_rule now c db = (db', r)"
  shows "others_kept (rc_tenant c) db db' \<and> (\<forall>v. r = Inr (Some v) \<longrightarrow> shows_own (rc_tenant c) db' [v])"
proof (cases "rule_for_tenant (rc_id c) (rc_tenant c) db")
  case (Some cur)
  let ?p = "\<lambda>r. rule_id r = rc_id c \<and> rule_tenant r = rc_tenant c" and ?row = "changed_rule now c cur"
  have kept: "others_kept (rc_tenant c) db (db\<lparr>rule_rows := sql_update ?p ?row (rule_rows db)\<rparr>)"
    by (auto simp: others_kept_def rules_of_def changed_rule_def intro!: sql_update_filter_other)
  have "shows_own (rc_tenant c) (db\<lparr>rule_rows := sql_update ?p ?row (rule_rows db)\<rparr>) [mapRule x]"
    if "x \<in> set (sql_returning ?p ?row (rule_rows db))" for x
  proof -
    have "x \<in> set (sql_update ?p ?row (rule_rows db))" "rule_tenant x = rc_tenant c"
      using that by (auto simp: sql_returning_def sql_update_def changed_rule_def)
    then show ?thesis by (simp add: shows_own_def rules_of_def)
  qed
  then show ?thesis
    using assms kept Some
    by (auto simp: update_rule_def Let_def split: if_splits list.splits)
qed (use assms in \<open>auto simp: update_rule_def\<close>)

lemma insert_drafts_request:
  "insert_drafts now t ds db = (db', rows) \<Longrightarrow>
     (\<exists>more. rule_rows db' = rule_rows db @ more \<and> rows = more \<and> (\<forall>r \<in> set more. rule_tenant r = t))"
proof (induction ds arbitrary: db db' rows)
  case (Cons d ds)
  then show ?case by (fastforce simp: Let_def split: if_splits prod.splits)
qed simp

lemma batch_request:
  "insertIgnoreOnConflict now ds t db = (db', b) \<Longrightarrow> others_kept t db db' \<and> shows_own t db' (batch_created b)"
  by (auto simp: insertIgnoreOnConflict_def Let_def others_kept_def shows_own_def rules_of_def
      dest!: insert_drafts_request split: prod.splits if_splits)

lemma rules_handled:
  assumes "rules_ok db" and "rules_handle lc now uuid request rq db = (db', r)"
  shows "rules_ok db'
    \<and> (case resolveTenantIdFromRequest request of
         Inl e \<Rightarrow> r = Inl e \<and> db' = db
       | Inr t \<Rightarrow> others_kept t db db' \<and> (case r of Inl e \<Rightarrow> True | Inr resp \<Rightarrow> shows_own t db' (response_rules resp)))"
proof (cases "resolveTenantIdFromRequest request")
  case (Inl e)
  with assms show ?thesis by (simp add: rules_handle_def)
next
  case t: (Inr t)
  note base = assms(2) t
  show ?thesis
  proof (cases rq)
    case (CreateRule p)
    let ?d = "\<lparr>rd_name = py_name p, rd_include = py_include p, rd_exclude = opt_else (py_exclude p) [],
      rd_active = opt_else (py_active p) True\<rparr>"
    obtain db1 r1 where c: "create_rule now t ?d db = (db1, r1)" by fastforce
    show ?thesis
      using CreateRule base c create_rule_ok [OF assms(1), of now t ?d] create_rule_request [OF c]
      by (auto simp: rules_handle_def successResponse_def response_rules_def CreateRule_execute_def split: sum.splits)
  next
    case (BatchCreateRules ps)
    then show ?thesis
      using base batch_ok [OF assms(1), of now "map draft_of ps" t] batch_request [of now "map draft_of ps" t db]
      by (auto simp: rules_handle_def successResponse_def response_rules_def BatchCreateRules_execute_def split: prod.splits)
  next
    case (ListRules active needle page psize)
    then show ?thesis
      using base assms(1) list_rules_request [of "\<lparr>rq_rule_tenant = t, rq_active = active, rq_query = needle, rq_page = page,
          rq_page_size = psize\<rparr>" db lc]
      by (auto simp: rules_handle_def paginatedResponse_def response_rules_def split: prod.splits)
  next
    case (GetRule i)
    then show ?thesis
      using base assms(1) rule_for_tenant_request [of i t db]
      by (auto simp: rules_handle_def successResponse_def response_rules_def GetRule_execute_def split: option.splits)
  next
    case (UpdateRule i name inc exc active)
    let ?c = "\<lparr>rc_tenant = t, rc_id = i, rc_name = name, rc_include = inc, rc_exclude = exc, rc_active = active\<rparr>"
    obtain db1 r1 where u: "update_rule now ?c db = (db1, r1)" by fastforce
    show ?thesis
      using UpdateRule base u update_rule_ok [OF assms(1), of now ?c] update_rule_request [OF u]
      by (auto simp: rules_handle_def successResponse_def response_rules_def UpdateRule_execute_def
          split: option.splits sum.splits)
  next
    case (RemoveRule i)
    let ?c = "\<lparr>rc_tenant = t, rc_id = i, rc_name = None, rc_include = None, rc_exclude = None, rc_active = Some False\<rparr>"
    obtain db1 r1 where u: "update_rule now ?c db = (db1, r1)" by fastforce
    show ?thesis
      using RemoveRule base u update_rule_ok [OF assms(1), of now ?c] update_rule_request [OF u]
      by (auto simp: rules_handle_def response_rules_def DisableRule_execute_def disable_rule_def
          split: option.splits sum.splits if_splits)
  qed
qed

text \<open>
  C20: A request to a rule endpoint keeps the constraints of the table, leaves the rules of every tenant but
  the caller's exactly as they are, and shows only stored rules of the caller; without a tenant it fails and
  nothing changes.
\<close>

theorem rules_table_wellformed:
  assumes "rules_ok db" and "rules_handle lc now uuid request rq db = (db', r)"
  shows "rules_ok db'
    \<and> (case resolveTenantIdFromRequest request of
         Inl e \<Rightarrow> r = Inl e \<and> db' = db
       | Inr t \<Rightarrow> others_kept t db db' \<and> (case r of Inl e \<Rightarrow> True | Inr resp \<Rightarrow> shows_own t db' (response_rules resp)))"
  using rules_handled [OF assms] .

section \<open>Batches\<close>

lemma remdups_later: "n \<in> set ys \<Longrightarrow> remdups (xs @ n # ys) = remdups (xs @ ys)"
  by (induction xs) auto

lemma collect_names:
  "seen = map rd_name uniq \<Longrightarrow> distinct seen \<Longrightarrow>
     map rd_name (fst (collect_drafts ds uniq seen dups)) = rev (remdups (rev (seen @ map rd_name ds)))"
proof (induction ds uniq seen dups rule: collect_drafts.induct)
  case (1 uniq seen dups)
  then show ?case by (simp add: distinct_remdups_id)
next
  case (2 d ds uniq seen dups)
  show ?case
  proof (cases "rd_name d \<in> set seen")
    case True
    then have "remdups (rev (map rd_name ds) @ rd_name d # rev seen) = remdups (rev (map rd_name ds) @ rev seen)"
      by (simp add: remdups_later)
    with 2 True show ?thesis by simp
  next
    case False
    with 2 show ?thesis by simp
  qed
qed

lemma collect_duplicates:
  "distinct seen \<Longrightarrow> distinct dups \<Longrightarrow>
     set (snd (collect_drafts ds uniq seen dups)) = set dups \<union> {n. 2 \<le> count_list (seen @ map rd_name ds) n}
     \<and> distinct (snd (collect_drafts ds uniq seen dups))"
proof (induction ds uniq seen dups rule: collect_drafts.induct)
  case (1 uniq seen dups)
  have "count_list seen n \<le> 1" for n
    using 1(1) by (induction seen) (auto simp: count_list_0_iff)
  then have "{n. 2 \<le> count_list seen n} = {}" by (metis (no_types, lifting) Collect_empty_eq Suc_1 not_less_eq_eq One_nat_def)
  with 1 show ?case by simp
next
  case (2 d ds uniq seen dups)
  show ?case
  proof (cases "rd_name d \<in> set seen")
    case True
    then have "0 < count_list seen (rd_name d)" by (metis count_list_0_iff gr0I)
    then have "{n. 2 \<le> count_list (seen @ map rd_name (d # ds)) n}
        = insert (rd_name d) {n. 2 \<le> count_list (seen @ map rd_name ds) n}" by auto
    with 2 True show ?thesis by auto
  next
    case False
    with 2 show ?thesis by simp
  qed
qed

lemma collect_firsts:
  "d \<in> set (fst (collect_drafts ds uniq seen dups)) \<Longrightarrow> d \<notin> set uniq \<Longrightarrow>
     rd_name d \<notin> set seen \<and> find (\<lambda>e. rd_name e = rd_name d) ds = Some d"
proof (induction ds uniq seen dups rule: collect_drafts.induct)
  case (2 e ds uniq seen dups)
  show ?case
  proof (cases "rd_name e \<in> set seen")
    case True
    then show ?thesis using 2 by auto
  next
    case False
    show ?thesis
    proof (cases "d = e")
      case True
      then show ?thesis using False by simp
    next
      case ne: False
      then show ?thesis using 2(2) [OF False] 2(3,4) False by auto
    qed
  qed
qed simp

lemma insert_drafts_all:
  "distinct (map rd_name ds) \<Longrightarrow> \<forall>d \<in> set ds. \<not> list_ex (named t (rd_name d)) (rule_rows db) \<Longrightarrow>
     list_all2 (\<lambda>r d. \<exists>i. r = new_rule i now t d) (snd (insert_drafts now t ds db)) ds"
proof (induction ds arbitrary: db)
  case (Cons d ds)
  let ?db1 = "db\<lparr>next_rule := Suc (next_rule db), rule_rows := rule_rows db @ [new_rule (next_rule db) now t d]\<rparr>"
  have "\<forall>e \<in> set ds. \<not> list_ex (named t (rd_name e)) (rule_rows ?db1)"
    using Cons.prems by (auto simp: named_def list_ex_iff image_iff)
  then have "list_all2 (\<lambda>r d. \<exists>i. r = new_rule i now t d) (snd (insert_drafts now t ds ?db1)) ds"
    using Cons.prems by (intro Cons.IH) auto
  with Cons.prems show ?case by (auto simp: Let_def case_prod_beta)
qed simp

text \<open>The names of a request, each at its first occurrence.\<close>

definition first_names :: "rule_draft list \<Rightarrow> string list" where
  "first_names ds = rev (remdups (rev (map rd_name ds)))"

definition taken_name :: "string \<Rightarrow> rule_db \<Rightarrow> string \<Rightarrow> bool" where
  "taken_name t db n \<longleftrightarrow> list_ex (named t n) (rule_rows db)"

lemma batch_result:
  assumes "insertIgnoreOnConflict now ds t db = (db', b)"
  shows "\<exists>new. rule_rows db' = rule_rows db @ new \<and> batch_created b = map mapRule new
    \<and> map rule_name new = filter (\<lambda>n. \<not> taken_name t db n) (first_names ds)
    \<and> (\<forall>r \<in> set new. \<exists>i d. r = new_rule i now t d \<and> find (\<lambda>e. rd_name e = rd_name d) ds = Some d)"
    and "skippedNames b = filter (taken_name t db) (first_names ds)"
    and "set (duplicateNames b) = {n. 2 \<le> count_list (map rd_name ds) n}" and "distinct (duplicateNames b)"
proof -
  obtain uniq dups where c: "collect_drafts ds [] [] [] = (uniq, dups)" by fastforce
  have names: "map rd_name uniq = first_names ds" using collect_names [of "[]" "[]" ds "[]"] c by (simp add: first_names_def)
  have firsts: "find (\<lambda>e. rd_name e = rd_name d) ds = Some d" if "d \<in> set uniq" for d
    using that collect_firsts [of d ds "[]" "[]" "[]"] c by simp
  have "duplicateNames b = dups"
    using assms c by (auto simp: insertIgnoreOnConflict_def Let_def split: if_splits prod.splits)
  then show "set (duplicateNames b) = {n. 2 \<le> count_list (map rd_name ds) n}" "distinct (duplicateNames b)"
    using c collect_duplicates [of "[]" "[]" ds "[]"] by simp_all
  let ?new = "filter (\<lambda>d. \<not> list_ex (named t (rd_name d)) (rule_rows db)) uniq"
  obtain db1 rows where i: "insert_drafts now t ?new db = (db1, rows)" by fastforce
  have "distinct (map rd_name ?new)" using names by (auto simp: first_names_def intro: distinct_map_filter)
  from insert_drafts_all [OF this, of t db now] i
  have rows: "list_all2 (\<lambda>r d. \<exists>i. r = new_rule i now t d) rows ?new" by simp
  then have row_names: "map rule_name rows = map rd_name ?new"
    by (induction rule: list_all2_induct) auto
  have fresh: "map rd_name ?new = filter (\<lambda>n. \<not> taken_name t db n) (first_names ds)"
    by (simp add: names [symmetric] filter_map comp_def taken_name_def)
  have content: "\<forall>r \<in> set rows. \<exists>i d. r = new_rule i now t d \<and> find (\<lambda>e. rd_name e = rd_name d) ds = Some d"
  proof
    fix r assume "r \<in> set rows"
    then obtain k where k: "k < length rows" "r = rows ! k" by (auto simp: in_set_conv_nth)
    then obtain i where "r = new_rule i now t (?new ! k)" using list_all2_nthD [OF rows] by blast
    moreover have "?new ! k \<in> set ?new" using k(1) list_all2_lengthD [OF rows] by (metis nth_mem)
    ultimately obtain d i where "d \<in> set ?new" "r = new_rule i now t d" by blast
    then show "\<exists>i d. r = new_rule i now t d \<and> find (\<lambda>e. rd_name e = rd_name d) ds = Some d"
      using firsts by (metis mem_Collect_eq set_filter)
  qed
  have app: "rule_rows db1 = rule_rows db @ rows" using insert_drafts_request [OF i] by auto
  have shown: "rw_name \<circ> mapRule = rule_name" by (auto simp: mapRule_def)
  show "skippedNames b = filter (taken_name t db) (first_names ds)"
  proof (cases "uniq = []")
    case True
    then show ?thesis using assms c names by (auto simp: insertIgnoreOnConflict_def)
  next
    case False
    then have "skippedNames b = filter (\<lambda>n. n \<notin> set (map rule_name rows)) (first_names ds)"
      using assms c i names by (auto simp: insertIgnoreOnConflict_def Let_def shown image_image mapRule_def)
    also have "\<dots> = filter (taken_name t db) (first_names ds)"
      unfolding row_names fresh by (intro filter_cong) auto
    finally show ?thesis .
  qed
  show "\<exists>new. rule_rows db' = rule_rows db @ new \<and> batch_created b = map mapRule new
    \<and> map rule_name new = filter (\<lambda>n. \<not> taken_name t db n) (first_names ds)
    \<and> (\<forall>r \<in> set new. \<exists>i d. r = new_rule i now t d \<and> find (\<lambda>e. rd_name e = rd_name d) ds = Some d)"
  proof (cases "uniq = []")
    case True
    then show ?thesis using assms c names by (auto simp: insertIgnoreOnConflict_def)
  next
    case False
    then have "db' = db1" "batch_created b = map mapRule rows"
      using assms c i by (auto simp: insertIgnoreOnConflict_def Let_def)
    then show ?thesis using app row_names fresh content by auto
  qed
qed

lemma resend_creates_nothing:
  assumes "\<forall>n \<in> set (first_names ds). taken_name t db n"
    and "insertIgnoreOnConflict now ds t db = (db', b)"
  shows "rule_rows db' = rule_rows db \<and> batch_created b = [] \<and> skippedNames b = first_names ds"
  using batch_result(1,2) [OF assms(2)] assms(1) by (auto simp: filter_empty_conv)

text \<open>
  C21: A batch request stores exactly one rule for each name the tenant did not have, in the order of the
  names' first occurrences and with the content given there; the existing rules stay as they are, their
  names are reported as skipped, the names listed more than once as duplicates. Sending the batch again
  stores nothing and reports every name as skipped.
\<close>

theorem batch_accounts_every_name:
  assumes "BatchCreateRules_execute now t ds db = (db', b)"
  shows "(\<exists>new. rule_rows db' = rule_rows db @ new \<and> batch_created b = map mapRule new
      \<and> map rule_name new = filter (\<lambda>n. \<not> taken_name t db n) (first_names ds)
      \<and> (\<forall>r \<in> set new. \<exists>i d. r = new_rule i now t d \<and> find (\<lambda>e. rd_name e = rd_name d) ds = Some d))
    \<and> skippedNames b = filter (taken_name t db) (first_names ds)
    \<and> set (duplicateNames b) = {n. 2 \<le> count_list (map rd_name ds) n} \<and> distinct (duplicateNames b)
    \<and> (case BatchCreateRules_execute later t ds db' of
         (db'', b') \<Rightarrow> rule_rows db'' = rule_rows db' \<and> batch_created b' = [] \<and> skippedNames b' = first_names ds)"
proof -
  note b = batch_result [OF assms [unfolded BatchCreateRules_execute_def]]
  from b(1) obtain new where new: "rule_rows db' = rule_rows db @ new"
      "map rule_name new = filter (\<lambda>n. \<not> taken_name t db n) (first_names ds)"
      "\<forall>r \<in> set new. \<exists>i d. r = new_rule i now t d \<and> find (\<lambda>e. rd_name e = rd_name d) ds = Some d" by blast
  have "taken_name t db' n" if "n \<in> set (first_names ds)" for n
  proof (cases "taken_name t db n")
    case True
    then show ?thesis using new(1) by (simp add: taken_name_def)
  next
    case False
    then have "n \<in> set (map rule_name new)" using that new(2) by simp
    then obtain r where r: "r \<in> set new" "rule_name r = n" by auto
    with new(3) have "rule_tenant r = t" by fastforce
    with r new(1) show ?thesis by (auto simp: taken_name_def list_ex_iff named_def)
  qed
  then have "case BatchCreateRules_execute later t ds db' of
      (db'', b') \<Rightarrow> rule_rows db'' = rule_rows db' \<and> batch_created b' = [] \<and> skippedNames b' = first_names ds"
    using resend_creates_nothing [of ds t db' later]
    by (cases "insertIgnoreOnConflict later ds t db'") (simp add: BatchCreateRules_execute_def)
  with b show ?thesis by blast
qed

definition sample_rules :: rule_db where
  "sample_rules = \<lparr>rule_rows = [new_rule 1 3 ''acme'' \<lparr>rd_name = ''ai'', rd_include = [], rd_exclude = [], rd_active = True\<rparr>],
     next_rule = 2\<rparr>"

definition sample_drafts :: "rule_draft list" where
  "sample_drafts = map (\<lambda>n. \<lparr>rd_name = n, rd_include = [], rd_exclude = [], rd_active = True\<rparr>) [''db'', ''ai'', ''db'']"

text \<open>The name \<open>db\<close> is created and a duplicate of the same request: the two lists are not disjoint.\<close>

lemma batch_accounts_every_name_witness:
  "\<exists>db' b. BatchCreateRules_execute 9 ''acme'' sample_drafts sample_rules = (db', b)
     \<and> map rw_name (batch_created b) = [''db''] \<and> skippedNames b = [''ai''] \<and> set (duplicateNames b) = {n. 2 \<le> count_list [''db'', ''ai'', ''db''] n}"
proof -
  obtain db' b where e: "BatchCreateRules_execute 9 ''acme'' sample_drafts sample_rules = (db', b)" by fastforce
  have names: "first_names sample_drafts = [''db'', ''ai'']" "map rd_name sample_drafts = [''db'', ''ai'', ''db'']"
    "taken_name ''acme'' sample_rules ''ai''" "\<not> taken_name ''acme'' sample_rules ''db''"
    by code_simp+
  note c = batch_accounts_every_name [OF e, where later = 10]
  then have "\<exists>new. batch_created b = map mapRule new \<and> map rule_name new = [''db'']"
    unfolding names by (elim conjE exE) (rule exI, simp add: names)
  then have "map rw_name (batch_created b) = [''db'']" by (auto simp: mapRule_def)
  moreover have "skippedNames b = [''ai'']" "set (duplicateNames b) = {n. 2 \<le> count_list [''db'', ''ai'', ''db''] n}"
    using c unfolding names by (simp_all add: names del: count_list.simps)
  ultimately show ?thesis using e by (intro exI conjI)
qed

definition rename_request :: rule_request where
  "rename_request = UpdateRule 1 (Some ''db'') None None None"

lemma rules_table_wellformed_witness:
  "\<exists>db' r. rules_handle (\<lambda>c. c) 9 ''id'' \<lparr>rq_method = ''PATCH'', rq_path = '''', rq_url = '''', rq_headers = [], rq_ip = None,
        rq_api_key = None, rq_tenant = Some ''acme''\<rparr> rename_request sample_rules = (db', r)
     \<and> rules_ok db' \<and> others_kept ''acme'' sample_rules db' \<and> map rule_name (rule_rows db') = [''db'']"
proof -
  let ?rq = "\<lparr>rq_method = ''PATCH'', rq_path = '''', rq_url = '''', rq_headers = [], rq_ip = None, rq_api_key = None,
    rq_tenant = Some ''acme''\<rparr>"
  obtain db' r where e: "rules_handle (\<lambda>c. c) 9 ''id'' ?rq rename_request sample_rules = (db', r)" by fastforce
  have ok: "rules_ok sample_rules" by (simp add: rules_ok_def sample_rules_def)
  have t: "resolveTenantIdFromRequest ?rq = Inr ''acme''" by (simp add: resolveTenantIdFromRequest_def)
  have "map rule_name (rule_rows (fst (rules_handle (\<lambda>c. c) 9 ''id'' ?rq rename_request sample_rules))) = [''db'']"
    by code_simp
  with rules_table_wellformed [OF ok e] e t show ?thesis by simp
qed

text \<open>A rename to a name the tenant has fails with an error that is not one of the API's.\<close>

lemma unhandled_rename:
  assumes "list_ex (\<lambda>r. rule_id r \<noteq> i \<and> named t n r) (rule_rows db)" and "rule_for_tenant i t db \<noteq> None"
  shows "\<exists>m. UpdateRule_execute now \<lparr>rc_tenant = t, rc_id = i, rc_name = Some n, rc_include = None, rc_exclude = None,
    rc_active = None\<rparr> db = (db, Inl (Unexpected m))"
  using assms by (auto simp: UpdateRule_execute_def update_rule_def unhandled_def Let_def)

end
