(* ===== verification/Entry_Store.thy ===== *)
theory Entry_Store imports Rule_Store begin

text \<open>
  The entries table: the class \<open>EntriesRepository\<close> of \<open>src/modules/entries/entries.repository.ts\<close>, the use
  case and the handler that list it. The rows and the sequence are the fields \<open>entries\<close> and \<open>next_entry\<close> of
  the store of alerts. The table has the unique indexes \<open>(feed_id, guid)\<close>, in which nulls do not clash, and
  \<open>(feed_id, content_hash)\<close>; the document column is generated by PostgreSQL from title and content with the
  function the searches use.
  Lemmas: a batch only appends rows, keeps the indexes, leaves a row for each of its drafts, and stores
  nothing when it is sent again.
\<close>

section \<open>The repository\<close>

record entry_draft =
  ed_title :: "ustr option"
  ed_link :: "string option"
  ed_guid :: "string option"
  ed_content :: "ustr option"
  ed_hash :: string
  ed_published :: "msec option"

record stored_entry =
  se_id :: nat
  se_feed :: nat
  se_title :: "ustr option"
  se_link :: "string option"
  se_guid :: "string option"
  se_content :: "ustr option"
  se_hash :: string
  se_published :: "msec option"
  se_fetched :: msec

definition mapEntry :: "entry \<Rightarrow> stored_entry" where
  "mapEntry e = \<lparr>se_id = entry_id e, se_feed = entry_feed e, se_title = entry_title e, se_link = entry_link e,
     se_guid = entry_guid e, se_content = entry_content e, se_hash = content_hash e, se_published = published_at e,
     se_fetched = fetched_at e\<rparr>"

text \<open>\<open>feedpulse_normalize_search_text(COALESCE(title, '') || ' ' || COALESCE(content, ''))\<close>\<close>

definition search_document :: "unicode \<Rightarrow> ustr option \<Rightarrow> ustr option \<Rightarrow> ustr" where
  "search_document U title content = normalizeSearchText U (opt_else title [] @ [32] @ opt_else content [])"

definition new_entry :: "unicode \<Rightarrow> nat \<Rightarrow> msec \<Rightarrow> string \<Rightarrow> nat \<Rightarrow> entry_draft \<Rightarrow> entry" where
  "new_entry U i now tenant feed d =
     \<lparr>entry_id = i, entry_tenant = tenant, entry_feed = feed, entry_title = ed_title d, entry_link = ed_link d,
      entry_guid = ed_guid d, entry_content = ed_content d, content_hash = ed_hash d,
      normalized_search_document = search_document U (ed_title d) (ed_content d), published_at = ed_published d,
      fetched_at = now\<rparr>"

definition entry_conflict :: "nat \<Rightarrow> entry_draft \<Rightarrow> entry \<Rightarrow> bool" where
  "entry_conflict feed d e \<longleftrightarrow>
     entry_feed e = feed \<and> (ed_guid d \<noteq> None \<and> entry_guid e = ed_guid d \<or> content_hash e = ed_hash d)"

text \<open>\<open>INSERT .. ON CONFLICT DO NOTHING RETURNING ..\<close>; a conflict uses an identifier up too.\<close>

definition insert_entry :: "unicode \<Rightarrow> msec \<Rightarrow> string \<Rightarrow> nat \<Rightarrow> entry_draft \<Rightarrow> alert_db \<Rightarrow> alert_db \<times> stored_entry option" where
  "insert_entry U now tenant feed d db =
     (let row = new_entry U (next_entry db) now tenant feed d; db1 = db\<lparr>next_entry := next_entry db + 1\<rparr> in
      if list_ex (entry_conflict feed d) (entries db) then (db1, None)
      else (db1\<lparr>entries := entries db @ [row]\<rparr>, Some (mapEntry row)))"

fun insertMany :: "unicode \<Rightarrow> msec \<Rightarrow> string \<Rightarrow> nat \<Rightarrow> entry_draft list \<Rightarrow> alert_db \<Rightarrow> alert_db \<times> stored_entry list" where
  "insertMany U now tenant feed [] db = (db, [])"
| "insertMany U now tenant feed (d # ds) db =
     (case insert_entry U now tenant feed d db of
        (db1, r) \<Rightarrow>
          (case insertMany U now tenant feed ds db1 of
             (db2, made) \<Rightarrow> (db2, (case r of None \<Rightarrow> made | Some e \<Rightarrow> e # made))))"

record entry_query =
  eq_tenant :: string
  eq_page :: nat
  eq_page_size :: nat
  eq_feed :: "nat option"
  eq_search :: "ustr option"
  eq_from :: "msec option"
  eq_to :: "msec option"

definition entry_clause :: "unicode \<Rightarrow> (nat \<Rightarrow> nat) \<Rightarrow> entry_query \<Rightarrow> entry \<Rightarrow> bool" where
  "entry_clause U lc q e \<longleftrightarrow>
     entry_tenant e = eq_tenant q
     \<and> (case eq_feed q of None \<Rightarrow> True | Some f \<Rightarrow> f = 0 \<or> entry_feed e = f)
     \<and> (case eq_search q of None \<Rightarrow> True
        | Some t \<Rightarrow> t = [] \<or> sql_ilike lc (normalized_search_document e) (contains_pattern (normalizeSearchText U t)))
     \<and> (case eq_from q of None \<Rightarrow> True | Some t \<Rightarrow> t \<le> opt_else (published_at e) (fetched_at e))
     \<and> (case eq_to q of None \<Rightarrow> True | Some t \<Rightarrow> opt_else (published_at e) (fetched_at e) \<le> t)"

text \<open>\<open>ORDER BY published_at DESC NULLS LAST, id DESC\<close>\<close>

definition newest_first :: "entry list \<Rightarrow> entry list" where
  "newest_first es =
     rev (sort_key (\<lambda>e. (case published_at e of None \<Rightarrow> 0 | Some t \<Rightarrow> t + 1, entry_id e)) es)"

definition list_entries :: "unicode \<Rightarrow> (nat \<Rightarrow> nat) \<Rightarrow> entry_query \<Rightarrow> alert_db \<Rightarrow> stored_entry list \<times> nat" where
  "list_entries U lc q db =
     (map mapEntry
        (sql_page (eq_page_size q) ((eq_page q - 1) * eq_page_size q)
           (newest_first (filter (entry_clause U lc q) (entries db)))),
      length (filter (entry_clause U lc q) (entries db)))"

record filter_candidate =
  fc_id :: nat
  fc_feed :: nat
  fc_title :: "ustr option"
  fc_content :: "ustr option"
  fc_published :: "msec option"

definition candidate_of :: "entry \<Rightarrow> filter_candidate" where
  "candidate_of e = \<lparr>fc_id = entry_id e, fc_feed = entry_feed e, fc_title = entry_title e, fc_content = entry_content e,
     fc_published = published_at e\<rparr>"

definition listForFilterSearch :: "int \<Rightarrow> string \<Rightarrow> alert_db \<Rightarrow> filter_candidate list" where
  "listForFilterSearch limit tenant db =
     (let cappedLimit = max 1 (min limit 5000) in
      map candidate_of (take (nat cappedLimit) (newest_first (filter (\<lambda>e. entry_tenant e = tenant) (entries db)))))"

section \<open>The handler\<close>

record entry_filters =
  ef_page :: nat
  ef_page_size :: nat
  ef_feed :: "nat option"
  ef_search :: "ustr option"
  ef_from :: "msec option"
  ef_to :: "msec option"

definition entries_handle ::
  "unicode \<Rightarrow> (nat \<Rightarrow> nat) \<Rightarrow> msec \<Rightarrow> string \<Rightarrow> request \<Rightarrow> entry_filters \<Rightarrow> alert_db
   \<Rightarrow> api_error + stored_entry list \<times> paginated_meta" where
  "entries_handle U lc now uuid request f db =
     (case resolveTenantIdFromRequest request of
        Inl e \<Rightarrow> Inl e
      | Inr t \<Rightarrow>
          (case list_entries U lc \<lparr>eq_tenant = t, eq_page = ef_page f, eq_page_size = ef_page_size f, eq_feed = ef_feed f,
                  eq_search = ef_search f, eq_from = ef_from f, eq_to = ef_to f\<rparr> db of
             (items, n) \<Rightarrow> Inr (paginatedResponse now uuid request items (ef_page f) (ef_page_size f) n)))"

section \<open>The constraints of the table\<close>

definition same_article :: "entry \<Rightarrow> entry \<Rightarrow> bool" where
  "same_article e f \<longleftrightarrow> entry_feed e = entry_feed f
     \<and> (entry_guid e \<noteq> None \<and> entry_guid e = entry_guid f \<or> content_hash e = content_hash f)"

definition entries_ok :: "alert_db \<Rightarrow> bool" where
  "entries_ok db \<longleftrightarrow> distinct (map entry_id (entries db)) \<and> (\<forall>e \<in> set (entries db). entry_id e < next_entry db)
     \<and> (\<forall>e \<in> set (entries db). \<forall>f \<in> set (entries db). same_article e f \<longrightarrow> entry_id e = entry_id f)"

text \<open>Everything but the entries and their sequence.\<close>

definition same_alert_tables :: "alert_db \<Rightarrow> alert_db \<Rightarrow> bool" where
  "same_alert_tables db db' \<longleftrightarrow> alerts db' = alerts db \<and> next_alert db' = next_alert db
     \<and> digest_items db' = digest_items db \<and> next_item db' = next_item db \<and> rules db' = rules db"

lemma entry_conflict_new: "entry_conflict feed d (new_entry U i now tenant feed d)"
  by (simp add: entry_conflict_def new_entry_def)

lemma insert_entry_cases:
  assumes "insert_entry U now tenant feed d db = (db', r)"
  obtains (taken) "list_ex (entry_conflict feed d) (entries db)" "db' = db\<lparr>next_entry := next_entry db + 1\<rparr>" "r = None"
  | (fresh) "\<not> list_ex (entry_conflict feed d) (entries db)"
      "db' = db\<lparr>next_entry := next_entry db + 1, entries := entries db @ [new_entry U (next_entry db) now tenant feed d]\<rparr>"
      "r = Some (mapEntry (new_entry U (next_entry db) now tenant feed d))"
  using assms by (auto simp: insert_entry_def Let_def split: if_splits)

lemma insert_entry_ok:
  assumes ok: "entries_ok db" and "insert_entry U now tenant feed d db = (db', r)"
  shows "entries_ok db'"
  using assms(2)
proof (cases rule: insert_entry_cases)
  case taken
  with ok show ?thesis by (auto simp: entries_ok_def less_Suc_eq)
next
  case fresh
  let ?row = "new_entry U (next_entry db) now tenant feed d"
  have apart: "\<not> same_article ?row e \<and> \<not> same_article e ?row" if "e \<in> set (entries db)" for e
    using fresh(1) that by (auto simp: list_ex_iff entry_conflict_def same_article_def new_entry_def)
  have i: "entry_id ?row = next_entry db" by (simp add: new_entry_def)
  have free: "next_entry db \<notin> entry_id ` set (entries db)" using ok by (auto simp: entries_ok_def)
  show ?thesis
    unfolding entries_ok_def fresh(2) using ok apart free
    by (simp add: entries_ok_def i) (metis less_SucI)
qed

lemma insertMany_result:
  assumes "insertMany U now tenant feed ds db = (db', made)" and "entries_ok db"
  shows "entries_ok db' \<and> same_alert_tables db db'
    \<and> (\<exists>new. entries db' = entries db @ new \<and> made = map mapEntry new
         \<and> (\<forall>e \<in> set new. entry_tenant e = tenant \<and> entry_feed e = feed \<and> next_entry db \<le> entry_id e
              \<and> (\<exists>d \<in> set ds. e = new_entry U (entry_id e) now tenant feed d)))
    \<and> next_entry db' = next_entry db + length ds
    \<and> (\<forall>d \<in> set ds. list_ex (entry_conflict feed d) (entries db'))"
  using assms
proof (induction ds arbitrary: db made)
  case Nil
  then show ?case by (simp add: same_alert_tables_def)
next
  case (Cons d ds)
  obtain db1 r where i: "insert_entry U now tenant feed d db = (db1, r)" by fastforce
  obtain c where m: "insertMany U now tenant feed ds db1 = (db', c)" and
      made: "made = (case r of None \<Rightarrow> c | Some e \<Rightarrow> e # c)"
    using Cons.prems(1) i by (auto split: prod.splits)
  note ok1 = insert_entry_ok [OF Cons.prems(2) i]
  from Cons.IH [OF m ok1] obtain new where ih: "entries_ok db'" "same_alert_tables db1 db'"
      "entries db' = entries db1 @ new" "c = map mapEntry new"
      "\<forall>e \<in> set new. entry_tenant e = tenant \<and> entry_feed e = feed \<and> next_entry db1 \<le> entry_id e
              \<and> (\<exists>d \<in> set ds. e = new_entry U (entry_id e) now tenant feed d)"
      "next_entry db' = next_entry db1 + length ds" "\<forall>d \<in> set ds. list_ex (entry_conflict feed d) (entries db')"
    by blast
  from i show ?case
  proof (cases rule: insert_entry_cases)
    case taken
    have "list_ex (entry_conflict feed d) (entries db')" using taken(1,2) ih(3) by simp
    with taken ih made show ?thesis
      by (intro conjI exI [of _ new]) (auto simp: same_alert_tables_def)
  next
    case fresh
    let ?row = "new_entry U (next_entry db) now tenant feed d"
    have "list_ex (entry_conflict feed d) (entries db')"
      using fresh(2) ih(3) entry_conflict_new [of feed d U "next_entry db" now tenant] by simp
    with fresh ih made show ?thesis
      by (intro conjI exI [of _ "?row # new"]) (auto simp: same_alert_tables_def new_entry_def)
  qed
qed

text \<open>When each draft has a row with its guid or its hash, nothing is stored.\<close>

lemma insertMany_nothing:
  "\<forall>d \<in> set ds. list_ex (entry_conflict feed d) (entries db) \<Longrightarrow>
     insertMany U now tenant feed ds db = (db\<lparr>next_entry := next_entry db + length ds\<rparr>, [])"
  by (induction ds arbitrary: db) (simp_all add: insert_entry_def Let_def)

lemma insertMany_again:
  assumes "insertMany U now tenant feed ds db = (db', made)" and "entries_ok db"
  shows "insertMany U later tenant feed ds db' = (db'\<lparr>next_entry := next_entry db' + length ds\<rparr>, [])"
  using insertMany_result [OF assms] by (intro insertMany_nothing) blast

text \<open>A handler shows only entries of the caller's tenant.\<close>

lemma entries_handle_tenant:
  assumes "entries_handle U lc now uuid request f db = Inr (items, meta)"
  shows "\<exists>t. rq_tenant request = Some t \<and> set items \<subseteq> mapEntry ` {e \<in> set (entries db). entry_tenant e = t}"
proof -
  obtain t where t: "resolveTenantIdFromRequest request = Inr t" "rq_tenant request = Some t"
    using assms by (auto simp: entries_handle_def resolveTenantId_Inr split: sum.splits)
  show ?thesis
    using assms t
    by (auto simp: entries_handle_def list_entries_def paginatedResponse_def sql_page_def newest_first_def entry_clause_def
        dest!: in_set_takeD in_set_dropD)
qed

end
