(* ===== verification/Lease.thy ===== *)
theory Lease imports Main begin

text \<open>
  The contract of a store that hands out exclusive leases on its rows, over runs of its operations: a row
  is granted only while nobody holds it, a granted row is held, and it stays held until an operation ends
  the lease. Consequence: without an operation that ends it, a row is granted at most once.
\<close>

fun run_ops :: "('op \<Rightarrow> 's \<Rightarrow> 's) \<Rightarrow> 'op list \<Rightarrow> 's \<Rightarrow> 's" where
  "run_ops step [] s = s"
| "run_ops step (op # ops) s = run_ops step ops (step op s)"

text \<open>How often row \<open>i\<close> is granted in a run.\<close>

fun grant_count :: "('op \<Rightarrow> 's \<Rightarrow> 's) \<Rightarrow> ('op \<Rightarrow> 's \<Rightarrow> 'i set) \<Rightarrow> 'i \<Rightarrow> 'op list \<Rightarrow> 's \<Rightarrow> nat" where
  "grant_count step grants i [] s = 0"
| "grant_count step grants i (op # ops) s =
     (if i \<in> grants op s then 1 else 0) + grant_count step grants i ops (step op s)"

text \<open>No operation of the run ends the lease of row \<open>i\<close>.\<close>

fun undisturbed :: "('op \<Rightarrow> 's \<Rightarrow> 's) \<Rightarrow> ('op \<Rightarrow> 's \<Rightarrow> 'i \<Rightarrow> bool) \<Rightarrow> 'i \<Rightarrow> 'op list \<Rightarrow> 's \<Rightarrow> bool" where
  "undisturbed step ends i [] s = True"
| "undisturbed step ends i (op # ops) s = (\<not> ends op s i \<and> undisturbed step ends i ops (step op s))"

lemma run_ops_append: "run_ops step (xs @ ys) s = run_ops step ys (run_ops step xs s)"
  by (induction xs arbitrary: s) simp_all

lemma run_ops_invariant:
  assumes "\<And>op s. P s \<Longrightarrow> P (step op s)" and "P s"
  shows "P (run_ops step ops s)"
  using assms(2) by (induction ops arbitrary: s) (simp_all add: assms(1))

locale lease =
  fixes step :: "'op \<Rightarrow> 's \<Rightarrow> 's" and inv :: "'s \<Rightarrow> bool" and held :: "'s \<Rightarrow> 'i \<Rightarrow> bool"
    and grants :: "'op \<Rightarrow> 's \<Rightarrow> 'i set" and ends :: "'op \<Rightarrow> 's \<Rightarrow> 'i \<Rightarrow> bool"
  assumes inv_step: "inv s \<Longrightarrow> inv (step op s)"
    and granted_free: "inv s \<Longrightarrow> i \<in> grants op s \<Longrightarrow> \<not> held s i"
    and granted_held: "inv s \<Longrightarrow> i \<in> grants op s \<Longrightarrow> held (step op s) i"
    and held_kept: "inv s \<Longrightarrow> held s i \<Longrightarrow> \<not> ends op s i \<Longrightarrow> held (step op s) i"
begin

lemma held_not_granted:
  "inv s \<Longrightarrow> held s i \<Longrightarrow> undisturbed step ends i ops s \<Longrightarrow> grant_count step grants i ops s = 0"
proof (induction ops arbitrary: s)
  case (Cons op ops)
  then have "i \<notin> grants op s" using granted_free by blast
  with Cons show ?case using inv_step held_kept by simp
qed simp

lemma granted_at_most_once:
  "inv s \<Longrightarrow> undisturbed step ends i ops s \<Longrightarrow> grant_count step grants i ops s \<le> 1"
proof (induction ops arbitrary: s)
  case (Cons op ops)
  show ?case
  proof (cases "i \<in> grants op s")
    case True
    with Cons.prems have "grant_count step grants i ops (step op s) = 0"
      using held_not_granted granted_held inv_step by simp
    with True show ?thesis by simp
  next
    case False
    with Cons show ?thesis using inv_step by simp
  qed
qed simp

end

end
