(* ===== verification/Feed_Store.thy ===== *)
theory Feed_Store imports Lease Sql_Like Js_Number Alert_Store begin

text \<open>
  The feeds table and the class \<open>FeedsRepository\<close> of \<open>src/modules/feeds/feeds.repository.ts\<close>.
  \<open>NOW()\<close> and \<open>Date.now()\<close> are the argument \<open>now\<close> in milliseconds, \<open>RANDOM()\<close> is the draw of each row,
  \<open>FOR UPDATE SKIP LOCKED\<close> is the predicate \<open>locked\<close> on the rows another transaction holds, and rows
  that tie in an \<open>ORDER BY\<close> come in insertion order.
  Theorems: what a claim takes and leaves, that a claimed feed is not handed out again before it is
  reported or released, that reads and updates of a tenant stay within it, and how a disabled feed
  comes back.
\<close>

section \<open>Rows\<close>

datatype feed_status = FdActive | FdPaused | FdError

record feed_view =
  fd_id :: nat
  fd_tenant :: string
  fd_url :: string
  fd_status :: feed_status
  fd_etag :: "string option"
  fd_last_modified :: "string option"
  fd_last_checked :: "msec option"
  fd_next_check :: msec
  fd_poll :: nat
  fd_errors :: nat
  fd_last_error :: "string option"
  fd_avg_ms :: "nat option"
  fd_avg_items :: "rat option"
  fd_created :: msec
  fd_updated :: msec

record feed = feed_view +
  fd_claimed :: "msec option"
  fd_url_hash :: "string option"

record feed_db =
  feeds :: "feed list"
  next_feed :: nat

definition mapFeed :: "feed \<Rightarrow> feed_view" where
  "mapFeed row = feed_view.truncate row"

lemma mapFeed_sel [simp]:
  "fd_id (mapFeed f) = fd_id f" "fd_tenant (mapFeed f) = fd_tenant f" "fd_status (mapFeed f) = fd_status f"
  "fd_url (mapFeed f) = fd_url f" "fd_poll (mapFeed f) = fd_poll f" "fd_next_check (mapFeed f) = fd_next_check f"
  "fd_errors (mapFeed f) = fd_errors f" "fd_etag (mapFeed f) = fd_etag f"
  "fd_last_modified (mapFeed f) = fd_last_modified f" "fd_last_error (mapFeed f) = fd_last_error f"
  by (simp_all add: mapFeed_def feed_view.truncate_def)

fun CLAIM_PRIORITY_BY_STATUS :: "feed_status \<Rightarrow> nat" where
  "CLAIM_PRIORITY_BY_STATUS FdActive = 0"
| "CLAIM_PRIORITY_BY_STATUS FdError = 1"
| "CLAIM_PRIORITY_BY_STATUS FdPaused = 2"

definition MAX_CLAIM_JITTER_SECONDS :: rat where "MAX_CLAIM_JITTER_SECONDS = 300"
definition CLAIM_JITTER_RATIO :: rat where "CLAIM_JITTER_RATIO = 1 / 5"
definition AUTO_PAUSED_ERROR_PATTERN :: string where "AUTO_PAUSED_ERROR_PATTERN = ''auto-paused:%''"

datatype feeds_error = SchedulerBatchSizeInvalid | SchedulerStuckThresholdInvalid | FeedAlreadyExists

section \<open>Creating and listing\<close>

record feed_urls =
  fu_parse :: "string \<Rightarrow> url option"
  fu_env :: "string \<Rightarrow> string option"
  fu_sha256 :: "string \<Rightarrow> string"

definition buildNormalizedUrlHashOrNull :: "feed_urls \<Rightarrow> string \<Rightarrow> string option" where
  "buildNormalizedUrlHashOrNull U u =
     (case normalizeFeedUrl (fu_parse U) (fu_env U) None u of
        Inl err \<Rightarrow> None | Inr n \<Rightarrow> Some (buildNormalizedFeedUrlHash (fu_sha256 U) n))"

record feed_draft =
  dr_tenant :: string
  dr_url :: string
  dr_poll :: nat
  dr_status :: feed_status

definition new_feed :: "nat \<Rightarrow> msec \<Rightarrow> string option \<Rightarrow> feed_draft \<Rightarrow> feed" where
  "new_feed i now h d =
     \<lparr>fd_id = i, fd_tenant = dr_tenant d, fd_url = dr_url d, fd_status = dr_status d, fd_etag = None,
      fd_last_modified = None, fd_last_checked = None, fd_next_check = now, fd_poll = dr_poll d, fd_errors = 0,
      fd_last_error = None, fd_avg_ms = None, fd_avg_items = None, fd_created = now, fd_updated = now,
      fd_claimed = None, fd_url_hash = h\<rparr>"

text \<open>The two unique indexes: \<open>(tenant_id, url)\<close>, and \<open>(tenant_id, normalized_url_hash)\<close> where not null.\<close>

definition feed_conflict :: "string \<Rightarrow> string \<Rightarrow> string option \<Rightarrow> feed \<Rightarrow> bool" where
  "feed_conflict tenant u h f \<longleftrightarrow> fd_tenant f = tenant \<and> (fd_url f = u \<or> (h \<noteq> None \<and> fd_url_hash f = h))"

text \<open>The sequence of the identifiers is advanced by a refused insert too.\<close>

definition create_feed :: "feed_urls \<Rightarrow> msec \<Rightarrow> feed_draft \<Rightarrow> feed_db \<Rightarrow> feed_db \<times> (feeds_error + feed_view)" where
  "create_feed U now d db =
     (let h = buildNormalizedUrlHashOrNull U (dr_url d); row = new_feed (next_feed db) now h d;
          db1 = db\<lparr>next_feed := next_feed db + 1\<rparr>
      in if list_ex (feed_conflict (dr_tenant d) (dr_url d) h) (feeds db) then (db1, Inl FeedAlreadyExists)
         else (db1\<lparr>feeds := feeds db @ [row]\<rparr>, Inr (mapFeed row)))"

record feed_query =
  fq_tenant :: string
  fq_status :: "feed_status option"
  fq_query :: "string option"
  fq_page :: nat
  fq_page_size :: nat

definition feed_clause :: "(nat \<Rightarrow> nat) \<Rightarrow> feed_query \<Rightarrow> feed \<Rightarrow> bool" where
  "feed_clause lc q f \<longleftrightarrow>
     fd_tenant f = fq_tenant q
     \<and> (case fq_status q of None \<Rightarrow> True | Some s \<Rightarrow> fd_status f = s)
     \<and> (case fq_query q of None \<Rightarrow> True
        | Some t \<Rightarrow> t = '''' \<or> sql_ilike lc (cps (fd_url f)) (contains_pattern (cps t)))"

definition list_feeds :: "(nat \<Rightarrow> nat) \<Rightarrow> feed_query \<Rightarrow> feed_db \<Rightarrow> feed_view list \<times> nat" where
  "list_feeds lc q db =
     (map mapFeed
        (sql_page (fq_page_size q) ((fq_page q - 1) * fq_page_size q)
           (rev (sort_key fd_created (filter (feed_clause lc q) (feeds db))))),
      length (filter (feed_clause lc q) (feeds db)))"

section \<open>Claims\<close>

definition auto_paused :: "feed \<Rightarrow> bool" where
  "auto_paused f \<longleftrightarrow> fd_status f = FdPaused
     \<and> (case fd_last_error f of None \<Rightarrow> False | Some e \<Rightarrow> sql_like (cps AUTO_PAUSED_ERROR_PATTERN) (cps e))"

definition due_feed :: "msec \<Rightarrow> feed \<Rightarrow> bool" where
  "due_feed now f \<longleftrightarrow>
     fd_next_check f \<le> now \<and> fd_claimed f = None \<and> (fd_status f \<in> {FdActive, FdError} \<or> auto_paused f)"

text \<open>\<open>(RANDOM() * LEAST(300, poll_interval_seconds * 0.2))::int\<close>; the cast rounds halves to even.\<close>

definition pg_int :: "rat \<Rightarrow> int" where
  "pg_int q =
     (let f = \<lfloor>q\<rfloor>; r = q - of_int f in
      if r < 1 / 2 then f else if r > 1 / 2 then f + 1 else if even f then f else f + 1)"

definition claim_jitter :: "rat \<Rightarrow> nat \<Rightarrow> nat" where
  "claim_jitter draw poll = nat (pg_int (draw * min MAX_CLAIM_JITTER_SECONDS (of_nat poll * CLAIM_JITTER_RATIO)))"

definition claim_row :: "msec \<Rightarrow> (nat \<Rightarrow> rat) \<Rightarrow> feed \<Rightarrow> feed" where
  "claim_row now draw f =
     f\<lparr>fd_next_check := now + (fd_poll f + claim_jitter (draw (fd_id f)) (fd_poll f)) * 1000,
       fd_claimed := Some now, fd_updated := now\<rparr>"

definition claim_order :: "feed \<Rightarrow> nat \<times> msec" where
  "claim_order f = (CLAIM_PRIORITY_BY_STATUS (fd_status f), fd_next_check f)"

text \<open>The inner \<open>SELECT\<close> of the statement.\<close>

definition due_batch :: "msec \<Rightarrow> (nat \<Rightarrow> bool) \<Rightarrow> nat \<Rightarrow> feed_db \<Rightarrow> feed list" where
  "due_batch now locked limit db =
     take limit (sort_key claim_order (filter (\<lambda>f. due_feed now f \<and> \<not> locked (fd_id f)) (feeds db)))"

definition claimDueFeeds ::
  "msec \<Rightarrow> (nat \<Rightarrow> rat) \<Rightarrow> (nat \<Rightarrow> bool) \<Rightarrow> int \<Rightarrow> feed_db \<Rightarrow> feed_db \<times> (feeds_error + feed_view list)" where
  "claimDueFeeds now draw locked limit db =
     (if limit \<le> 0 then (db, Inl SchedulerBatchSizeInvalid)
      else (let ids = map fd_id (due_batch now locked (nat limit) db); p = (\<lambda>f. fd_id f \<in> set ids) in
            (db\<lparr>feeds := sql_update p (claim_row now draw) (feeds db)\<rparr>,
             Inr (map mapFeed (sort_key (\<lambda>f. (CLAIM_PRIORITY_BY_STATUS (fd_status f), fd_id f))
                (sql_returning p (claim_row now draw) (feeds db)))))))"

definition release_row :: "msec \<Rightarrow> feed \<Rightarrow> feed" where
  "release_row now f = f\<lparr>fd_claimed := None, fd_next_check := now, fd_updated := now\<rparr>"

definition stuck_feed :: "msec \<Rightarrow> int \<Rightarrow> feed \<Rightarrow> bool" where
  "stuck_feed now threshold f = (case fd_claimed f of None \<Rightarrow> False | Some c \<Rightarrow> int c < int now - threshold * 1000)"

definition releaseStuckFeeds :: "msec \<Rightarrow> int \<Rightarrow> feed_db \<Rightarrow> feed_db \<times> (feeds_error + nat)" where
  "releaseStuckFeeds now threshold db =
     (if threshold \<le> 0 then (db, Inl SchedulerStuckThresholdInvalid)
      else (db\<lparr>feeds := sql_update (stuck_feed now threshold) (release_row now) (feeds db)\<rparr>,
            Inr (length (sql_returning (stuck_feed now threshold) (release_row now) (feeds db)))))"

definition isClaimed :: "nat \<Rightarrow> string option \<Rightarrow> feed_db \<Rightarrow> bool" where
  "isClaimed i tenantId db =
     (filter (\<lambda>f. fd_id f = i \<and> fd_claimed f \<noteq> None \<and> (tenantId = None \<or> tenantId = Some (fd_tenant f))) (feeds db) \<noteq> [])"

section \<open>Reads and updates\<close>

definition feed_for_tenant :: "nat \<Rightarrow> string \<Rightarrow> feed_db \<Rightarrow> feed_view option" where
  "feed_for_tenant i tenant db =
     map_option mapFeed (find (\<lambda>f. fd_id f = i \<and> fd_tenant f = tenant) (feeds db))"

definition feed_for_worker :: "nat \<Rightarrow> feed_db \<Rightarrow> feed_view option" where
  "feed_for_worker i db = map_option mapFeed (row_by fd_id i (feeds db))"

definition find_feed :: "nat \<Rightarrow> string option \<Rightarrow> feed_db \<Rightarrow> feed_view option" where
  "find_feed i tenantId db =
     (case tenantId of None \<Rightarrow> feed_for_worker i db | Some t \<Rightarrow> feed_for_tenant i t db)"

record feed_change =
  ch_tenant :: string
  ch_id :: nat
  ch_status :: "feed_status option"
  ch_poll :: "nat option"

definition changed_row :: "msec \<Rightarrow> feed_status \<Rightarrow> nat \<Rightarrow> msec \<Rightarrow> feed \<Rightarrow> feed" where
  "changed_row now s poll next f = f\<lparr>fd_status := s, fd_poll := poll, fd_next_check := next, fd_updated := now\<rparr>"

definition next_check_of :: "msec \<Rightarrow> feed_status \<Rightarrow> nat \<Rightarrow> feed_view \<Rightarrow> msec" where
  "next_check_of now s poll current =
     (if s = FdActive \<and> fd_status current \<noteq> FdActive then now
      else if s = FdActive \<and> poll \<noteq> fd_poll current then now + poll * 1000
      else fd_next_check current)"

definition update_feed :: "msec \<Rightarrow> feed_change \<Rightarrow> feed_db \<Rightarrow> feed_db \<times> feed_view option" where
  "update_feed now c db =
     (case feed_for_tenant (ch_id c) (ch_tenant c) db of
        None \<Rightarrow> (db, None)
      | Some current \<Rightarrow>
          (let s = opt_else (ch_status c) (fd_status current); poll = opt_else (ch_poll c) (fd_poll current);
               p = (\<lambda>f. fd_id f = ch_id c \<and> fd_tenant f = ch_tenant c);
               row = changed_row now s poll (next_check_of now s poll current)
           in (db\<lparr>feeds := sql_update p row (feeds db)\<rparr>,
               case sql_returning p row (feeds db) of [] \<Rightarrow> None | r # _ \<Rightarrow> Some (mapFeed r))))"

definition disable_feed :: "msec \<Rightarrow> nat \<Rightarrow> string \<Rightarrow> feed_db \<Rightarrow> feed_db \<times> bool" where
  "disable_feed now i tenant db =
     (case update_feed now \<lparr>ch_tenant = tenant, ch_id = i, ch_status = Some FdPaused, ch_poll = None\<rparr> db of
        (db', r) \<Rightarrow> (db', r \<noteq> None))"

record fetch_report =
  fr_feed :: nat
  fr_etag :: "string option"
  fr_last_modified :: "string option"
  fr_status :: feed_status
  fr_errors :: nat
  fr_last_error :: "string option"
  fr_avg_ms :: "nat option"
  fr_next_check :: "msec option"

definition report_row :: "msec \<Rightarrow> fetch_report \<Rightarrow> feed \<Rightarrow> feed" where
  "report_row now r f =
     f\<lparr>fd_etag := coalesce (fr_etag r) (fd_etag f), fd_last_modified := coalesce (fr_last_modified r) (fd_last_modified f),
       fd_status := fr_status r, fd_errors := fr_errors r, fd_last_error := fr_last_error r,
       fd_avg_ms := coalesce (fr_avg_ms r) (fd_avg_ms f), fd_last_checked := Some now,
       fd_next_check := opt_else (fr_next_check r) now, fd_claimed := None, fd_updated := now\<rparr>"

definition updateAfterFetch :: "msec \<Rightarrow> fetch_report \<Rightarrow> feed_db \<Rightarrow> feed_db" where
  "updateAfterFetch now r db = db\<lparr>feeds := sql_update (\<lambda>f. fd_id f = fr_feed r) (report_row now r) (feeds db)\<rparr>"

definition countByStatus :: "feed_status \<Rightarrow> feed_db \<Rightarrow> nat" where
  "countByStatus s db = length (filter (\<lambda>f. fd_status f = s) (feeds db))"


section \<open>Row updates\<close>

interpretation claimed_row: keyed_update fd_id "claim_row now draw" for now draw
  by unfold_locales (simp add: claim_row_def)

interpretation released_row: keyed_update fd_id "release_row now" for now
  by unfold_locales (simp add: release_row_def)

interpretation changed_feed: keyed_update fd_id "changed_row now s poll next" for now s poll "next"
  by unfold_locales (simp add: changed_row_def)

interpretation reported_row: keyed_update fd_id "report_row now r" for now r
  by unfold_locales (simp add: report_row_def)

text \<open>The constraints of the table: the primary key and the two unique indexes.\<close>

definition same_feed_url :: "feed \<Rightarrow> feed \<Rightarrow> bool" where
  "same_feed_url f g \<longleftrightarrow> fd_tenant f = fd_tenant g
     \<and> (fd_url f = fd_url g \<or> (fd_url_hash f \<noteq> None \<and> fd_url_hash f = fd_url_hash g))"

definition feeds_ok :: "feed_db \<Rightarrow> bool" where
  "feeds_ok db \<longleftrightarrow> distinct (map fd_id (feeds db)) \<and> (\<forall>f \<in> set (feeds db). fd_id f < next_feed db)
     \<and> (\<forall>f \<in> set (feeds db). \<forall>g \<in> set (feeds db). same_feed_url f g \<longrightarrow> fd_id f = fd_id g)"

text \<open>What a row update must keep for the constraints to hold.\<close>

definition feed_identity :: "feed \<Rightarrow> nat \<times> string \<times> string \<times> string option" where
  "feed_identity f = (fd_id f, fd_tenant f, fd_url f, fd_url_hash f)"

lemma row_identity [simp]:
  "feed_identity (claim_row now draw f) = feed_identity f" "feed_identity (release_row now f) = feed_identity f"
  "feed_identity (changed_row now s poll next f) = feed_identity f" "feed_identity (report_row now r f) = feed_identity f"
  by (simp_all add: feed_identity_def claim_row_def release_row_def changed_row_def report_row_def)

lemma same_url_identity:
  "feed_identity f = feed_identity f' \<Longrightarrow> feed_identity g = feed_identity g' \<Longrightarrow> same_feed_url f g = same_feed_url f' g'"
  by (simp add: feed_identity_def same_feed_url_def)

lemma update_keeps_ok:
  assumes ok: "feeds_ok db" and keep: "\<And>f. feed_identity (row f) = feed_identity f"
  shows "feeds_ok (db\<lparr>feeds := sql_update p row (feeds db)\<rparr>)"
proof -
  have "fd_id (row f) = fd_id f" for f using keep [of f] by (simp add: feed_identity_def)
  then have ids: "map fd_id (sql_update p row (feeds db)) = map fd_id (feeds db)"
    by (simp add: sql_update_def)
  have from_old: "\<exists>g \<in> set (feeds db). feed_identity f = feed_identity g" if "f \<in> set (sql_update p row (feeds db))" for f
    using that keep by (auto simp: in_sql_update)
  have "distinct (map fd_id (sql_update p row (feeds db)))
      \<and> (\<forall>f \<in> set (sql_update p row (feeds db)). fd_id f < next_feed db)
      \<and> (\<forall>f \<in> set (sql_update p row (feeds db)). \<forall>g \<in> set (sql_update p row (feeds db)).
           same_feed_url f g \<longrightarrow> fd_id f = fd_id g)"
    unfolding ids
  proof (intro conjI ballI impI)
    show "distinct (map fd_id (feeds db))" using ok by (simp add: feeds_ok_def)
  next
    fix f assume "f \<in> set (sql_update p row (feeds db))"
    from from_old [OF this] show "fd_id f < next_feed db" using ok by (auto simp: feeds_ok_def feed_identity_def)
  next
    fix f g assume fg: "f \<in> set (sql_update p row (feeds db))" "g \<in> set (sql_update p row (feeds db))" "same_feed_url f g"
    obtain f' g' where o: "f' \<in> set (feeds db)" "g' \<in> set (feeds db)" "feed_identity f = feed_identity f'"
      "feed_identity g = feed_identity g'"
      using from_old [OF fg(1)] from_old [OF fg(2)] by blast
    then have "fd_id f' = fd_id g'" using ok fg(3) same_url_identity [OF o(3,4)] by (auto simp: feeds_ok_def)
    with o(3,4) show "fd_id f = fd_id g" by (simp add: feed_identity_def)
  qed
  then show ?thesis by (simp add: feeds_ok_def)
qed

lemma create_keeps_ok:
  assumes ok: "feeds_ok db"
  shows "feeds_ok (fst (create_feed U now d db))"
proof (cases "list_ex (feed_conflict (dr_tenant d) (dr_url d) (buildNormalizedUrlHashOrNull U (dr_url d))) (feeds db)")
  case True
  with ok show ?thesis by (auto simp: create_feed_def Let_def feeds_ok_def less_Suc_eq)
next
  case False
  let ?row = "new_feed (next_feed db) now (buildNormalizedUrlHashOrNull U (dr_url d)) d"
  have apart: "\<not> same_feed_url ?row f \<and> \<not> same_feed_url f ?row" if "f \<in> set (feeds db)" for f
    using False that by (auto simp: list_ex_iff feed_conflict_def same_feed_url_def new_feed_def)
  have db': "fst (create_feed U now d db) = db\<lparr>next_feed := next_feed db + 1, feeds := feeds db @ [?row]\<rparr>"
    using False by (simp add: create_feed_def Let_def)
  have i: "fd_id ?row = next_feed db" by (simp add: new_feed_def)
  have fresh: "next_feed db \<notin> fd_id ` set (feeds db)" using ok by (auto simp: feeds_ok_def)
  show ?thesis
    unfolding feeds_ok_def db' using ok apart fresh
    by (simp add: feeds_ok_def i) (metis less_SucI)
qed

section \<open>Operations in sequence\<close>

datatype feed_op =
    OpCreate feed_urls feed_draft
  | OpClaim "nat \<Rightarrow> rat" "nat \<Rightarrow> bool" int
  | OpReleaseStuck int
  | OpUpdate feed_change
  | OpDisable nat string
  | OpReport fetch_report

fun feed_step :: "msec \<times> feed_op \<Rightarrow> feed_db \<Rightarrow> feed_db" where
  "feed_step (now, OpCreate U d) db = fst (create_feed U now d db)"
| "feed_step (now, OpClaim draw locked limit) db = fst (claimDueFeeds now draw locked limit db)"
| "feed_step (now, OpReleaseStuck threshold) db = fst (releaseStuckFeeds now threshold db)"
| "feed_step (now, OpUpdate c) db = fst (update_feed now c db)"
| "feed_step (now, OpDisable i tenant) db = fst (disable_feed now i tenant db)"
| "feed_step (now, OpReport r) db = updateAfterFetch now r db"

lemma update_feed_db:
  "fst (update_feed now c db) = db \<or> (\<exists>p s poll next. fst (update_feed now c db) =
     db\<lparr>feeds := sql_update p (changed_row now s poll next) (feeds db)\<rparr>)"
  by (auto simp: update_feed_def Let_def split: option.splits)

lemma feed_step_keeps_ok: "feeds_ok db \<Longrightarrow> feeds_ok (feed_step op db)"
proof -
  assume ok: "feeds_ok db"
  have upd: "feeds_ok (fst (update_feed now c db))" for now c
  proof -
    from update_feed_db [of now c db] show ?thesis
      using ok update_keeps_ok [OF ok, of "changed_row now s poll next" for s poll "next"] by auto
  qed
  show ?thesis
  proof (cases op)
    case (Pair now o')
    show ?thesis
    proof (cases o')
      case (OpDisable i t)
      then show ?thesis using Pair upd by (simp add: disable_feed_def split: prod.splits) (metis fst_conv)
    qed (use ok Pair upd create_keeps_ok in \<open>auto simp: claimDueFeeds_def releaseStuckFeeds_def updateAfterFetch_def Let_def
        intro!: update_keeps_ok\<close>)
  qed
qed


section \<open>A claim\<close>

lemma take_sort_key_best:
  assumes "x \<in> set (take n (sort_key k xs))" and "y \<in> set xs" and "y \<notin> set (take n (sort_key k xs))"
  shows "k x \<le> k y"
proof -
  let ?t = "take n (sort_key k xs)" and ?d = "drop n (sort_key k xs)"
  have "sorted (map k (?t @ ?d))" unfolding append_take_drop_id by simp
  then have "\<forall>x \<in> set ?t. \<forall>y \<in> set ?d. k x \<le> k y" unfolding map_append sorted_append by auto
  moreover have "y \<in> set (?t @ ?d)" unfolding append_take_drop_id using assms(2) by simp
  ultimately show ?thesis using assms(1,3) by (metis Un_iff set_append)
qed

lemma same_members_length:
  assumes "distinct (map key rows)" and "distinct bs" and "set bs \<subseteq> set rows"
  shows "length (filter (\<lambda>r. key r \<in> key ` set bs) rows) = length bs"
proof -
  have inj: "inj_on key (set rows)" and d: "distinct rows" using assms(1) by (simp_all add: distinct_map)
  have "{r \<in> set rows. key r \<in> key ` set bs} = set bs"
    using assms(3) inj by (auto simp: inj_on_def)
  then show ?thesis
    using distinct_card [OF distinct_filter [OF d, of "\<lambda>r. key r \<in> key ` set bs"]] distinct_card [OF assms(2)] by simp
qed

lemma due_batch_facts:
  assumes "feeds_ok db"
  shows "distinct (due_batch now locked n db)"
    and "f \<in> set (due_batch now locked n db) \<Longrightarrow> f \<in> set (feeds db) \<and> due_feed now f \<and> \<not> locked (fd_id f)"
    and "length (due_batch now locked n db) = min n (length (filter (\<lambda>f. due_feed now f \<and> \<not> locked (fd_id f)) (feeds db)))"
proof -
  have "distinct (feeds db)" using assms by (simp add: feeds_ok_def distinct_map)
  then show "distinct (due_batch now locked n db)" by (simp add: due_batch_def)
  show "f \<in> set (due_batch now locked n db) \<Longrightarrow> f \<in> set (feeds db) \<and> due_feed now f \<and> \<not> locked (fd_id f)"
    unfolding due_batch_def by (drule in_set_takeD) simp
  show "length (due_batch now locked n db) = min n (length (filter (\<lambda>f. due_feed now f \<and> \<not> locked (fd_id f)) (feeds db)))"
    by (simp add: due_batch_def min.commute)
qed

lemma feed_by_id: "feeds_ok db \<Longrightarrow> f \<in> set (feeds db) \<Longrightarrow> g \<in> set (feeds db) \<Longrightarrow> fd_id f = fd_id g \<Longrightarrow> f = g"
  by (auto simp: feeds_ok_def distinct_map inj_on_def)

lemma batch_member:
  assumes "feeds_ok db" and "f \<in> set (feeds db)"
  shows "fd_id f \<in> fd_id ` set (due_batch now locked n db) \<longleftrightarrow> f \<in> set (due_batch now locked n db)"
proof
  assume "fd_id f \<in> fd_id ` set (due_batch now locked n db)"
  then obtain g where g: "g \<in> set (due_batch now locked n db)" "fd_id f = fd_id g" by auto
  then have "g \<in> set (feeds db)" using due_batch_facts(2) [OF assms(1)] by blast
  with feed_by_id [OF assms] g show "f \<in> set (due_batch now locked n db)" by blast
qed simp

lemma pg_int_le: "q \<le> of_int n \<Longrightarrow> pg_int q \<le> n"
proof -
  assume q: "q \<le> of_int n"
  show ?thesis
  proof (cases "q = of_int n")
    case True
    then show ?thesis by (simp add: pg_int_def)
  next
    case False
    with q have "\<lfloor>q\<rfloor> < n" by (simp add: floor_less_iff)
    then show ?thesis by (auto simp: pg_int_def Let_def)
  qed
qed

lemma claim_jitter_le:
  assumes "0 \<le> draw" "draw < 1"
  shows "claim_jitter draw poll \<le> min 300 ((poll + 4) div 5)"
proof -
  let ?m = "min MAX_CLAIM_JITTER_SECONDS (of_nat poll * CLAIM_JITTER_RATIO)"
  have m: "0 \<le> ?m" by (simp add: MAX_CLAIM_JITTER_SECONDS_def CLAIM_JITTER_RATIO_def)
  have le: "draw * ?m \<le> ?m" using mult_right_mono [OF less_imp_le [OF assms(2)] m] by simp
  have "(of_nat poll :: rat) \<le> of_nat (5 * ((poll + 4) div 5))"
  proof -
    have "poll \<le> 5 * ((poll + 4) div 5)" by linarith
    then show ?thesis by (rule of_nat_mono)
  qed
  then have "of_nat poll * CLAIM_JITTER_RATIO \<le> of_nat ((poll + 4) div 5)"
    by (simp add: CLAIM_JITTER_RATIO_def)
  then have "?m \<le> of_int (int (min 300 ((poll + 4) div 5)))"
    by (auto simp: MAX_CLAIM_JITTER_SECONDS_def min_def)
  from pg_int_le [OF order_trans [OF le this]] show ?thesis
    unfolding claim_jitter_def by (rule nat_le_iff [THEN iffD2])
qed


text \<open>The result of a claim, by the batch it chose.\<close>

lemma claim_result:
  assumes ok: "feeds_ok db" and "0 < limit"
    and r: "claimDueFeeds now draw locked limit db = (db', Inr batch)"
  defines "B \<equiv> due_batch now locked (nat limit) db"
  shows "feeds db' = sql_update (\<lambda>f. f \<in> set B) (claim_row now draw) (feeds db)"
    and "fd_id ` set batch = fd_id ` set B" and "length batch = length B"
    and "sorted (map (\<lambda>v. (CLAIM_PRIORITY_BY_STATUS (fd_status v), fd_id v)) batch)"
proof -
  let ?p = "\<lambda>f. fd_id f \<in> fd_id ` set B"
  have db': "feeds db' = sql_update ?p (claim_row now draw) (feeds db)"
    and batch: "batch = map mapFeed (sort_key (\<lambda>f. (CLAIM_PRIORITY_BY_STATUS (fd_status f), fd_id f))
      (sql_returning ?p (claim_row now draw) (feeds db)))"
    using r \<open>0 < limit\<close> by (auto simp: claimDueFeeds_def B_def Let_def)
  show "feeds db' = sql_update (\<lambda>f. f \<in> set B) (claim_row now draw) (feeds db)"
    unfolding db' sql_update_def by (rule map_cong [OF refl]) (simp add: B_def batch_member [OF ok])
  have view: "fd_id (mapFeed f) = fd_id f" "fd_status (mapFeed f) = fd_status f" for f
    by (simp_all add: mapFeed_def feed_view.truncate_def)
  have row: "fd_id (claim_row now draw f) = fd_id f" for f by (simp add: claim_row_def)
  have sub: "set B \<subseteq> set (feeds db)" using due_batch_facts(2) [OF ok] by (auto simp: B_def)
  have "fd_id ` set batch = fd_id ` set (filter ?p (feeds db))"
    by (simp add: batch sql_returning_def image_image view row)
  also have "\<dots> = fd_id ` set B" using sub by auto
  finally show "fd_id ` set batch = fd_id ` set B" .
  show "length batch = length B"
    using same_members_length [of fd_id "feeds db" B] ok sub due_batch_facts(1) [OF ok]
    by (simp add: batch sql_returning_def feeds_ok_def B_def)
  show "sorted (map (\<lambda>v. (CLAIM_PRIORITY_BY_STATUS (fd_status v), fd_id v)) batch)"
    by (simp add: batch o_def view)
qed

text \<open>
  C16: A claim takes as many due feeds that no other transaction holds as the limit allows, in the order
  of the priorities; each gets the claim mark and a next check at least one poll interval ahead and at
  most the jitter later; a due feed left behind comes after every feed taken; nothing else changes.
\<close>

theorem claim_takes_best_due:
  assumes ok: "feeds_ok db" and pos: "0 < limit" and draw: "\<forall>i. 0 \<le> draw i \<and> draw i < 1"
    and r: "claimDueFeeds now draw locked limit db = (db', Inr batch)"
  shows "length batch = min (nat limit) (length (filter (\<lambda>f. due_feed now f \<and> \<not> locked (fd_id f)) (feeds db)))
    \<and> sorted (map (\<lambda>v. (CLAIM_PRIORITY_BY_STATUS (fd_status v), fd_id v)) batch)
    \<and> map fd_id (feeds db') = map fd_id (feeds db)
    \<and> (\<forall>f \<in> set (feeds db). fd_id f \<in> fd_id ` set batch \<longrightarrow>
         due_feed now f \<and> \<not> locked (fd_id f)
         \<and> (\<exists>g \<in> set (feeds db'). fd_id g = fd_id f \<and> fd_claimed g = Some now
              \<and> now + fd_poll f * 1000 \<le> fd_next_check g
              \<and> fd_next_check g \<le> now + (fd_poll f + min 300 ((fd_poll f + 4) div 5)) * 1000))
    \<and> (\<forall>f \<in> set (feeds db). fd_id f \<notin> fd_id ` set batch \<longrightarrow> f \<in> set (feeds db')
         \<and> (due_feed now f \<and> \<not> locked (fd_id f) \<longrightarrow>
              (\<forall>h \<in> set (feeds db). fd_id h \<in> fd_id ` set batch \<longrightarrow> claim_order h \<le> claim_order f)))"
proof -
  let ?B = "due_batch now locked (nat limit) db"
  note c = claim_result [OF ok pos r]
  have mem: "fd_id f \<in> fd_id ` set batch \<longleftrightarrow> f \<in> set ?B" if "f \<in> set (feeds db)" for f
    unfolding c(2) by (rule batch_member [OF ok that])
  have taken: "due_feed now f \<and> \<not> locked (fd_id f)
      \<and> (\<exists>g \<in> set (feeds db'). fd_id g = fd_id f \<and> fd_claimed g = Some now
           \<and> now + fd_poll f * 1000 \<le> fd_next_check g
           \<and> fd_next_check g \<le> now + (fd_poll f + min 300 ((fd_poll f + 4) div 5)) * 1000)"
    if f: "f \<in> set (feeds db)" "fd_id f \<in> fd_id ` set batch" for f
  proof -
    have B: "f \<in> set ?B" using mem f by blast
    have "claim_row now draw f \<in> set (feeds db')" unfolding c(1) using f(1) B by (auto simp: sql_update_def)
    moreover have "claim_jitter (draw (fd_id f)) (fd_poll f) \<le> min 300 ((fd_poll f + 4) div 5)"
      by (rule claim_jitter_le) (simp_all add: draw)
    then have "now + (fd_poll f + claim_jitter (draw (fd_id f)) (fd_poll f)) * 1000
        \<le> now + (fd_poll f + min 300 ((fd_poll f + 4) div 5)) * 1000"
      by (intro add_left_mono mult_right_mono) simp_all
    then have "fd_next_check (claim_row now draw f) \<le> now + (fd_poll f + min 300 ((fd_poll f + 4) div 5)) * 1000"
      by (simp add: claim_row_def)
    moreover have "fd_id (claim_row now draw f) = fd_id f" "fd_claimed (claim_row now draw f) = Some now"
      "now + fd_poll f * 1000 \<le> fd_next_check (claim_row now draw f)"
      by (simp_all add: claim_row_def)
    ultimately show ?thesis using due_batch_facts(2) [OF ok B] by blast
  qed
  have left: "f \<in> set (feeds db') \<and> (due_feed now f \<and> \<not> locked (fd_id f) \<longrightarrow>
      (\<forall>h \<in> set (feeds db). fd_id h \<in> fd_id ` set batch \<longrightarrow> claim_order h \<le> claim_order f))"
    if f: "f \<in> set (feeds db)" "fd_id f \<notin> fd_id ` set batch" for f
  proof -
    have B: "f \<notin> set ?B" using mem f by blast
    then have "f \<in> set (feeds db')" unfolding c(1) using f(1) by (auto simp: sql_update_def image_iff)
    moreover have "claim_order h \<le> claim_order f"
      if "due_feed now f" "\<not> locked (fd_id f)" "h \<in> set (feeds db)" "fd_id h \<in> fd_id ` set batch" for h
      using B f(1) that mem [OF that(3)] unfolding due_batch_def
      by (intro take_sort_key_best [of h "nat limit" claim_order _ f]) auto
    ultimately show ?thesis by blast
  qed
  have "map fd_id (feeds db') = map fd_id (feeds db)" unfolding c(1) by (rule claimed_row.keys_kept)
  then show ?thesis using taken left c(3,4) due_batch_facts(3) [OF ok] by auto
qed


section \<open>A claim is a lease\<close>

definition feed_held :: "feed_db \<Rightarrow> nat \<Rightarrow> bool" where
  "feed_held db i \<longleftrightarrow> (\<exists>f \<in> set (feeds db). fd_id f = i \<and> fd_claimed f \<noteq> None)"

fun claims_of :: "msec \<times> feed_op \<Rightarrow> feed_db \<Rightarrow> nat set" where
  "claims_of (now, OpClaim draw locked limit) db =
     (case snd (claimDueFeeds now draw locked limit db) of Inl err \<Rightarrow> {} | Inr batch \<Rightarrow> fd_id ` set batch)"
| "claims_of (now, _) db = {}"

text \<open>A claim ends with the report of its fetch, or when the sweep finds it stuck.\<close>

fun ends_claim :: "msec \<times> feed_op \<Rightarrow> feed_db \<Rightarrow> nat \<Rightarrow> bool" where
  "ends_claim (now, OpReport r) db i \<longleftrightarrow> fr_feed r = i"
| "ends_claim (now, OpReleaseStuck threshold) db i \<longleftrightarrow>
     0 < threshold \<and> (\<exists>f \<in> set (feeds db). fd_id f = i \<and> stuck_feed now threshold f)"
| "ends_claim (now, _) db i \<longleftrightarrow> False"

lemma held_after_update:
  assumes "feed_held db i" and "\<And>f. fd_id (row f) = fd_id f"
    and "\<And>f. f \<in> set (feeds db) \<Longrightarrow> fd_id f = i \<Longrightarrow> p f \<Longrightarrow> fd_claimed f \<noteq> None \<Longrightarrow> fd_claimed (row f) \<noteq> None"
  shows "feed_held (db\<lparr>feeds := sql_update p row (feeds db)\<rparr>) i"
proof -
  obtain f where f: "f \<in> set (feeds db)" "fd_id f = i" "fd_claimed f \<noteq> None" using assms(1) by (auto simp: feed_held_def)
  let ?g = "if p f then row f else f"
  have "?g \<in> set (sql_update p row (feeds db))" "fd_id ?g = i" "fd_claimed ?g \<noteq> None"
    using f assms(2,3) by (auto simp: in_sql_update)
  then show ?thesis unfolding feed_held_def by auto
qed

lemma feed_held_kept:
  assumes held: "feed_held db i" and no_end: "\<not> ends_claim op db i"
  shows "feed_held (feed_step op db) i"
proof -
  have upd: "feed_held (fst (update_feed now c db)) i" for now c
  proof -
    from update_feed_db [of now c db] show ?thesis
      using held held_after_update [OF held, of "changed_row now s poll next" p for s poll "next" p]
      by (auto simp: changed_row_def)
  qed
  obtain now o' where op: "op = (now, o')" by fastforce
  show ?thesis
  proof (cases o')
    case (OpCreate U d)
    then show ?thesis using held op by (auto simp: create_feed_def Let_def feed_held_def)
  next
    case (OpClaim draw locked limit)
    then show ?thesis using held op
      by (auto simp: claimDueFeeds_def Let_def claim_row_def intro!: held_after_update)
  next
    case (OpReleaseStuck threshold)
    then show ?thesis using held op no_end
      by (auto simp: releaseStuckFeeds_def release_row_def intro!: held_after_update)
  next
    case (OpUpdate c)
    then show ?thesis using op upd by simp
  next
    case (OpDisable j t)
    then show ?thesis using op upd [of now "\<lparr>ch_tenant = t, ch_id = j, ch_status = Some FdPaused, ch_poll = None\<rparr>"]
      by (auto simp: disable_feed_def split: prod.splits)
  next
    case (OpReport r)
    then show ?thesis using held op no_end
      by (auto simp: updateAfterFetch_def report_row_def intro!: held_after_update)
  qed
qed

lemma claim_grants:
  assumes ok: "feeds_ok db" and i: "i \<in> claims_of op db"
  shows "\<not> feed_held db i \<and> feed_held (feed_step op db) i"
proof -
  obtain now draw locked limit batch where op: "op = (now, OpClaim draw locked limit)"
    and b: "snd (claimDueFeeds now draw locked limit db) = Inr batch" "i \<in> fd_id ` set batch"
    using i by (cases "(op, db)" rule: claims_of.cases) (auto split: sum.splits)
  have pos: "0 < limit" using b(1) by (cases "limit \<le> 0") (auto simp: claimDueFeeds_def)
  obtain db' where r: "claimDueFeeds now draw locked limit db = (db', Inr batch)" using b(1) by (metis prod.collapse)
  note c = claim_result [OF ok pos r]
  obtain f where f: "f \<in> set (due_batch now locked (nat limit) db)" "fd_id f = i" using b(2) unfolding c(2) by auto
  note due = due_batch_facts(2) [OF ok f(1)]
  have "\<not> feed_held db i"
    using due f(2) feed_by_id [OF ok] by (auto simp: feed_held_def due_feed_def)
  moreover have "claim_row now draw f \<in> set (feeds db')" unfolding c(1) using due f(1) by (auto simp: sql_update_def)
  then have "feed_held db' i" unfolding feed_held_def using f(2) by (intro bexI) (auto simp: claim_row_def)
  ultimately show ?thesis using op r by simp
qed

interpretation feed_lease: lease feed_step feeds_ok feed_held claims_of ends_claim
  by unfold_locales (use feed_step_keeps_ok claim_grants feed_held_kept in blast)+

text \<open>
  C17: Over any sequence of operations on the feeds (creations, claims of any replica, updates,
  disabling, sweeps and reports of other feeds) in which no report of the feed arrives and no sweep finds it
  stuck, a feed is handed out at most once.
\<close>

theorem feed_handed_out_once:
  assumes "feeds_ok db" and "undisturbed feed_step ends_claim i ops db"
  shows "grant_count feed_step claims_of i ops db \<le> 1"
  using assms by (rule feed_lease.granted_at_most_once)


section \<open>A concrete table\<close>

definition sample_feed :: "nat \<Rightarrow> feed_status \<Rightarrow> msec \<Rightarrow> feed" where
  "sample_feed i s next =
     \<lparr>fd_id = i, fd_tenant = ''acme'', fd_url = ''http://f.example/'' @ dec i, fd_status = s, fd_etag = None,
      fd_last_modified = None, fd_last_checked = None, fd_next_check = next, fd_poll = 600, fd_errors = 0,
      fd_last_error = None, fd_avg_ms = None, fd_avg_items = None, fd_created = 0, fd_updated = 0,
      fd_claimed = None, fd_url_hash = None\<rparr>"

definition sample_feeds :: feed_db where
  "sample_feeds = \<lparr>feeds = [sample_feed 1 FdError 5, sample_feed 2 FdActive 8, sample_feed 3 FdActive 90], next_feed = 4\<rparr>"

lemma sample_feeds_ok: "feeds_ok sample_feeds"
  by (simp add: feeds_ok_def sample_feeds_def sample_feed_def same_feed_url_def)

lemma claim_takes_best_due_witness:
  "\<exists>db' batch. claimDueFeeds 10 (\<lambda>_. 1 / 2) (\<lambda>_. False) 1 sample_feeds = (db', Inr batch) \<and> length batch = 1
     \<and> map fd_id batch = [2] \<and> map fd_id (feeds db') = [1, 2, 3]"
proof -
  obtain db' batch where r: "claimDueFeeds 10 (\<lambda>_. 1 / 2) (\<lambda>_. False) 1 sample_feeds = (db', Inr batch)"
    by (simp add: claimDueFeeds_def Let_def)
  have due: "due_feed 10 (sample_feed 1 FdError 5)" "due_feed 10 (sample_feed 2 FdActive 8)"
    "\<not> due_feed 10 (sample_feed 3 FdActive 90)"
    by (simp_all add: due_feed_def sample_feed_def)
  note t = claim_takes_best_due [OF sample_feeds_ok _ _ r]
  have "map fd_id batch = [2]"
  proof -
    have "due_batch 10 (\<lambda>_. False) 1 sample_feeds = [sample_feed 2 FdActive 8]"
      using due by (simp add: due_batch_def sample_feeds_def claim_order_def) (simp add: sample_feed_def)
    then have "fd_id ` set batch = {2}" "length batch = 1"
      using claim_result(2,3) [OF sample_feeds_ok _ r] by (simp_all add: sample_feed_def)
    then show ?thesis by (cases batch) auto
  qed
  moreover have "length batch = 1" "map fd_id (feeds db') = [1, 2, 3]"
    using t due by (simp_all add: sample_feeds_def sample_feed_def)
  ultimately show ?thesis using r by (intro exI [of _ db'] exI [of _ batch]) simp
qed

definition other_report :: fetch_report where
  "other_report = \<lparr>fr_feed = 1, fr_etag = None, fr_last_modified = None, fr_status = FdActive, fr_errors = 0,
     fr_last_error = None, fr_avg_ms = Some 20, fr_next_check = None\<rparr>"

definition sample_run :: "(msec \<times> feed_op) list" where
  "sample_run = [(10, OpClaim (\<lambda>_. 0) (\<lambda>_. False) 5), (12, OpReport other_report), (700000, OpClaim (\<lambda>_. 0) (\<lambda>_. False) 5)]"

lemma feed_handed_out_once_witness:
  "grant_count feed_step claims_of 2 sample_run sample_feeds \<le> 1 \<and> 2 \<in> claims_of (hd sample_run) sample_feeds"
proof -
  have "undisturbed feed_step ends_claim 2 sample_run sample_feeds"
    by (simp add: sample_run_def other_report_def)
  moreover have "2 \<in> claims_of (10, OpClaim (\<lambda>_. 0) (\<lambda>_. False) 5) sample_feeds"
    by (simp add: claimDueFeeds_def Let_def due_batch_def due_feed_def sample_feeds_def sample_feed_def claim_order_def
        sql_returning_def claim_row_def mapFeed_def feed_view.truncate_def)
  moreover have "hd sample_run = (10, OpClaim (\<lambda>_. 0) (\<lambda>_. False) 5)" by (simp add: sample_run_def)
  ultimately show ?thesis using feed_handed_out_once [OF sample_feeds_ok] by metis
qed

section \<open>How a disabled feed comes back\<close>

text \<open>
  Disabling a feed that the ingestion has paused keeps its \<open>auto-paused:\<close> error, so the claim still takes it.
\<close>

lemma disabled_auto_paused_feed_is_claimed:
  assumes "f \<in> set (feeds db)" and "distinct (map fd_id (feeds db))"
    and "auto_paused f" and "fd_claimed f = None" and "fd_next_check f \<le> now"
  shows "\<exists>g \<in> set (feeds (fst (disable_feed now (fd_id f) (fd_tenant f) db))).
    fd_id g = fd_id f \<and> fd_status g = FdPaused \<and> due_feed now g"
proof -
  have uniq: "fd_id h = fd_id f \<and> fd_tenant h = fd_tenant f \<longleftrightarrow> h = f" if "h \<in> set (feeds db)" for h
    using assms(1,2) that by (auto simp: distinct_map inj_on_def)
  have "find (\<lambda>h. fd_id h = fd_id f \<and> fd_tenant h = fd_tenant f) (feeds db) \<noteq> None"
    using assms(1) unfolding find_None_iff by blast
  then obtain current where c: "find (\<lambda>h. fd_id h = fd_id f \<and> fd_tenant h = fd_tenant f) (feeds db) = Some current"
    by blast
  from find_SomeD [OF this] have "current = f" using uniq [of current] by blast
  with c have found: "feed_for_tenant (fd_id f) (fd_tenant f) db = Some (mapFeed f)"
    by (simp add: feed_for_tenant_def)
  let ?g = "changed_row now FdPaused (fd_poll f) (fd_next_check f) f"
  have "feeds (fst (disable_feed now (fd_id f) (fd_tenant f) db))
      = sql_update (\<lambda>h. fd_id h = fd_id f \<and> fd_tenant h = fd_tenant f) (changed_row now FdPaused (fd_poll f) (fd_next_check f)) (feeds db)"
    unfolding disable_feed_def update_feed_def by (simp add: found Let_def next_check_of_def case_prod_beta)
  moreover have "?g \<in> set (sql_update (\<lambda>h. fd_id h = fd_id f \<and> fd_tenant h = fd_tenant f)
      (changed_row now FdPaused (fd_poll f) (fd_next_check f)) (feeds db))"
    using assms(1) by (auto simp: in_sql_update intro!: bexI [of _ f])
  moreover have "due_feed now ?g"
    using assms(3,4,5) by (simp add: due_feed_def auto_paused_def changed_row_def)
  ultimately show ?thesis by (intro bexI [of _ ?g]) (simp_all add: changed_row_def)
qed

text \<open>A fetch that was in flight when its feed was disabled sets the feed active again.\<close>

lemma report_reactivates_disabled_feed:
  "f \<in> set (feeds db) \<Longrightarrow> fr_feed r = fd_id f \<Longrightarrow> fr_status r = FdActive \<Longrightarrow>
     \<exists>g \<in> set (feeds (updateAfterFetch now r db)). fd_id g = fd_id f \<and> fd_status g = FdActive"
  by (rule bexI [of _ "report_row now r f"])
    (auto simp: updateAfterFetch_def in_sql_update report_row_def)

end
