(* ===== verification/Observability.thy ===== *)
theory Observability imports Error_Envelope Entry_Store Feed_Store begin

text \<open>
  What the operator sees: the handlers of \<open>src/modules/observability/health.controller.ts\<close> (liveness, readiness,
  metrics, the tenant's counters), the metrics server of the worker \<open>src/main/worker-metrics-server.ts\<close> it scrapes,
  the counters of \<open>metrics.service.ts\<close> and \<open>queue-metrics.service.ts\<close>, \<open>readiness.service.ts\<close>, and the interceptor of
  the request id. The text of the metrics registry and the time are inputs; a failing call is an input too.
  Lemmas: a token opens \<open>/metrics\<close> exactly when it is the configured one; the scrape of the API is always let in by
  a worker with the same environment; readiness keeps its own payload on failure; the counters are the
  tenant's.
\<close>

section \<open>The metrics token\<close>

definition resolveMetricsAuthToken :: "(string \<Rightarrow> string option) \<Rightarrow> string option" where
  "resolveMetricsAuthToken env =
     (case env ''METRICS_AUTH_TOKEN'' of
        None \<Rightarrow> None
      | Some raw \<Rightarrow> if js_trim raw \<noteq> '''' then Some (js_trim raw) else None)"

definition extractBearerToken :: "string option \<Rightarrow> string" where
  "extractBearerToken authorization =
     (case authorization of
        None \<Rightarrow> ''''
      | Some h \<Rightarrow>
          (let trimmed = js_trim h in
           if \<not> prefix ''bearer '' (js_lower trimmed) then '''' else js_trim (drop 7 trimmed)))"

definition utf8_char :: "char \<Rightarrow> nat list" where
  "utf8_char c = (let n = (of_char c :: nat) in if n < 128 then [n] else [192 + n div 64, 128 + n mod 64])"

definition utf8_bytes :: "string \<Rightarrow> nat list" where "utf8_bytes s = concat (map utf8_char s)"

definition tokensMatch :: "string \<Rightarrow> string \<Rightarrow> bool" where
  "tokensMatch provided expected =
     (if length (utf8_bytes provided) \<noteq> length (utf8_bytes expected) then False
      else utf8_bytes provided = utf8_bytes expected)"

lemma utf8_char_prefix: "utf8_char c @ s = utf8_char d @ t \<Longrightarrow> c = d \<and> s = t"
proof -
  have n: "(of_char c :: nat) < 256" "(of_char d :: nat) < 256" by simp_all
  assume a: "utf8_char c @ s = utf8_char d @ t"
  have split: "m div 64 = n div 64 \<Longrightarrow> m mod 64 = n mod 64 \<Longrightarrow> m = n" for m n :: nat
    by (metis div_mult_mod_eq)
  have "(of_char c :: nat) = of_char d"
    using a n split [of "of_char c" "of_char d"] by (auto simp: utf8_char_def Let_def simp del: of_char_eq_iff split: if_splits)
  with a show ?thesis by simp
qed

lemma utf8_bytes_inject: "utf8_bytes s = utf8_bytes t \<longleftrightarrow> s = t"
proof
  show "utf8_bytes s = utf8_bytes t \<Longrightarrow> s = t"
  proof (induction s arbitrary: t)
    case Nil
    then show ?case by (cases t) (auto simp: utf8_bytes_def utf8_char_def Let_def split: if_splits)
  next
    case (Cons c s)
    then obtain d t' where t: "t = d # t'"
      by (cases t) (auto simp: utf8_bytes_def utf8_char_def Let_def split: if_splits)
    with Cons.prems have "c = d" "utf8_bytes s = utf8_bytes t'"
      using utf8_char_prefix [of c "utf8_bytes s" d "utf8_bytes t'"] by (auto simp: utf8_bytes_def)
    with Cons.IH t show ?case by simp
  qed
qed simp

lemma tokensMatch_iff: "tokensMatch provided expected \<longleftrightarrow> provided = expected"
  by (auto simp: tokensMatch_def utf8_bytes_inject)

section \<open>The metrics server of the worker\<close>

definition resolveWorkerMetricsBindAddress :: "(string \<Rightarrow> string option) \<Rightarrow> string" where
  "resolveWorkerMetricsBindAddress env =
     (case env ''WORKER_METRICS_BIND'' of
        None \<Rightarrow> ''0.0.0.0''
      | Some raw \<Rightarrow> if js_trim raw \<noteq> '''' then js_trim raw else ''0.0.0.0'')"

definition isAuthorized :: "string option \<Rightarrow> string \<Rightarrow> bool" where
  "isAuthorized authorization expectedToken =
     (case authorization of
        None \<Rightarrow> False
      | Some h \<Rightarrow>
          (let trimmed = js_trim h in
           if \<not> prefix ''bearer '' (js_lower trimmed) then False
           else (let token = js_trim (drop 7 trimmed) in
                 if token = '''' then False else tokensMatch (js_trim token) expectedToken)))"

record text_response =
  tr_status :: nat
  tr_headers :: "(string \<times> string) list"
  tr_body :: string

definition metrics_content_type :: string where "metrics_content_type = ''text/plain; version=0.0.4; charset=utf-8''"

text \<open>\<open>registry\<close>: the printed registry, or \<open>None\<close> when collecting it fails.\<close>

definition worker_handleRequest ::
  "(string \<Rightarrow> string option) \<Rightarrow> string option \<Rightarrow> string \<Rightarrow> string option \<Rightarrow> text_response" where
  "worker_handleRequest env registry url authorization =
     (if url = ''/metrics'' \<or> url = ''/metrics/'' then
        (if \<exists>t. resolveMetricsAuthToken env = Some t \<and> \<not> isAuthorized authorization t
         then \<lparr>tr_status = 401,
               tr_headers = [(''WWW-Authenticate'', ''Bearer realm=\"metrics\"''), (''Content-Type'', ''application/json'')],
               tr_body = ''{\"error\":\"metrics_unauthorized\"}''\<rparr>
         else (case registry of
                 Some metrics \<Rightarrow> \<lparr>tr_status = 200, tr_headers = [(''Content-Type'', metrics_content_type)], tr_body = metrics\<rparr>
               | None \<Rightarrow> \<lparr>tr_status = 500, tr_headers = [(''Content-Type'', metrics_content_type)],
                          tr_body = ''# Error collecting metrics'' @ [char_of (10 :: nat)]\<rparr>))
      else if url = ''/health''
      then \<lparr>tr_status = 200, tr_headers = [(''Content-Type'', ''application/json'')],
            tr_body = ''{\"status\":\"ok\",\"process\":\"worker-metrics\"}''\<rparr>
      else \<lparr>tr_status = 404, tr_headers = [], tr_body = ''Not Found''\<rparr>)"

section \<open>Counters\<close>

record metric_counters =
  mc_fetch_ms :: "nat list"
  mc_fetches :: nat
  mc_fetch_errors :: nat
  mc_backoffs :: nat
  mc_entries :: nat
  mc_alerts :: nat
  mc_alerts_sent :: nat
  mc_channel_failures :: "string \<Rightarrow> nat"
  mc_active :: nat
  mc_error :: nat
  mc_undelivered :: nat
  mc_job_failures :: "string \<times> string \<Rightarrow> nat"
  mc_dead_lettered :: "string \<Rightarrow> nat"
  mc_dead_letter_failures :: "string \<Rightarrow> nat"
  mc_released :: nat
  mc_worker_up :: nat
  mc_scrape_failures :: nat

definition bump :: "'k \<Rightarrow> ('k \<Rightarrow> nat) \<Rightarrow> 'k \<Rightarrow> nat" where "bump k f = f(k := Suc (f k))"

definition observeFetchDuration :: "nat \<Rightarrow> metric_counters \<Rightarrow> metric_counters" where
  "observeFetchDuration valueMs c = c\<lparr>mc_fetch_ms := mc_fetch_ms c @ [valueMs], mc_fetches := Suc (mc_fetches c)\<rparr>"

definition incrementFetchErrors :: "metric_counters \<Rightarrow> metric_counters" where
  "incrementFetchErrors c = c\<lparr>mc_fetch_errors := Suc (mc_fetch_errors c)\<rparr>"

definition incrementRateLimitBackoff :: "metric_counters \<Rightarrow> metric_counters" where
  "incrementRateLimitBackoff c = c\<lparr>mc_backoffs := Suc (mc_backoffs c)\<rparr>"

definition incrementEntriesInserted :: "int \<Rightarrow> metric_counters \<Rightarrow> metric_counters" where
  "incrementEntriesInserted n c = (if 0 < n then c\<lparr>mc_entries := mc_entries c + nat n\<rparr> else c)"

definition incrementAlertsGenerated :: "int \<Rightarrow> metric_counters \<Rightarrow> metric_counters" where
  "incrementAlertsGenerated n c = (if 0 < n then c\<lparr>mc_alerts := mc_alerts c + nat n\<rparr> else c)"

definition incrementAlertsSent :: "int \<Rightarrow> metric_counters \<Rightarrow> metric_counters" where
  "incrementAlertsSent n c = (if 0 < n then c\<lparr>mc_alerts_sent := mc_alerts_sent c + nat n\<rparr> else c)"

definition incrementAlertDeliveryChannelFailure :: "string \<Rightarrow> metric_counters \<Rightarrow> metric_counters" where
  "incrementAlertDeliveryChannelFailure ch c = c\<lparr>mc_channel_failures := bump ch (mc_channel_failures c)\<rparr>"

definition incrementJobFailure :: "string \<Rightarrow> string \<Rightarrow> metric_counters \<Rightarrow> metric_counters" where
  "incrementJobFailure queue final c = c\<lparr>mc_job_failures := bump (queue, final) (mc_job_failures c)\<rparr>"

definition incrementJobDeadLettered :: "string \<Rightarrow> metric_counters \<Rightarrow> metric_counters" where
  "incrementJobDeadLettered queue c = c\<lparr>mc_dead_lettered := bump queue (mc_dead_lettered c)\<rparr>"

definition incrementDeadLetterWriteFailure :: "string \<Rightarrow> metric_counters \<Rightarrow> metric_counters" where
  "incrementDeadLetterWriteFailure queue c = c\<lparr>mc_dead_letter_failures := bump queue (mc_dead_letter_failures c)\<rparr>"

definition incrementFeedsReleasedStuck :: "int \<Rightarrow> metric_counters \<Rightarrow> metric_counters" where
  "incrementFeedsReleasedStuck n c = (if 0 < n then c\<lparr>mc_released := mc_released c + nat n\<rparr> else c)"

definition countUndeliveredAlerts :: "alert_db \<Rightarrow> nat" where
  "countUndeliveredAlerts db = length (filter (\<lambda>a. delivery_status a = StPending \<or> delivery_status a = StFailed) (alerts db))"

text \<open>\<open>printed\<close> is the text exposition of the registry.\<close>

definition service_metrics :: "(metric_counters \<Rightarrow> string) \<Rightarrow> feed_db \<Rightarrow> alert_db \<Rightarrow> metric_counters \<Rightarrow> metric_counters \<times> string" where
  "service_metrics printed fdb adb c =
     (let c' = c\<lparr>mc_active := countByStatus FdActive fdb, mc_error := countByStatus FdError fdb,
                 mc_undelivered := countUndeliveredAlerts adb\<rparr>
      in (c', printed c'))"

section \<open>The handlers\<close>

definition health :: "string \<Rightarrow> jvalue" where
  "health ts = JvObj [(''status'', JvStr ''ok''), (''checks'', JvObj [(''api'', JvStr ''ok'')]), (''timestamp'', JvStr ts)]"

text \<open>\<open>exists\<close>: the answer of \<open>to_regclass('feeds') IS NOT NULL\<close>, or \<open>None\<close> when the query fails.\<close>

definition assertSchemaReady :: "bool option \<Rightarrow> bool" where
  "assertSchemaReady schemaExists = (schemaExists = Some True)"

definition check_text :: "bool \<Rightarrow> jvalue" where "check_text ok = JvStr (if ok then ''ok'' else ''error'')"

definition readiness_payload :: "string \<Rightarrow> string \<Rightarrow> bool \<Rightarrow> bool \<Rightarrow> bool \<Rightarrow> jvalue" where
  "readiness_payload st ts pg redis schema =
     JvObj [(''status'', JvStr st),
            (''checks'', JvObj [(''postgres'', check_text pg), (''redis'', check_text redis), (''schema'', check_text schema)]),
            (''timestamp'', JvStr ts)]"

definition readiness :: "string \<Rightarrow> bool \<Rightarrow> bool \<Rightarrow> bool option \<Rightarrow> exn + jvalue" where
  "readiness ts pg redis schemaExists =
     (let schema = assertSchemaReady schemaExists in
      if \<not> pg \<or> \<not> redis \<or> \<not> schema
      then Inl (HttpException ''ServiceUnavailableException'' 503 (readiness_payload ''error'' ts pg redis schema)
                  ''Service Unavailable Exception'')
      else Inr (readiness_payload ''ok'' ts pg redis schema))"

text \<open>What the worker answers to the scrape: a transport error, or a status and a body.\<close>

type_synonym scrape = "string \<Rightarrow> string option \<Rightarrow> string + nat \<times> (string + string)"

definition scrapeWorkerMetrics :: "scrape \<Rightarrow> nat option \<Rightarrow> string option \<Rightarrow> metric_counters \<Rightarrow> metric_counters \<times> string option" where
  "scrapeWorkerMetrics worker configPort metricsAuthToken c =
     (case configPort of
        None \<Rightarrow> (c, None)
      | Some p \<Rightarrow>
          (let failed = (c\<lparr>mc_worker_up := 0, mc_scrape_failures := Suc (mc_scrape_failures c)\<rparr>, None) in
           case worker (''http://worker:'' @ dec p @ ''/metrics'') (map_option (\<lambda>t. ''Bearer '' @ t) metricsAuthToken) of
             Inl m \<Rightarrow> failed
           | Inr (st, body) \<Rightarrow>
               if st < 200 \<or> 299 < st then failed
               else (case body of Inl m \<Rightarrow> failed | Inr text \<Rightarrow> (c\<lparr>mc_worker_up := 1\<rparr>, Some text))))"

definition newline :: string where "newline = [char_of (10 :: nat)]"

definition health_metrics ::
  "(string \<Rightarrow> string option) \<Rightarrow> scrape \<Rightarrow> nat option \<Rightarrow> (metric_counters \<Rightarrow> string) \<Rightarrow> feed_db \<Rightarrow> alert_db \<Rightarrow> request \<Rightarrow> metric_counters
   \<Rightarrow> metric_counters \<times> (string \<times> string) list \<times> (api_error + string)" where
  "health_metrics env worker configPort printed fdb adb r c =
     (let expectedToken = resolveMetricsAuthToken env;
          providedToken = extractBearerToken (request_header r ''authorization'')
      in if \<exists>t. expectedToken = Some t \<and> (providedToken = '''' \<or> \<not> tokensMatch providedToken t)
         then (c, [(''WWW-Authenticate'', ''Bearer realm=\"metrics\"'')], Inl (Unauthorized ''metrics_unauthorized''))
         else (case scrapeWorkerMetrics worker configPort expectedToken c of
                 (c1, workerMetrics) \<Rightarrow>
                   (case service_metrics printed fdb adb c1 of
                      (c2, localMetrics) \<Rightarrow>
                        (c2, [(''Content-Type'', metrics_content_type)],
                         Inr (case workerMetrics of
                                None \<Rightarrow> localMetrics
                              | Some text \<Rightarrow> localMetrics @ newline @ ''# Worker process metrics'' @ newline
                                             @ ''global_process_info{process=\"worker\"} 1'' @ newline @ text)))))"

record ops_summary =
  feedsTotal :: nat
  feedsActive :: nat
  feedsError :: nat
  entries24h :: nat
  entries7d :: nat
  alertsPending :: nat

definition entry_since :: "msec \<Rightarrow> msec \<Rightarrow> entry \<Rightarrow> bool" where
  "entry_since now ms e \<longleftrightarrow> int now - int ms \<le> int (opt_else (published_at e) (fetched_at e))"

definition opsSummary :: "msec \<Rightarrow> feed_db \<Rightarrow> alert_db \<Rightarrow> request \<Rightarrow> api_error + ops_summary" where
  "opsSummary now fdb adb r =
     (case resolveTenantIdFromRequest r of
        Inl e \<Rightarrow> Inl e
      | Inr t \<Rightarrow>
          (let fs = filter (\<lambda>f. fd_tenant f = t) (feeds fdb); es = filter (\<lambda>e. entry_tenant e = t) (entries adb);
               as = filter (\<lambda>a. alert_tenant a = t) (alerts adb)
           in Inr \<lparr>feedsTotal = length fs, feedsActive = length (filter (\<lambda>f. fd_status f = FdActive) fs),
                   feedsError = length (filter (\<lambda>f. fd_status f = FdError) fs),
                   entries24h = length (filter (entry_since now (24 * 3600 * 1000)) es),
                   entries7d = length (filter (entry_since now (7 * 24 * 3600 * 1000)) es),
                   alertsPending = length (filter (\<lambda>a. \<not> sent a) as)\<rparr>))"

text \<open>\<open>RequestIdInterceptor.intercept\<close>: the header is set before the handler runs.\<close>

definition request_id_intercept ::
  "(rat \<Rightarrow> string) \<Rightarrow> string \<Rightarrow> bool \<Rightarrow> http_exchange \<Rightarrow> http_response \<Rightarrow> http_exchange \<times> http_response" where
  "request_id_intercept num uuid isHttp x res =
     (if \<not> isHttp then (x, res) else (case applyRequestIdHeader num uuid x res of (x', res', requestId) \<Rightarrow> (x', res')))"


section \<open>The gates and the composition of the two servers\<close>

text \<open>With a token configured, \<open>/metrics\<close> opens for exactly the bearer token that is the configured one.\<close>

lemma metrics_gate:
  assumes "resolveMetricsAuthToken env = Some t"
  shows "snd (snd (health_metrics env worker configPort printed fdb adb r c)) = Inl (Unauthorized ''metrics_unauthorized'') \<longleftrightarrow>
     extractBearerToken (request_header r ''authorization'') \<noteq> t"
proof -
  have "t \<noteq> ''''" using assms by (auto simp: resolveMetricsAuthToken_def split: option.splits if_splits)
  then show ?thesis
    using assms by (auto simp: health_metrics_def Let_def tokensMatch_iff split: prod.splits)
qed

lemma trimmed_token:
  assumes "resolveMetricsAuthToken env = Some t"
  shows "t \<noteq> ''''" and "js_trim t = t" and "drop_end js_ws t = t"
proof -
  obtain raw where raw: "t = js_trim raw" and "js_trim raw \<noteq> ''''"
    using assms by (auto simp: resolveMetricsAuthToken_def split: option.splits if_splits)
  then show "t \<noteq> ''''" and "js_trim t = t" by (simp_all add: js_trim_idem)
  show "drop_end js_ws t = t" unfolding raw js_trim_def by simp
qed

lemma bearer_of_token:
  assumes "resolveMetricsAuthToken env = Some t"
  shows "js_trim (''Bearer '' @ t) = ''Bearer '' @ t"
proof -
  have "\<not> js_ws (CHR ''B'')" by code_simp
  then have "dropWhile js_ws (''Bearer '' @ t) = ''Bearer '' @ t" by simp
  with trimmed_token [OF assms] show ?thesis
    unfolding js_trim_def by (simp only: drop_end_append) simp
qed

text \<open>The scrape of the API is let in by a worker that runs with the same environment.\<close>

lemma scrape_is_authorized:
  "tr_status (worker_handleRequest env (Some m) ''/metrics'' (map_option (\<lambda>t. ''Bearer '' @ t) (resolveMetricsAuthToken env))) = 200"
proof (cases "resolveMetricsAuthToken env")
  case (Some t)
  have "js_lower ''Bearer '' = ''bearer ''" by code_simp
  then have "prefix ''bearer '' (js_lower (''Bearer '' @ t))"
    by (metis js_lower_append prefixI)
  then have "isAuthorized (Some (''Bearer '' @ t)) t"
    using trimmed_token [OF Some] bearer_of_token [OF Some] by (simp add: isAuthorized_def tokensMatch_iff del: append_Cons)
  with Some show ?thesis by (simp add: worker_handleRequest_def)
qed (simp add: worker_handleRequest_def)

definition worker_of :: "(string \<Rightarrow> string option) \<Rightarrow> string option \<Rightarrow> scrape" where
  "worker_of env registry url authorization =
     (let r = worker_handleRequest env registry ''/metrics'' authorization in Inr (tr_status r, Inr (tr_body r)))"

text \<open>So an admitted request of the operator sees the registries of both processes.\<close>

lemma aggregated_metrics:
  assumes "extractBearerToken (request_header r ''authorization'') = opt_else (resolveMetricsAuthToken env) ''''"
  shows "\<exists>c' local. health_metrics env (worker_of env (Some m)) (Some p) printed fdb adb r c =
     (c', [(''Content-Type'', metrics_content_type)],
      Inr (local @ newline @ ''# Worker process metrics'' @ newline @ ''global_process_info{process=\"worker\"} 1'' @ newline @ m))
     \<and> mc_worker_up c' = 1"
proof -
  let ?auth = "map_option (\<lambda>t. ''Bearer '' @ t) (resolveMetricsAuthToken env)"
  let ?rsp = "worker_handleRequest env (Some m) ''/metrics'' ?auth"
  have s: "tr_status ?rsp = 200" by (rule scrape_is_authorized)
  then have b: "tr_body ?rsp = m" by (auto simp: worker_handleRequest_def split: if_splits)
  have scrape: "scrapeWorkerMetrics (worker_of env (Some m)) (Some p) (resolveMetricsAuthToken env) c = (c\<lparr>mc_worker_up := 1\<rparr>, Some m)"
    by (simp add: scrapeWorkerMetrics_def worker_of_def Let_def s b)
  have open_gate: "\<not> (\<exists>t. resolveMetricsAuthToken env = Some t \<and>
      (extractBearerToken (request_header r ''authorization'') = '''' \<or> \<not> tokensMatch (extractBearerToken (request_header r ''authorization'')) t))"
    using assms trimmed_token [of env] by (auto simp: tokensMatch_iff)
  show ?thesis
    unfolding health_metrics_def Let_def if_not_P [OF open_gate] scrape
    by (simp add: service_metrics_def Let_def)
qed

text \<open>A failed readiness check answers 503 with its own payload, not with the envelope.\<close>

lemma readiness_failure_payload:
  assumes "readiness ts pg redis schemaExists = Inl e" and "\<not> hr_sent res"
  shows "hr_status (fst (filter_catch num uuid ts' e x res)) = 503"
    and "hr_body (fst (filter_catch num uuid ts' e x res)) = Some (readiness_payload ''error'' ts pg redis (assertSchemaReady schemaExists))"
proof -
  obtain x' requestId where r: "resolveRequestId num uuid x = (x', requestId)" by (metis surj_pair)
  show "hr_status (fst (filter_catch num uuid ts' e x res)) = 503"
    and "hr_body (fst (filter_catch num uuid ts' e x res)) = Some (readiness_payload ''error'' ts pg redis (assertSchemaReady schemaExists))"
    using assms(1) filter_catch_fresh [OF assms(2) r, of ts' e]
    by (auto simp: readiness_def Let_def exn_status_def legacyPayload_def send_json_def readiness_payload_def split: if_splits)
qed

text \<open>The summary counts rows of the caller's tenant only.\<close>

lemma ops_summary_in_tenant:
  assumes "rq_tenant r = Some t"
    and "filter (\<lambda>f. fd_tenant f = t) (feeds fdb) = filter (\<lambda>f. fd_tenant f = t) (feeds fdb')"
    and "filter (\<lambda>e. entry_tenant e = t) (entries adb) = filter (\<lambda>e. entry_tenant e = t) (entries adb')"
    and "filter (\<lambda>a. alert_tenant a = t) (alerts adb) = filter (\<lambda>a. alert_tenant a = t) (alerts adb')"
  shows "opsSummary now fdb adb r = opsSummary now fdb' adb' r"
  using assms by (simp add: opsSummary_def resolveTenantIdFromRequest_def)

end
