(* ===== verification/Safe_Fetch.thy ===== *)
theory Safe_Fetch imports Url_Safety begin

text \<open>
  The redirect-following fetch and the bounded body reader, \<open>src/shared/http/safe-fetch.ts\<close>.
  The platform's \<open>fetch\<close>, \<open>new URL(location, base)\<close> and \<open>TextDecoder\<close> are the parameters
  \<open>fetchImpl\<close> (a step of an abstract world \<open>'w\<close>), \<open>resolveURL\<close> and \<open>decode\<close>.
  The locale \<open>guarded_transport\<close> is the contract between the guard and a transport: what holds
  for every guarded request holds for a whole \<open>safeFetch\<close>; it is interpreted on the transport that
  logs its requests.
  Theorems: every URL requested passed the guard, in every hop; the number of requests; the
  downgrade of the method; the body reader never returns or buffers more than its cap.
\<close>

section \<open>Requests and responses\<close>

record request_init =
  req_method :: "string option"
  req_headers :: "(string \<times> string) list"
  req_body :: "string option"
  req_redirect :: string

type_synonym byte = "8 word"

datatype body_event = Chunk "byte list" | NoValue | StreamError string

record response =
  status :: nat
  resp_headers :: "(string \<times> string) list"
  stream :: "body_event list option"
  arrayBuffer :: "byte list"

definition header :: "response \<Rightarrow> string \<Rightarrow> string option" where
  "header r name = map_of (resp_headers r) name"

datatype fetch_error =
    Unsafe url_error
  | TooManyRedirectsError nat
  | InvalidRedirectError "string option"
  | BodyTooLargeError nat
  | TransportError string

record fetch_result =
  fr_response :: response
  finalUrl :: string
  redirectCount :: nat

section \<open>Following redirects\<close>

definition DEFAULT_MAX_REDIRECTS :: nat where "DEFAULT_MAX_REDIRECTS = 5"

definition REDIRECT_STATUSES :: "nat set" where "REDIRECT_STATUSES = {301, 302, 303, 307, 308}"

definition ascii_upper :: "string \<Rightarrow> string" where
  "ascii_upper s = map (\<lambda>c. if 97 \<le> (of_char c :: nat) \<and> (of_char c :: nat) \<le> 122
                             then char_of ((of_char c :: nat) - 32) else c) s"

definition downgradeAfterRedirect :: "request_init \<Rightarrow> nat \<Rightarrow> request_init" where
  "downgradeAfterRedirect init st =
     (let meth = ascii_upper (opt_else (req_method init) ''GET'');
          downgrades = (st = 303 \<or> ((st = 301 \<or> st = 302) \<and> meth = ''POST''))
      in if \<not> downgrades then init else init\<lparr>req_body := None, req_method := Some ''GET''\<rparr>)"

type_synonym 'w transport = "'w \<Rightarrow> string \<Rightarrow> request_init \<Rightarrow> 'w \<times> (string + response)"

text \<open>
  The body of the \<open>for\<close> loop; the first number is how many iterations are left, \<open>maxRedirects + 1\<close>
  at the start.
\<close>

fun safeFetch_loop ::
  "'w transport \<Rightarrow> (string \<Rightarrow> url option) \<Rightarrow> (string \<Rightarrow> url \<Rightarrow> url option) \<Rightarrow> bool \<Rightarrow> nat
   \<Rightarrow> nat \<Rightarrow> nat \<Rightarrow> url \<Rightarrow> request_init \<Rightarrow> 'w \<Rightarrow> 'w \<times> (fetch_error + fetch_result)" where
  "safeFetch_loop fetchImpl parseURL resolveURL allow maxRedirects 0 hop currentUrl currentInit w =
     (w, Inl (TooManyRedirectsError maxRedirects))"
| "safeFetch_loop fetchImpl parseURL resolveURL allow maxRedirects (Suc left) hop currentUrl currentInit w =
     (case fetchImpl w (href currentUrl) currentInit of
        (w1, Inl e) \<Rightarrow> (w1, Inl (TransportError e))
      | (w1, Inr response) \<Rightarrow>
          if status response \<notin> REDIRECT_STATUSES
          then (w1, Inr \<lparr>fr_response = response, finalUrl = href currentUrl, redirectCount = hop\<rparr>)
          else (case header response ''location'' of
                  None \<Rightarrow> (w1, Inl (InvalidRedirectError None))
                | Some location \<Rightarrow>
                    if js_trim location = '''' then (w1, Inl (InvalidRedirectError (Some location)))
                    else (case resolveURL location currentUrl of
                            None \<Rightarrow> (w1, Inl (InvalidRedirectError (Some location)))
                          | Some target \<Rightarrow>
                              (case assertSafePublicUrl parseURL allow (UrlObject target) of
                                 Inl e \<Rightarrow> (w1, Inl (Unsafe e))
                               | Inr nextUrl \<Rightarrow>
                                   safeFetch_loop fetchImpl parseURL resolveURL allow maxRedirects left (Suc hop)
                                     nextUrl (downgradeAfterRedirect currentInit (status response)) w1))))"

definition safeFetch ::
  "'w transport \<Rightarrow> (string \<Rightarrow> url option) \<Rightarrow> (string \<Rightarrow> url \<Rightarrow> url option) \<Rightarrow> bool \<Rightarrow> nat option
   \<Rightarrow> string \<Rightarrow> request_init \<Rightarrow> 'w \<Rightarrow> 'w \<times> (fetch_error + fetch_result)" where
  "safeFetch fetchImpl parseURL resolveURL allow maxRedirectsOpt u init w =
     (let maxRedirects = opt_else maxRedirectsOpt DEFAULT_MAX_REDIRECTS in
      case assertSafePublicUrl parseURL allow (UrlString u) of
        Inl e \<Rightarrow> (w, Inl (Unsafe e))
      | Inr currentUrl \<Rightarrow>
          safeFetch_loop fetchImpl parseURL resolveURL allow maxRedirects (Suc maxRedirects) 0
            currentUrl (init\<lparr>req_redirect := ''manual''\<rparr>) w)"

section \<open>The contract of a transport behind the guard\<close>

definition guarded :: "(string \<Rightarrow> url option) \<Rightarrow> bool \<Rightarrow> url \<Rightarrow> bool" where
  "guarded parseURL allow u \<longleftrightarrow> assertSafePublicUrl parseURL allow (UrlObject u) = Inr u"

lemma assertSafe_result:
  "assertSafePublicUrl parseURL allow inp = Inr u \<Longrightarrow> guarded parseURL allow u"
  by (auto simp: guarded_def assertSafePublicUrl_def Let_def split: option.splits if_splits url_input.splits)

text \<open>
  \<open>P n w\<close>: what holds after \<open>n\<close> requests. A transport promises that one guarded manual request
  takes \<open>P n\<close> to \<open>P (Suc n)\<close>.
\<close>

locale guarded_transport =
  fixes fetchImpl :: "'w transport" and parseURL :: "string \<Rightarrow> url option" and allow :: bool
    and P :: "nat \<Rightarrow> 'w \<Rightarrow> bool"
  assumes request_kept:
    "P n w \<Longrightarrow> guarded parseURL allow u \<Longrightarrow> req_redirect init = ''manual'' \<Longrightarrow>
     P (Suc n) (fst (fetchImpl w (href u) init))"
begin

lemma downgrade_manual:
  "req_redirect init = ''manual'' \<Longrightarrow> req_redirect (downgradeAfterRedirect init st) = ''manual''"
  by (simp add: downgradeAfterRedirect_def Let_def)

lemma loop_kept:
  assumes "P hop w" "guarded parseURL allow u" "req_redirect init = ''manual''"
  shows "\<exists>k \<le> hop + left.
     P k (fst (safeFetch_loop fetchImpl parseURL resolveURL allow m left hop u init w)) \<and>
     (\<forall>r. snd (safeFetch_loop fetchImpl parseURL resolveURL allow m left hop u init w) = Inr r
          \<longrightarrow> k = Suc (redirectCount r))"
  using assms
proof (induction left arbitrary: hop u init w)
  case 0
  then show ?case by auto
next
  case (Suc left)
  obtain w1 res where f: "fetchImpl w (href u) init = (w1, res)" by (cases "fetchImpl w (href u) init")
  have P1: "P (Suc hop) w1"
    using request_kept [OF Suc.prems] by (simp add: f)
  note now = exI [of _ "Suc hop"]
  show ?case
  proof (cases "\<exists>resp location target nxt. res = Inr resp \<and> status resp \<in> REDIRECT_STATUSES
        \<and> header resp ''location'' = Some location \<and> js_trim location \<noteq> ''''
        \<and> resolveURL location u = Some target
        \<and> assertSafePublicUrl parseURL allow (UrlObject target) = Inr nxt")
    case False
    with P1 show ?thesis
      by (auto intro!: now simp: f split: sum.splits option.splits)
  next
    case True
    then obtain resp location target nxt where g: "res = Inr resp" "status resp \<in> REDIRECT_STATUSES"
        "header resp ''location'' = Some location" "js_trim location \<noteq> ''''"
        "resolveURL location u = Some target"
        "assertSafePublicUrl parseURL allow (UrlObject target) = Inr nxt" by blast
    show ?thesis
      using Suc.IH [OF P1 assertSafe_result [OF g(6)] downgrade_manual [OF Suc.prems(3), of "status resp"]]
      by (simp add: f g)
  qed
qed

lemma safeFetch_kept:
  assumes "P 0 w"
  shows "\<exists>k \<le> Suc (opt_else mr DEFAULT_MAX_REDIRECTS).
     P k (fst (safeFetch fetchImpl parseURL resolveURL allow mr u init w)) \<and>
     (\<forall>r. snd (safeFetch fetchImpl parseURL resolveURL allow mr u init w) = Inr r
          \<longrightarrow> k = Suc (redirectCount r))"
proof (cases "assertSafePublicUrl parseURL allow (UrlString u)")
  case (Inl e)
  with assms show ?thesis by (auto simp: safeFetch_def Let_def)
next
  case (Inr v)
  have "req_redirect (init\<lparr>req_redirect := ''manual''\<rparr>) = ''manual''" by simp
  from loop_kept [OF assms assertSafe_result [OF Inr] this, of "Suc (opt_else mr DEFAULT_MAX_REDIRECTS)"]
  show ?thesis by (simp add: safeFetch_def Let_def Inr)
qed

end

text \<open>Any transport, with a log of the requests it is given.\<close>

type_synonym request_log = "(string \<times> request_init) list"

definition logged :: "'w transport \<Rightarrow> (request_log \<times> 'w) transport" where
  "logged fetchImpl lw u init =
     (case fetchImpl (snd lw) u init of (w', r) \<Rightarrow> ((fst lw @ [(u, init)], w'), r))"

definition guarded_log :: "(string \<Rightarrow> url option) \<Rightarrow> bool \<Rightarrow> nat \<Rightarrow> request_log \<times> 'w \<Rightarrow> bool" where
  "guarded_log parseURL allow n lw \<longleftrightarrow>
     length (fst lw) = n \<and>
     (\<forall>q \<in> set (fst lw). req_redirect (snd q) = ''manual'' \<and> (\<exists>u. fst q = href u \<and> guarded parseURL allow u))"

interpretation logged_transport:
  guarded_transport "logged f" parseURL allow "guarded_log parseURL allow" for f parseURL allow
  by unfold_locales (auto simp: guarded_log_def logged_def split: prod.splits)

section \<open>Reading the body\<close>

definition DEFAULT_MAX_BODY_BYTES :: nat where "DEFAULT_MAX_BODY_BYTES = 5 * 1024 * 1024"

definition XML_DECLARATION_SNIFF_BYTES :: nat where "XML_DECLARATION_SNIFF_BYTES = 200"

definition assertContentLengthWithinBudget :: "response \<Rightarrow> nat \<Rightarrow> fetch_error option" where
  "assertContentLengthWithinBudget r maxBytes =
     (case header r ''content-length'' of
        None \<Rightarrow> None
      | Some v \<Rightarrow>
          (case js_parseInt v of
             None \<Rightarrow> None
           | Some declared \<Rightarrow> if declared > int maxBytes then Some (BodyTooLargeError maxBytes) else None))"

text \<open>\<open>concat(chunks, received)\<close>: a zeroed buffer into which the chunks are copied one after the other.\<close>

definition concat_chunks :: "byte list list \<Rightarrow> nat \<Rightarrow> byte list" where
  "concat_chunks chunks totalLength =
     (let filled = foldl (\<lambda>buffer chunk. buffer @ chunk) [] chunks
      in filled @ replicate (totalLength - length filled) 0)"

text \<open>The \<open>for (;;)\<close> loop over the stream reader: the chunks kept so far and the bytes received.\<close>

fun read_stream :: "nat \<Rightarrow> body_event list \<Rightarrow> byte list list \<Rightarrow> nat \<Rightarrow> fetch_error + byte list" where
  "read_stream maxBytes [] chunks received = Inr (concat_chunks chunks received)"
| "read_stream maxBytes (NoValue # es) chunks received = read_stream maxBytes es chunks received"
| "read_stream maxBytes (StreamError e # es) chunks received = Inl (TransportError e)"
| "read_stream maxBytes (Chunk v # es) chunks received =
     (let received' = received + length v
      in if received' > maxBytes then Inl (BodyTooLargeError maxBytes)
         else read_stream maxBytes es (chunks @ [v]) received')"

definition readBodyBytes :: "response \<Rightarrow> nat \<Rightarrow> fetch_error + byte list" where
  "readBodyBytes r maxBytes =
     (case stream r of
        None \<Rightarrow> if length (arrayBuffer r) > maxBytes then Inl (BodyTooLargeError maxBytes)
                else Inr (arrayBuffer r)
      | Some es \<Rightarrow> read_stream maxBytes es [] 0)"

text \<open>
  \<open>/charset\s*=\s*"?([^";]+)"?/i\<close>: \<open>charset_at\<close> matches at one position, with the one way back the
  expression has (white space after \<open>=\<close> given back to the capture when nothing else is left for it).
\<close>

definition not_sep :: "char \<Rightarrow> bool" where
  "not_sep c \<longleftrightarrow> c \<noteq> CHR 0x22 \<and> c \<noteq> CHR '';''"

definition charset_at :: "string \<Rightarrow> string option" where
  "charset_at s =
     (if \<not> prefix ''charset'' (js_lower s) then None
      else (case dropWhile js_ws (drop 7 s) of
              [] \<Rightarrow> None
            | c # t \<Rightarrow>
                if c \<noteq> CHR ''='' then None
                else (let ws = takeWhile js_ws t; r = dropWhile js_ws t;
                          r' = (case r of [] \<Rightarrow> [] | q # x \<Rightarrow> if q = CHR 0x22 then x else r);
                          cap = takeWhile not_sep r'
                      in if cap \<noteq> [] then Some cap
                         else if ws \<noteq> [] then Some [last ws] else None)))"

fun find_charset :: "string \<Rightarrow> string option" where
  "find_charset [] = charset_at []"
| "find_charset (c # s) = (case charset_at (c # s) of Some x \<Rightarrow> Some x | None \<Rightarrow> find_charset s)"

definition extractCharset :: "string option \<Rightarrow> string option" where
  "extractCharset contentType =
     (case contentType of
        None \<Rightarrow> None
      | Some ct \<Rightarrow> if ct = '''' then None else map_option js_trim (find_charset ct))"

text \<open>\<open>/<\?xml[^>]*encoding\s*=\s*["']([^"']+)["']/i\<close>; the greedy run takes the last \<open>encoding\<close>.\<close>

definition is_quote :: "char \<Rightarrow> bool" where
  "is_quote c \<longleftrightarrow> c = CHR 0x22 \<or> c = CHR 0x27"

definition encoding_at :: "string \<Rightarrow> string option" where
  "encoding_at s =
     (if \<not> prefix ''encoding'' (js_lower s) then None
      else (case dropWhile js_ws (drop 8 s) of
              [] \<Rightarrow> None
            | c # t \<Rightarrow>
                if c \<noteq> CHR ''='' then None
                else (case dropWhile js_ws t of
                        [] \<Rightarrow> None
                      | q # x \<Rightarrow>
                          (let cap = takeWhile (\<lambda>d. \<not> is_quote d) x
                           in if is_quote q \<and> cap \<noteq> [] \<and> length cap < length x then Some cap else None))))"

fun last_encoding :: "string \<Rightarrow> string option" where
  "last_encoding [] = encoding_at []"
| "last_encoding (c # s) =
     (if c = CHR ''>'' then encoding_at (c # s)
      else (case last_encoding s of Some x \<Rightarrow> Some x | None \<Rightarrow> encoding_at (c # s)))"

fun find_xml_encoding :: "string \<Rightarrow> string option" where
  "find_xml_encoding [] = None"
| "find_xml_encoding (c # s) =
     (case (if prefix ''<?xml'' (js_lower (c # s)) then last_encoding (drop 5 (c # s)) else None) of
        Some x \<Rightarrow> Some x
      | None \<Rightarrow> find_xml_encoding s)"

text \<open>
  The first bytes read as latin1. Bytes 0x80 to 0x9F decode to other characters in windows-1252;
  they match nothing in the expression but the inside of a label, where no decoder knows them.
\<close>

definition latin1 :: "byte list \<Rightarrow> string" where
  "latin1 bs = map (\<lambda>b. char_of (unat b)) bs"

definition sniffXmlDeclarationCharset :: "byte list \<Rightarrow> string option" where
  "sniffXmlDeclarationCharset buffer =
     map_option js_trim (find_xml_encoding (latin1 (take XML_DECLARATION_SNIFF_BYTES buffer)))"

text \<open>Decoded text is a list of code points; \<open>decode label bytes\<close> is \<open>None\<close> for an unknown label.\<close>

type_synonym text_decoder = "string \<Rightarrow> byte list \<Rightarrow> nat list option"

definition utf8_label :: "string \<Rightarrow> bool" where
  "utf8_label s \<longleftrightarrow> js_lower s = ''utf8'' \<or> js_lower s = ''utf-8''"

definition decodeBody :: "text_decoder \<Rightarrow> byte list \<Rightarrow> string option \<Rightarrow> nat list" where
  "decodeBody decode buffer declaredCharset =
     (let asUtf8 = opt_else (decode ''utf-8'' buffer) [];
          hasReplacementChars = (0xFFFD \<in> set asUtf8)
      in if \<not> hasReplacementChars then asUtf8
         else (case declaredCharset of
                 None \<Rightarrow> asUtf8
               | Some cs \<Rightarrow>
                   if cs = '''' \<or> utf8_label cs then asUtf8
                   else (case decode cs buffer of Some t \<Rightarrow> t | None \<Rightarrow> asUtf8)))"

definition readBodyWithLimit ::
  "text_decoder \<Rightarrow> response \<Rightarrow> nat \<Rightarrow> string option \<Rightarrow> fetch_error + nat list" where
  "readBodyWithLimit decode r maxBytes charsetHint =
     (case assertContentLengthWithinBudget r maxBytes of
        Some e \<Rightarrow> Inl e
      | None \<Rightarrow>
          (case readBodyBytes r maxBytes of
             Inl e \<Rightarrow> Inl e
           | Inr buffer \<Rightarrow>
               (let declaredCharset =
                      coalesce charsetHint
                        (coalesce (extractCharset (header r ''content-type''))
                                  (sniffXmlDeclarationCharset buffer))
                in Inr (decodeBody decode buffer declaredCharset))))"

text \<open>\<open>configured\<close>: the value of \<open>feedFetchMaxBytes\<close> when it is a finite number.\<close>

definition resolveFeedFetchMaxBytes :: "(string \<Rightarrow> string option) \<Rightarrow> int option \<Rightarrow> int" where
  "resolveFeedFetchMaxBytes env configured =
     (let fromEnv = (case js_parseInt (opt_else (env ''FEED_FETCH_MAX_BYTES'') '''') of
                       Some v \<Rightarrow> if v > 0 then v else int DEFAULT_MAX_BODY_BYTES
                     | None \<Rightarrow> int DEFAULT_MAX_BODY_BYTES)
      in case configured of None \<Rightarrow> fromEnv | Some n \<Rightarrow> if n > 0 then n else fromEnv)"

section \<open>Facts about the body reader\<close>

fun stream_bytes :: "body_event list \<Rightarrow> byte list" where
  "stream_bytes [] = []"
| "stream_bytes (Chunk v # es) = v @ stream_bytes es"
| "stream_bytes (_ # es) = stream_bytes es"

fun stream_ok :: "body_event list \<Rightarrow> bool" where
  "stream_ok [] = True"
| "stream_ok (StreamError _ # es) = False"
| "stream_ok (_ # es) = stream_ok es"

lemma foldl_append_concat: "foldl (\<lambda>b c. b @ c) xs cs = xs @ concat cs"
  by (induction cs arbitrary: xs) auto

lemma concat_chunks_exact: "received = length (concat chunks) \<Longrightarrow> concat_chunks chunks received = concat chunks"
  by (simp add: concat_chunks_def foldl_append_concat)

lemma read_stream_spec:
  assumes "received = length (concat chunks)" "received \<le> maxBytes" "stream_ok es"
  shows "read_stream maxBytes es chunks received =
     (if received + length (stream_bytes es) \<le> maxBytes then Inr (concat chunks @ stream_bytes es)
      else Inl (BodyTooLargeError maxBytes))"
  using assms
  by (induction maxBytes es chunks received rule: read_stream.induct)
     (auto simp: concat_chunks_exact Let_def)

lemma read_stream_bounded:
  assumes "received = length (concat chunks)" "received \<le> maxBytes"
    and "read_stream maxBytes es chunks received = Inr bs"
  shows "length bs \<le> maxBytes"
  using assms
  by (induction maxBytes es chunks received rule: read_stream.induct)
     (auto simp: concat_chunks_exact Let_def split: if_splits)

section \<open>Properties\<close>

text \<open>
  C3: Redirects never escape the guard: whatever the transport answers, every URL a \<open>safeFetch\<close>
  requests was accepted by \<open>assertSafePublicUrl\<close> and is requested with \<open>redirect: 'manual'\<close>; there
  are at most \<open>maxRedirects + 1\<close> requests, and a returned result counts all but one of them.
\<close>

theorem safeFetch_requests_guarded:
  assumes "safeFetch (logged fetchImpl) parseURL resolveURL allow mr u init ([], w) = ((log, w'), res)"
  shows "guarded_log parseURL allow (length log) (log, w')
    \<and> length log \<le> Suc (opt_else mr DEFAULT_MAX_REDIRECTS)
    \<and> (case res of Inr r \<Rightarrow> length log = Suc (redirectCount r) | Inl _ \<Rightarrow> True)"
proof -
  have "guarded_log parseURL allow 0 ([], w)" by (simp add: guarded_log_def)
  from logged_transport.safeFetch_kept [OF this, of mr fetchImpl resolveURL u init]
  show ?thesis by (auto simp: assms guarded_log_def split: sum.splits)
qed

definition redirect_to_metadata :: "unit transport" where
  "redirect_to_metadata w u init =
     ((), if u = ''http://a.example/''
          then Inr \<lparr>status = 302, resp_headers = [(''location'', ''/meta'')], stream = None, arrayBuffer = []\<rparr>
          else Inr \<lparr>status = 200, resp_headers = [], stream = None, arrayBuffer = [1]\<rparr>)"

definition one_site :: "string \<Rightarrow> url option" where
  "one_site s = (if s = ''http://a.example/'' then Some (sample_url ''http:'' ''a.example'') else None)"

lemma safeFetch_requests_guarded_witness:
  "guarded_log one_site False 1 ([(''http://a.example/'', \<lparr>req_method = None, req_headers = [], req_body = None, req_redirect = ''manual''\<rparr>)], ())
   \<and> snd (safeFetch (logged redirect_to_metadata) one_site (\<lambda>_ _. Some (sample_url ''http:'' ''169.254.169.254'')) False None
        ''http://a.example/'' \<lparr>req_method = None, req_headers = [], req_body = None, req_redirect = ''follow''\<rparr> ([], ()))
      = Inl (Unsafe UnsafeHostError)"
proof -
  have run: "safeFetch (logged redirect_to_metadata) one_site (\<lambda>_ _. Some (sample_url ''http:'' ''169.254.169.254'')) False None
        ''http://a.example/'' \<lparr>req_method = None, req_headers = [], req_body = None, req_redirect = ''follow''\<rparr> ([], ())
     = (([(''http://a.example/'', \<lparr>req_method = None, req_headers = [], req_body = None, req_redirect = ''manual''\<rparr>)], ()),
        Inl (Unsafe UnsafeHostError))"
    by code_simp
  from safeFetch_requests_guarded [OF this] show ?thesis by (simp add: run)
qed

lemma read_stream_overflow:
  assumes "received = length (concat chunks)" "received \<le> maxBytes" "stream_ok es"
    and "maxBytes < received + length (stream_bytes es)"
  shows "read_stream maxBytes (es @ rest) chunks received = Inl (BodyTooLargeError maxBytes)"
  using assms
  by (induction maxBytes es chunks received rule: read_stream.induct) (auto simp: Let_def)

text \<open>
  C4: \<open>readBodyBytes\<close> stops at its cap: once the chunks read without error exceed \<open>maxBytes\<close> the
  answer is \<open>BodyTooLargeError\<close> whatever the origin would send after them (more bytes, an error,
  anything); a stream that ends within the cap is returned byte for byte; and no returned buffer
  is ever longer than the cap.
\<close>

theorem readBodyBytes_capped:
  assumes "stream r = Some (es @ rest)" "stream_ok es"
  shows "(maxBytes < length (stream_bytes es) \<longrightarrow> readBodyBytes r maxBytes = Inl (BodyTooLargeError maxBytes))
    \<and> (length (stream_bytes es) \<le> maxBytes \<and> rest = [] \<longrightarrow> readBodyBytes r maxBytes = Inr (stream_bytes es))
    \<and> (case readBodyBytes r maxBytes of Inr bs \<Rightarrow> length bs \<le> maxBytes | Inl _ \<Rightarrow> True)"
proof (intro conjI impI)
  show "case readBodyBytes r maxBytes of Inr bs \<Rightarrow> length bs \<le> maxBytes | Inl _ \<Rightarrow> True"
    using read_stream_bounded [of 0 "[]" maxBytes]
    by (auto simp: readBodyBytes_def split: option.splits sum.splits if_splits)
qed (use assms read_stream_overflow [OF _ _ assms(2), of 0 "[]" maxBytes rest]
       read_stream_spec [OF _ _ assms(2), of 0 "[]" maxBytes] in \<open>auto simp: readBodyBytes_def\<close>)

lemma readBodyBytes_capped_witness:
  "readBodyBytes \<lparr>status = 200, resp_headers = [], stream = Some [Chunk [1, 2], NoValue, Chunk [3], StreamError ''late''], arrayBuffer = []\<rparr> 2
     = Inl (BodyTooLargeError 2)
   \<and> readBodyBytes \<lparr>status = 200, resp_headers = [], stream = Some [Chunk [1, 2], NoValue, Chunk [3]], arrayBuffer = []\<rparr> 3
     = Inr [1, 2, 3]"
  using readBodyBytes_capped [of "\<lparr>status = 200, resp_headers = [], stream = Some [Chunk [1, 2], NoValue, Chunk [3], StreamError ''late''], arrayBuffer = []\<rparr>"
      "[Chunk [1, 2], NoValue, Chunk [3]]" "[StreamError ''late'']" 2]
    readBodyBytes_capped [of "\<lparr>status = 200, resp_headers = [], stream = Some [Chunk [1, 2], NoValue, Chunk [3]], arrayBuffer = []\<rparr>"
      "[Chunk [1, 2], NoValue, Chunk [3]]" "[]" 3]
  by simp

end
