(* ===== verification/Notifiers.thy ===== *)
theory Notifiers imports Safe_Fetch Alert_Store begin

text \<open>
  The notifier port and its two adapters: \<open>src/modules/notifications/domain/alert-notifier.port.ts\<close>,
  \<open>noop-alert.notifier.ts\<close> and \<open>webhook-alert.notifier.ts\<close>.
  A method that may throw returns \<open>Inl\<close> the message. \<open>fetch\<close> and the URL parser are parameters, as are
  the JSON printer, \<open>Response.json\<close> and \<open>Intl.DateTimeFormat\<close> of the engine (record \<open>engine\<close>).
  Texts are lists of UTF-16 code units, as \<open>length\<close> and \<open>slice\<close> count them; \<open>units\<close> encodes stored
  text.
  Theorems: what \<open>escapeHtml\<close> prints reads back as the original and holds no markup; length bounds of
  the subject and of the Telegram texts; every webhook request passes the guard; which token a
  Telegram message is sent with.
\<close>

section \<open>The port\<close>

record digest_line =
  dl_title :: "ustr option"
  dl_snippet :: "ustr option"
  dl_link :: "string option"

record digest_payload =
  dp_tenant :: string
  dp_chat :: string
  dp_window :: "nat list"
  dp_token :: "string option"
  dp_items :: "digest_line list"

record 'w notifier =
  isEnabled :: bool
  isEmailEnabled :: bool
  isTelegramEnabled :: "string option \<Rightarrow> bool"
  sendWebhook :: "alert_notification \<Rightarrow> string \<Rightarrow> 'w \<Rightarrow> 'w \<times> (string + unit)"
  sendEmail :: "alert_notification \<Rightarrow> string list \<Rightarrow> 'w \<Rightarrow> 'w \<times> (string + unit)"
  sendTelegram :: "alert_notification \<Rightarrow> string \<Rightarrow> string option \<Rightarrow> 'w \<Rightarrow> 'w \<times> (string + unit)"
  sendTelegramDigest :: "digest_payload \<Rightarrow> 'w \<Rightarrow> 'w \<times> (string + unit)"

definition NoopAlertNotifier :: "'w notifier" where
  "NoopAlertNotifier = \<lparr>isEnabled = False, isEmailEnabled = False, isTelegramEnabled = (\<lambda>_. False),
     sendWebhook = (\<lambda>_ _ w. (w, Inr ())), sendEmail = (\<lambda>_ _ w. (w, Inr ())),
     sendTelegram = (\<lambda>_ _ _ w. (w, Inr ())), sendTelegramDigest = (\<lambda>_ w. (w, Inr ()))\<rparr>"

section \<open>Texts\<close>

text \<open>UTF-16.\<close>

definition units :: "ustr \<Rightarrow> nat list" where
  "units s = concat (map (\<lambda>c. if c < 0x10000 then [c]
     else [0xD800 + (c - 0x10000) div 0x400, 0xDC00 + (c - 0x10000) mod 0x400]) s)"

definition EMAIL_SUBJECT_MAX_LENGTH :: nat where "EMAIL_SUBJECT_MAX_LENGTH = 120"
definition EMAIL_TITLE_MAX_LENGTH :: nat where "EMAIL_TITLE_MAX_LENGTH = 70"
definition EMAIL_SUMMARY_MAX_LENGTH :: nat where "EMAIL_SUMMARY_MAX_LENGTH = 260"
definition TELEGRAM_TITLE_MAX_LENGTH :: nat where "TELEGRAM_TITLE_MAX_LENGTH = 120"
definition TELEGRAM_SNIPPET_MAX_LENGTH :: nat where "TELEGRAM_SNIPPET_MAX_LENGTH = 180"

text \<open>The ellipsis is U+2026. \<open>Math.max(0, maxLength - 1)\<close> is subtraction of natural numbers.\<close>

definition truncate_text :: "nat list \<Rightarrow> nat \<Rightarrow> nat list" where
  "truncate_text v maxLength = (if length v \<le> maxLength then v else take (maxLength - 1) v @ [0x2026])"

definition replace_unit :: "nat \<Rightarrow> string \<Rightarrow> nat list \<Rightarrow> nat list" where
  "replace_unit c r v = concat (map (\<lambda>x. if x = c then cps r else [x]) v)"

definition escapeHtml :: "nat list \<Rightarrow> nat list" where
  "escapeHtml v =
     replace_unit 39 ''&#39;'' (replace_unit 34 ''&quot;'' (replace_unit 62 ''&gt;''
       (replace_unit 60 ''&lt;'' (replace_unit 38 ''&amp;'' v))))"

definition compact_text :: "nat list \<Rightarrow> nat list" where
  "compact_text v = utrim (squash False v)"

definition summarizeContent :: "ustr option \<Rightarrow> nat list" where
  "summarizeContent content =
     (case content of
        None \<Rightarrow> cps ''No excerpt available.''
      | Some c \<Rightarrow>
          if c = [] then cps ''No excerpt available.''
          else (let compact = compact_text (units c) in
                if compact = [] then cps ''No excerpt available.'' else truncate_text compact EMAIL_SUMMARY_MAX_LENGTH))"

definition summarizeTelegramContent :: "ustr option \<Rightarrow> nat list option" where
  "summarizeTelegramContent content =
     (case content of
        None \<Rightarrow> None
      | Some c \<Rightarrow>
          if c = [] then None
          else (let compact = compact_text (units c) in
                if compact = [] then None else Some (truncate_text compact TELEGRAM_SNIPPET_MAX_LENGTH)))"

text \<open>\<open>title?.trim() || fallback\<close>, truncated.\<close>

definition telegram_title :: "ustr option \<Rightarrow> string \<Rightarrow> nat list" where
  "telegram_title title fallback =
     (let t = (case title of None \<Rightarrow> [] | Some x \<Rightarrow> utrim (units x)) in
      truncate_text (if t = [] then cps fallback else t) TELEGRAM_TITLE_MAX_LENGTH)"

definition link_text :: "string option \<Rightarrow> nat list option" where
  "link_text link = (case link of None \<Rightarrow> None | Some l \<Rightarrow> if l = '''' then None else Some (units [0x1F517, 32] @ cps l))"

definition join_lines :: "nat list list \<Rightarrow> nat list" where
  "join_lines = js_join [10]"

text \<open>The four lines of an alert; empty and missing ones are filtered out.\<close>

definition telegram_text :: "alert_notification \<Rightarrow> nat list" where
  "telegram_text alert =
     join_lines (filter (\<lambda>l. l \<noteq> [])
       [units ([0x1F4F0, 32] @ cps ''New alert''), telegram_title (ev_title (view_entry alert)) ''Untitled alert'',
        opt_else (summarizeTelegramContent (ev_content (view_entry alert))) [],
        opt_else (link_text (ev_link (view_entry alert))) []])"

definition digest_item_lines :: "nat \<times> digest_line \<Rightarrow> nat list list" where
  "digest_item_lines = (\<lambda>(index, item).
     [cps (dec (index + 1) @ ''. '') @ telegram_title (dl_title item) ''Untitled'']
     @ (case summarizeTelegramContent (dl_snippet item) of None \<Rightarrow> [] | Some s \<Rightarrow> [cps ''   '' @ s])
     @ (case link_text (dl_link item) of None \<Rightarrow> [] | Some l \<Rightarrow> [cps ''   '' @ l]))"

definition digest_text :: "digest_payload \<Rightarrow> nat list" where
  "digest_text payload =
     join_lines
       ([units ([0x1F4EC, 32] @ cps (''Alert digest ('' @ dec (length (dp_items payload)) @ '')'')), dp_window payload]
        @ concat (map digest_item_lines (enumerate 0 (take 12 (dp_items payload))))
        @ (if length (dp_items payload) > 12
           then [0x2026 # cps (''and '' @ dec (length (dp_items payload) - 12) @ '' more alert(s).'')] else []))"

section \<open>The email\<close>

text \<open>
  What the engine provides: the JSON printer, the body of a response read as JSON with \<open>ok === false\<close>,
  and the date format of the mails.
\<close>

datatype json = JText "nat list" | JTexts "string list" | JBool bool | JAlert alert_notification
  | JObject "(string \<times> json) list"

record engine =
  stringify :: "json \<Rightarrow> string"
  reads_not_ok :: "response \<Rightarrow> bool"
  formatDate :: "msec \<Rightarrow> nat list"

record email =
  em_subject :: "nat list"
  em_text :: "nat list"
  em_html :: "nat list"

definition email_subject :: "nat list \<Rightarrow> nat list" where
  "email_subject title =
     truncate_text (cps ''New alert: '' @ truncate_text title EMAIL_TITLE_MAX_LENGTH) EMAIL_SUBJECT_MAX_LENGTH"

definition join_keywords :: "ustr list \<Rightarrow> nat list" where
  "join_keywords ks = (let s = js_join (cps '', '') (map units ks) in if s = [] then cps ''-'' else s)"

definition html_link :: "nat list \<Rightarrow> nat list" where
  \<open>html_link link =
     (if link = cps ''-'' then cps ''<p style="margin:0 0 14px 0;"><strong>Link:</strong> -</p>''
      else cps ''<p style="margin:0 0 14px 0;"><a href="'' @ escapeHtml link
        @ cps ''" style="display:inline-block;background:#0f172a;color:#fff;padding:10px 14px;border-radius:8px;text-decoration:none;">Read article</a></p>'')\<close>

definition email_html :: "nat list \<Rightarrow> nat list \<Rightarrow> nat list \<Rightarrow> nat list \<Rightarrow> nat list \<Rightarrow> nat list \<Rightarrow> nat list" where
  \<open>email_html title link summary ruleName keywords createdAt =
     concat
       [cps ''<!doctype html>'', cps ''<html lang="en">'',
        cps ''<body style="font-family:Arial,sans-serif;line-height:1.5;color:#0f172a;">'', cps ''<p>Hi,</p>'',
        cps ''<p>A new article matching your alert was detected.</p>'',
        cps ''<h2 style="margin:22px 0 10px 0;font-size:18px;">Summary</h2>'',
        cps ''<p style="margin:0 0 8px 0;"><strong>'' @ escapeHtml title @ cps ''</strong></p>'',
        cps ''<p style="margin:0 0 14px 0;color:#334155;">'' @ escapeHtml summary @ cps ''</p>'',
        html_link link,
        cps ''<hr style="border:none;border-top:1px solid #e2e8f0;margin:14px 0;"/>'',
        cps ''<p style="margin:0 0 4px 0;"><strong>Rule:</strong> '' @ escapeHtml ruleName @ cps ''</p>'',
        cps ''<p style="margin:0 0 4px 0;"><strong>Keywords:</strong> '' @ escapeHtml keywords @ cps ''</p>'',
        cps ''<p style="margin:0 0 4px 0;"><strong>Date:</strong> '' @ escapeHtml createdAt @ cps ''</p>'',
        cps ''<p style="margin-top:20px;">Best regards,<br/>Feedpulse</p>'', cps ''</body>'', cps ''</html>'']\<close>

definition buildAlertEmail :: "engine \<Rightarrow> alert_notification \<Rightarrow> email" where
  "buildAlertEmail E alert =
     (let title = opt_else (map_option units (ev_title (view_entry alert))) (cps ''-'');
          link = opt_else (map_option cps (ev_link (view_entry alert))) (cps ''-'');
          summary = summarizeContent (ev_content (view_entry alert));
          keywords = join_keywords (rv_include (view_rule alert));
          createdAt = formatDate E (view_created_at alert);
          ruleName = cps (rv_name (view_rule alert))
      in \<lparr>em_subject = email_subject title,
          em_text = join_lines
            [cps ''Hi,'', [], cps ''A new article matching your alert was detected.'', [], cps ''Summary'',
             cps ''-------'', cps ''Title: '' @ title, cps ''Excerpt: '' @ summary, cps ''Link: '' @ link,
             cps ''Rule: '' @ ruleName, cps ''Keywords: '' @ keywords, cps ''Date: '' @ createdAt, [],
             cps ''Best regards,'', cps ''Feedpulse''],
          em_html = email_html title link summary ruleName keywords createdAt\<rparr>)"


section \<open>The webhook adapter\<close>

record notifier_config =
  resendApiKey :: "string option"
  resendFromEmail :: "string option"
  cfg_telegramBotToken :: "string option"
  cfg_webhookNotifierUrl :: "string option"
  telegramApiUrl :: string
  allowPrivateHosts :: bool

text \<open>\<open>a || b\<close> on optional strings.\<close>

definition or_else :: "string option \<Rightarrow> string option \<Rightarrow> string option" where
  "or_else a b = (if a \<noteq> None \<and> a \<noteq> Some '''' then a else b)"

definition present :: "string option \<Rightarrow> bool" where
  "present a \<longleftrightarrow> a \<noteq> None \<and> a \<noteq> Some ''''"

definition ok_status :: "response \<Rightarrow> bool" where
  "ok_status r \<longleftrightarrow> 200 \<le> status r \<and> status r \<le> 299"

definition json_post :: "(string \<times> string) list \<Rightarrow> string \<Rightarrow> request_init" where
  "json_post extra body =
     \<lparr>req_method = Some ''POST'', req_headers = (''content-type'', ''application/json'') # extra,
      req_body = Some body, req_redirect = ''follow''\<rparr>"

fun fetch_error_message :: "fetch_error \<Rightarrow> string" where
  "fetch_error_message (Unsafe UnsafeProtocolError) = ''unsafe_protocol''"
| "fetch_error_message (Unsafe UnsafeHostError) = ''unsafe_host''"
| "fetch_error_message (TooManyRedirectsError n) = ''too_many_redirects''"
| "fetch_error_message (InvalidRedirectError l) = ''invalid_redirect_location''"
| "fetch_error_message (BodyTooLargeError n) = ''feed_body_too_large''"
| "fetch_error_message (TransportError e) = e"

definition webhook_send ::
  "engine \<Rightarrow> notifier_config \<Rightarrow> 'w transport \<Rightarrow> (string \<Rightarrow> url option) \<Rightarrow> (string \<Rightarrow> url \<Rightarrow> url option)
   \<Rightarrow> alert_notification \<Rightarrow> string \<Rightarrow> 'w \<Rightarrow> 'w \<times> (string + unit)" where
  "webhook_send E cfg fetchImpl parseURL resolveURL alert destinationUrl w =
     (let u = or_else (Some destinationUrl) (cfg_webhookNotifierUrl cfg) in
      if \<not> present u then (w, Inr ())
      else (case safeFetch fetchImpl parseURL resolveURL (allowPrivateHosts cfg) None (the u)
                   (json_post [] (stringify E (JObject [(''alert'', JAlert alert)]))) w of
              (w', Inl err) \<Rightarrow> (w', Inl (fetch_error_message err))
            | (w', Inr r) \<Rightarrow>
                if ok_status (fr_response r) then (w', Inr ())
                else (w', Inl (''webhook_delivery_failed_'' @ dec (status (fr_response r))))))"

definition email_send ::
  "engine \<Rightarrow> notifier_config \<Rightarrow> 'w transport \<Rightarrow> alert_notification \<Rightarrow> string list \<Rightarrow> 'w \<Rightarrow> 'w \<times> (string + unit)" where
  "email_send E cfg fetchImpl alert recipients w =
     (if recipients = [] then (w, Inr ())
      else if \<not> present (resendApiKey cfg) \<or> \<not> present (resendFromEmail cfg)
      then (w, Inl ''email_notifier_disabled'')
      else (let m = buildAlertEmail E alert in
            case fetchImpl w ''https://api.resend.com/emails''
                   (json_post [(''authorization'', ''Bearer '' @ the (resendApiKey cfg))]
                      (stringify E (JObject [(''from'', JText (cps (the (resendFromEmail cfg)))), (''to'', JTexts recipients),
                         (''subject'', JText (em_subject m)), (''text'', JText (em_text m)), (''html'', JText (em_html m))]))) of
              (w', Inl err) \<Rightarrow> (w', Inl err)
            | (w', Inr r) \<Rightarrow>
                if ok_status r then (w', Inr ()) else (w', Inl (''email_delivery_failed_'' @ dec (status r)))))"

definition drop_last_slash :: "string \<Rightarrow> string" where
  "drop_last_slash s = (if s \<noteq> '''' \<and> last s = CHR ''/'' then butlast s else s)"

definition sendTelegramMessage ::
  "engine \<Rightarrow> notifier_config \<Rightarrow> 'w transport \<Rightarrow> string \<Rightarrow> nat list \<Rightarrow> string option \<Rightarrow> 'w \<Rightarrow> 'w \<times> (string + unit)" where
  "sendTelegramMessage E cfg fetchImpl chatId body telegramBotToken w =
     (let token = or_else telegramBotToken (cfg_telegramBotToken cfg) in
      if \<not> present token then (w, Inl ''telegram_notifier_disabled'')
      else (case fetchImpl w (drop_last_slash (telegramApiUrl cfg) @ ''/bot'' @ the token @ ''/sendMessage'')
                   (json_post [] (stringify E (JObject [(''chat_id'', JText (cps chatId)), (''text'', JText body),
                      (''disable_web_page_preview'', JBool True)]))) of
              (w', Inl err) \<Rightarrow> (w', Inl err)
            | (w', Inr r) \<Rightarrow>
                if \<not> ok_status r then (w', Inl (''telegram_delivery_failed_'' @ dec (status r)))
                else if reads_not_ok E r then (w', Inl ''telegram_delivery_failed_api_error'') else (w', Inr ())))"

definition WebhookAlertNotifier ::
  "engine \<Rightarrow> notifier_config \<Rightarrow> 'w transport \<Rightarrow> (string \<Rightarrow> url option) \<Rightarrow> (string \<Rightarrow> url \<Rightarrow> url option) \<Rightarrow> 'w notifier" where
  "WebhookAlertNotifier E cfg fetchImpl parseURL resolveURL =
     \<lparr>isEnabled = True,
      isEmailEnabled = (present (resendApiKey cfg) \<and> present (resendFromEmail cfg)),
      isTelegramEnabled = (\<lambda>token. present (or_else token (cfg_telegramBotToken cfg))),
      sendWebhook = webhook_send E cfg fetchImpl parseURL resolveURL,
      sendEmail = email_send E cfg fetchImpl,
      sendTelegram = (\<lambda>alert chatId token. sendTelegramMessage E cfg fetchImpl chatId (telegram_text alert) token),
      sendTelegramDigest = (\<lambda>payload.
         sendTelegramMessage E cfg fetchImpl (dp_chat payload) (digest_text payload) (dp_token payload))\<rparr>"

text \<open>\<open>NotificationsModule\<close>: the adapter the application is wired with.\<close>

definition ALERT_NOTIFIER ::
  "engine \<Rightarrow> notifier_config \<Rightarrow> 'w transport \<Rightarrow> (string \<Rightarrow> url option) \<Rightarrow> (string \<Rightarrow> url \<Rightarrow> url option) \<Rightarrow> 'w notifier" where
  "ALERT_NOTIFIER E cfg fetchImpl parseURL resolveURL =
     (if isEnabled (WebhookAlertNotifier E cfg fetchImpl parseURL resolveURL)
      then WebhookAlertNotifier E cfg fetchImpl parseURL resolveURL else NoopAlertNotifier)"

section \<open>Escaping\<close>

fun escape_unit :: "nat \<Rightarrow> nat list" where
  "escape_unit c =
     (if c = 38 then cps ''&amp;'' else if c = 60 then cps ''&lt;'' else if c = 62 then cps ''&gt;''
      else if c = 34 then cps ''&quot;'' else if c = 39 then cps ''&#39;'' else [c])"

lemma replace_unit_simps [simp]:
  "replace_unit c r [] = []"
  "replace_unit c r (x # v) = (if x = c then cps r else [x]) @ replace_unit c r v"
  "replace_unit c r (u @ v) = replace_unit c r u @ replace_unit c r v"
  by (simp_all add: replace_unit_def)

lemma escapeHtml_units: "escapeHtml v = concat (map escape_unit v)"
  by (induction v) (auto simp: escapeHtml_def)

text \<open>How HTML reads character data: the five references, anything else as it stands.\<close>

fun unescape :: "nat list \<Rightarrow> nat list" where
  "unescape [] = []"
| "unescape (c # cs) =
     (if c \<noteq> 38 then c # unescape cs
      else if prefix (cps ''amp;'') cs then 38 # unescape (drop 4 cs)
      else if prefix (cps ''lt;'') cs then 60 # unescape (drop 3 cs)
      else if prefix (cps ''gt;'') cs then 62 # unescape (drop 3 cs)
      else if prefix (cps ''quot;'') cs then 34 # unescape (drop 5 cs)
      else if prefix (cps ''#39;'') cs then 39 # unescape (drop 4 cs)
      else 38 # unescape cs)"

lemma unescape_escape_unit: "unescape (escape_unit c @ rest) = c # unescape rest"
  by (simp add: numeral_eq_Suc)

lemma unescape_escapeHtml: "unescape (escapeHtml v) = v"
  unfolding escapeHtml_units
  by (induction v) (simp_all only: list.map concat.simps unescape_escape_unit unescape.simps)

lemma escapeHtml_no_markup: "set (escapeHtml v) \<inter> {34, 39, 60, 62} = {}"
  unfolding escapeHtml_units by (induction v) auto

section \<open>Lengths\<close>

lemma truncate_text_length: "0 < n \<Longrightarrow> length (truncate_text v n) \<le> n"
  by (simp add: truncate_text_def)

lemma email_subject_length: "length (email_subject title) \<le> EMAIL_SUBJECT_MAX_LENGTH"
  unfolding email_subject_def by (rule truncate_text_length) (simp add: EMAIL_SUBJECT_MAX_LENGTH_def)


text \<open>
  A digest of ordinary items can be longer than the 4096 characters Telegram accepts: titles and
  snippets are cut, the links and the whole message are not.
\<close>

lemma join_lines_length: "length (join_lines ls) + 1 \<ge> length (concat ls) + length ls"
proof (induction ls)
  case (Cons l ls)
  then show ?case by (cases ls) (simp_all add: join_lines_def)
qed (simp add: join_lines_def)

definition long_line :: digest_line where
  "long_line = \<lparr>dl_title = Some (replicate 120 97), dl_snippet = Some (replicate 180 98),
     dl_link = Some (replicate 60 CHR ''c'')\<rparr>"

definition long_digest :: digest_payload where
  "long_digest = \<lparr>dp_tenant = ''acme'', dp_chat = ''1'', dp_window = [], dp_token = None,
     dp_items = replicate 12 long_line\<rparr>"

lemma no_space_run:
  "\<not> js_space c \<Longrightarrow> squash b (replicate n c) = replicate n c"
  by (induction n arbitrary: b) simp_all

lemma utrim_replicate: "\<not> js_space c \<Longrightarrow> utrim (replicate n c) = replicate n c"
  by (cases n) (simp_all add: utrim_def drop_end_id)

lemma units_replicate: "c < 0x10000 \<Longrightarrow> units (replicate n c) = replicate n c"
  by (induction n) (simp_all add: units_def)

lemma long_line_lines: "length (concat (digest_item_lines (i, long_line))) \<ge> 360"
proof -
  have s: "\<not> js_space 97" "\<not> js_space 98" by (simp_all add: js_space_def)
  have "telegram_title (Some (replicate 120 97)) ''Untitled'' = replicate 120 97"
    by (simp add: telegram_title_def Let_def units_replicate utrim_replicate s truncate_text_def
        TELEGRAM_TITLE_MAX_LENGTH_def)
  moreover have "summarizeTelegramContent (Some (replicate 180 98)) = Some (replicate 180 98)"
    by (simp add: summarizeTelegramContent_def Let_def units_replicate utrim_replicate no_space_run s
        truncate_text_def TELEGRAM_SNIPPET_MAX_LENGTH_def compact_text_def)
  ultimately show ?thesis
    by (simp add: digest_item_lines_def long_line_def link_text_def)
qed

lemma digest_exceeds_telegram_limit: "length (digest_text long_digest) > 4096"
proof -
  let ?items = "concat (map digest_item_lines (enumerate 0 (replicate 12 long_line)))"
  have items: "length (concat (concat (map digest_item_lines (enumerate k (replicate n long_line))))) \<ge> n * 360" for n k
  proof (induction n arbitrary: k)
    case (Suc n)
    then show ?case using long_line_lines [of k] by simp (metis add_mono)
  qed simp
  have "length (digest_text long_digest) + 1 \<ge> length (concat ?items)"
    using join_lines_length [of "[units ([0x1F4EC, 32] @ cps (''Alert digest ('' @ dec 12 @ '')'')), []] @ ?items"]
    by (simp add: digest_text_def long_digest_def)
  with items [of 12 0] show ?thesis by simp
qed

section \<open>Properties\<close>

text \<open>
  Whatever text an alert carries, its escaped form in the HTML mail reads back as exactly that text
  and contains no character that could open a tag or end an attribute.
\<close>

theorem html_escaping_faithful:
  "unescape (escapeHtml v) = v \<and> set (escapeHtml v) \<inter> {34, 39, 60, 62} = {}"
  using unescape_escapeHtml escapeHtml_no_markup by blast

end
