(* ===== verification/Email_Quota.thy ===== *)
theory Email_Quota imports FP_Prelude begin

text \<open>
  The per-tenant daily email quota:
  \<open>src/modules/notifications/infrastructure/email-rate-limit.service.ts\<close>.
  Redis is a parameter (\<open>redis\<close>): its four commands act on the state of the world and may fail.
  \<open>counts\<close> states what the code relies on: \<open>INCR\<close> and \<open>DECR\<close> change the counter by one and return
  it, \<open>EXPIRE\<close> does not change it.
  \<open>quota_step\<close> is the interleaving of any number of workers, cut at the Redis calls.
  Theorems: a reservation is granted exactly below the limit and costs one slot; however the workers
  interleave, no more than the limit hold a slot; what a degraded reservation breaks.
\<close>

section \<open>The service\<close>

record 'w redis =
  redis_get :: "string \<Rightarrow> 'w \<Rightarrow> 'w \<times> (string + string option)"
  redis_incr :: "string \<Rightarrow> 'w \<Rightarrow> 'w \<times> (string + int)"
  redis_decr :: "string \<Rightarrow> 'w \<Rightarrow> 'w \<times> (string + int)"
  redis_expire :: "string \<Rightarrow> nat \<Rightarrow> 'w \<Rightarrow> 'w \<times> (string + int)"

definition COUNTER_TTL_SECONDS :: nat where
  "COUNTER_TTL_SECONDS = 25 * 60 * 60"

definition DEFAULT_RESEND_DAILY_LIMIT :: int where
  "DEFAULT_RESEND_DAILY_LIMIT = 100"

definition EMAIL_QUOTA_EXCEEDED_REASON :: string where
  "EMAIL_QUOTA_EXCEEDED_REASON = ''quota_exceeded''"

record quota_decision =
  quota_allowed :: bool
  quota_limit :: int
  quota_used :: int
  quota_degraded :: bool

text \<open>\<open>None\<close>: not configured, or not a finite number.\<close>

definition dailyLimit :: "int option \<Rightarrow> int" where
  "dailyLimit configured = opt_else configured DEFAULT_RESEND_DAILY_LIMIT"

text \<open>\<open>new Date(now).toISOString().slice(0, 10)\<close>, for the years 1970 to 9999.\<close>

definition pad2 :: "nat \<Rightarrow> string" where
  "pad2 n = (if n < 10 then CHR ''0'' # dec n else dec n)"

text \<open>Days are counted from 1 March of the year 0; an era is 400 years.\<close>

definition year_of_era :: "nat \<Rightarrow> nat" where
  "year_of_era doe = (doe - doe div 1460 + doe div 36524 - doe div 146096) div 365"

definition day_of_year :: "nat \<Rightarrow> nat" where
  "day_of_year doe = doe - (365 * year_of_era doe + year_of_era doe div 4 - year_of_era doe div 100)"

definition month_index :: "nat \<Rightarrow> nat" where
  "month_index doy = (5 * doy + 2) div 153"

definition month_number :: "nat \<Rightarrow> nat" where
  "month_number mp = (if mp < 10 then mp + 3 else mp - 9)"

definition day_of_month :: "nat \<Rightarrow> nat" where
  "day_of_month doy = doy - (153 * month_index doy + 2) div 5 + 1"

definition date_text :: "nat \<Rightarrow> nat \<Rightarrow> nat \<Rightarrow> string" where
  "date_text y m d = dec (if m \<le> 2 then y + 1 else y) @ ''-'' @ pad2 m @ ''-'' @ pad2 d"

definition utc_day :: "nat \<Rightarrow> string" where
  "utc_day now =
     (let z = now div 86400000 + 719468; doe = z mod 146097; doy = day_of_year doe in
      date_text (year_of_era doe + z div 146097 * 400) (month_number (month_index doy)) (day_of_month doy))"

definition buildKey :: "string \<Rightarrow> nat \<Rightarrow> string" where
  "buildKey tenantId now = ''email:daily:'' @ tenantId @ '':'' @ utc_day now"

definition giveBack :: "'w redis \<Rightarrow> string \<Rightarrow> 'w \<Rightarrow> 'w \<times> (string + unit)" where
  "giveBack R key w =
     (case redis_decr R key w of
        (w1, Inl err) \<Rightarrow> (w1, Inl err)
      | (w1, Inr remaining) \<Rightarrow>
          if remaining \<le> 0 then
            (case redis_expire R key COUNTER_TTL_SECONDS w1 of
               (w2, Inl err) \<Rightarrow> (w2, Inl err) | (w2, Inr _) \<Rightarrow> (w2, Inr ()))
          else (w1, Inr ()))"

text \<open>What the counter returned by \<open>INCR\<close> decides.\<close>

datatype reserve_next = Allow | Overshoot

definition after_incr :: "int \<Rightarrow> int \<Rightarrow> reserve_next" where
  "after_incr limit used = (if used > limit then Overshoot else Allow)"

definition try_reserve :: "'w redis \<Rightarrow> int \<Rightarrow> string \<Rightarrow> 'w \<Rightarrow> 'w \<times> (string + quota_decision)" where
  "try_reserve R limit key w =
     (case redis_incr R key w of
        (w1, Inl err) \<Rightarrow> (w1, Inl err)
      | (w1, Inr used) \<Rightarrow>
          (case (if used = 1 then redis_expire R key COUNTER_TTL_SECONDS w1 else (w1, Inr 0)) of
             (w2, Inl err) \<Rightarrow> (w2, Inl err)
           | (w2, Inr _) \<Rightarrow>
               (case after_incr limit used of
                  Overshoot \<Rightarrow>
                    (case giveBack R key w2 of
                       (w3, Inl err) \<Rightarrow> (w3, Inl err)
                     | (w3, Inr _) \<Rightarrow>
                         (w3, Inr \<lparr>quota_allowed = False, quota_limit = limit, quota_used = limit, quota_degraded = False\<rparr>))
                | Allow \<Rightarrow>
                    (w2, Inr \<lparr>quota_allowed = True, quota_limit = limit, quota_used = used, quota_degraded = False\<rparr>))))"

definition reserve :: "'w redis \<Rightarrow> int option \<Rightarrow> nat \<Rightarrow> string \<Rightarrow> 'w \<Rightarrow> 'w \<times> quota_decision" where
  "reserve R configured now tenantId w =
     (let limit = dailyLimit configured in
      if limit \<le> 0 then (w, \<lparr>quota_allowed = True, quota_limit = limit, quota_used = 0, quota_degraded = False\<rparr>)
      else (case try_reserve R limit (buildKey tenantId now) w of
              (w', Inl err) \<Rightarrow>
                (w', \<lparr>quota_allowed = True, quota_limit = limit, quota_used = 0, quota_degraded = True\<rparr>)
            | (w', Inr decision) \<Rightarrow> (w', decision)))"

definition release :: "'w redis \<Rightarrow> int option \<Rightarrow> nat \<Rightarrow> string \<Rightarrow> 'w \<Rightarrow> 'w" where
  "release R configured now tenantId w =
     (if dailyLimit configured \<le> 0 then w else fst (giveBack R (buildKey tenantId now) w))"

definition getUsage :: "'w redis \<Rightarrow> int option \<Rightarrow> nat \<Rightarrow> string \<Rightarrow> 'w \<Rightarrow> 'w \<times> int \<times> int" where
  "getUsage R configured now tenantId w =
     (let limit = dailyLimit configured in
      case redis_get R (buildKey tenantId now) w of
        (w', Inl err) \<Rightarrow> (w', 0, limit)
      | (w', Inr raw) \<Rightarrow>
          (let cnt = (case raw of None \<Rightarrow> Some 0 | Some s \<Rightarrow> js_parseInt s) in
           (w', (case cnt of Some n \<Rightarrow> if n > 0 then n else 0 | None \<Rightarrow> 0), limit)))"

section \<open>One reservation\<close>

text \<open>
  The documented behaviour of the Redis commands while the server answers: \<open>cnt w key\<close> is the counter
  stored under \<open>key\<close>, 0 when there is none.
\<close>

definition counts :: "'w redis \<Rightarrow> ('w \<Rightarrow> string \<Rightarrow> int) \<Rightarrow> bool" where
  "counts R cnt \<longleftrightarrow>
     (\<forall>k w. \<exists>w'. redis_incr R k w = (w', Inr (cnt w k + 1)) \<and> cnt w' = (cnt w)(k := cnt w k + 1))
     \<and> (\<forall>k w. \<exists>w'. redis_decr R k w = (w', Inr (cnt w k - 1)) \<and> cnt w' = (cnt w)(k := cnt w k - 1))
     \<and> (\<forall>k t w. \<exists>w' n. redis_expire R k t w = (w', Inr n) \<and> cnt w' = cnt w)"

lemma counts_incr:
  assumes "counts R cnt"
  obtains w' where "redis_incr R k w = (w', Inr (cnt w k + 1))" "cnt w' = (cnt w)(k := cnt w k + 1)"
  using assms unfolding counts_def by blast

lemma counts_decr:
  assumes "counts R cnt"
  obtains w' where "redis_decr R k w = (w', Inr (cnt w k - 1))" "cnt w' = (cnt w)(k := cnt w k - 1)"
  using assms unfolding counts_def by blast

lemma counts_expire:
  assumes "counts R cnt"
  obtains w' n where "redis_expire R k t w = (w', Inr n)" "cnt w' = cnt w"
  using assms unfolding counts_def by blast

lemma giveBack_counts:
  assumes "counts R cnt"
  shows "\<exists>w'. giveBack R k w = (w', Inr ()) \<and> cnt w' = (cnt w)(k := cnt w k - 1)"
proof -
  obtain w1 where w1: "redis_decr R k w = (w1, Inr (cnt w k - 1))" "cnt w1 = (cnt w)(k := cnt w k - 1)"
    using counts_decr [OF assms] .
  obtain w2 n where w2: "redis_expire R k COUNTER_TTL_SECONDS w1 = (w2, Inr n)" "cnt w2 = cnt w1"
    using counts_expire [OF assms] .
  show ?thesis
    by (cases "cnt w k - 1 \<le> 0") (simp_all add: giveBack_def w1 w2)
qed

lemma reserve_counts:
  assumes "counts R cnt" and lim: "dailyLimit configured > 0"
  shows "\<exists>w' d. reserve R configured now t w = (w', d) \<and> \<not> quota_degraded d
    \<and> (quota_allowed d \<longleftrightarrow> cnt w (buildKey t now) < dailyLimit configured)
    \<and> cnt w' = (if quota_allowed d then (cnt w)(buildKey t now := cnt w (buildKey t now) + 1) else cnt w)"
proof -
  let ?k = "buildKey t now"
  obtain w1 where w1: "redis_incr R ?k w = (w1, Inr (cnt w ?k + 1))" "cnt w1 = (cnt w)(?k := cnt w ?k + 1)"
    using counts_incr [OF assms(1)] .
  obtain w2 m where w2: "(if cnt w ?k + 1 = 1 then redis_expire R ?k COUNTER_TTL_SECONDS w1 else (w1, Inr 0)) = (w2, Inr m)"
    "cnt w2 = cnt w1"
  proof (cases "cnt w ?k + 1 = 1")
    case True
    obtain u n where "redis_expire R ?k COUNTER_TTL_SECONDS w1 = (u, Inr n)" "cnt u = cnt w1"
      using counts_expire [OF assms(1)] .
    with True that show thesis by simp
  next
    case False
    with that [of w1 0] show thesis by simp
  qed
  obtain w3 where w3: "giveBack R ?k w2 = (w3, Inr ())" "cnt w3 = (cnt w2)(?k := cnt w2 ?k - 1)"
    using giveBack_counts [OF assms(1)] by blast
  have "cnt w3 = cnt w" using w1 w2 w3 by (auto simp: fun_eq_iff)
  then show ?thesis
    using lim w1 w2 w3 by (simp add: reserve_def try_reserve_def Let_def after_incr_def w2(1))
qed

section \<open>Workers in parallel\<close>

text \<open>
  The counter of one tenant and day, and the workers that reserve on it. A step is one Redis call:
  \<open>INCR\<close> and the decision on its result, the \<open>DECR\<close> of an overshoot, the \<open>DECR\<close> of a release. The
  \<open>outage\<close> flag allows a reservation whose \<open>INCR\<close> failed: it is granted without being counted.
\<close>

datatype phase = Idle | Granted | GrantedDegraded | Overshot | Denied | Released

inductive quota_step :: "bool \<Rightarrow> int \<Rightarrow> int \<times> phase list \<Rightarrow> int \<times> phase list \<Rightarrow> bool"
  for outage :: bool and limit :: int where
  granted: "i < length ws \<Longrightarrow> ws ! i = Idle \<Longrightarrow> after_incr limit (c + 1) = Allow
    \<Longrightarrow> quota_step outage limit (c, ws) (c + 1, ws[i := Granted])"
| overshot: "i < length ws \<Longrightarrow> ws ! i = Idle \<Longrightarrow> after_incr limit (c + 1) = Overshoot
    \<Longrightarrow> quota_step outage limit (c, ws) (c + 1, ws[i := Overshot])"
| gave_back: "i < length ws \<Longrightarrow> ws ! i = Overshot \<Longrightarrow> quota_step outage limit (c, ws) (c - 1, ws[i := Denied])"
| released: "i < length ws \<Longrightarrow> ws ! i = Granted \<Longrightarrow> quota_step outage limit (c, ws) (c - 1, ws[i := Released])"
| failed_open: "outage \<Longrightarrow> i < length ws \<Longrightarrow> ws ! i = Idle
    \<Longrightarrow> quota_step outage limit (c, ws) (c, ws[i := GrantedDegraded])"
| released_degraded: "i < length ws \<Longrightarrow> ws ! i = GrantedDegraded
    \<Longrightarrow> quota_step outage limit (c, ws) (c - 1, ws[i := Released])"

inductive_cases quota_stepE: "quota_step outage limit s s'"

definition in_phase :: "phase \<Rightarrow> phase list \<Rightarrow> int" where
  "in_phase p ws = int (length (filter (\<lambda>x. x = p) ws))"

lemma in_phase_update:
  assumes "i < length ws"
  shows "in_phase p (ws[i := q]) = in_phase p ws - (if ws ! i = p then 1 else 0) + (if q = p then 1 else 0)"
  using assms
proof (induction ws arbitrary: i)
  case (Cons x ws)
  show ?case
  proof (cases i)
    case (Suc j)
    with Cons.IH [of j] Cons.prems show ?thesis by (auto simp: in_phase_def)
  qed (simp add: in_phase_def)
qed simp

lemma in_phase_nonneg: "0 \<le> in_phase p ws"
  by (simp add: in_phase_def)

definition quota_inv :: "int \<Rightarrow> int \<times> phase list \<Rightarrow> bool" where
  "quota_inv limit s \<longleftrightarrow>
     fst s = in_phase Granted (snd s) + in_phase Overshot (snd s)
     \<and> in_phase Granted (snd s) \<le> limit \<and> in_phase GrantedDegraded (snd s) = 0"

lemma quota_step_inv:
  assumes "quota_step False limit s s'" and "quota_inv limit s"
  shows "quota_inv limit s'"
  using assms
proof (induction rule: quota_step.induct)
  case (granted i ws c)
  then have "c + 1 \<le> limit" by (simp add: after_incr_def split: if_splits)
  with granted show ?case
    using in_phase_nonneg [of Overshot ws] by (simp add: quota_inv_def in_phase_update)
next
  case (released_degraded i ws c)
  then have "GrantedDegraded \<in> set ws" using nth_mem by metis
  with released_degraded(3) show ?case by (auto simp: quota_inv_def in_phase_def filter_empty_conv)
qed (auto simp: quota_inv_def in_phase_update)

lemma quota_steps_inv:
  "(quota_step False limit)\<^sup>*\<^sup>* s s' \<Longrightarrow> quota_inv limit s \<Longrightarrow> quota_inv limit s'"
  by (induction rule: rtranclp_induct) (auto intro: quota_step_inv)

section \<open>Properties\<close>

text \<open>
  While Redis answers, a reservation under a positive limit is granted exactly when fewer than
  the limit are counted for the tenant's day; it then costs one slot, and a refused one costs none.
\<close>

theorem reserve_grants_below_limit:
  assumes "counts R cnt" and "dailyLimit configured > 0"
    and "reserve R configured now tenant w = (w', d)"
  shows "(quota_allowed d \<longleftrightarrow> cnt w (buildKey tenant now) < dailyLimit configured) \<and> \<not> quota_degraded d
    \<and> cnt w' = (if quota_allowed d then (cnt w)(buildKey tenant now := cnt w (buildKey tenant now) + 1) else cnt w)"
  using reserve_counts [OF assms(1,2), of now tenant w] assms(3) by auto

text \<open>A Redis that always answers, with the counters as its only state.\<close>

definition mem_redis :: "(string \<Rightarrow> int) redis" where
  "mem_redis = \<lparr>redis_get = (\<lambda>k w. (w, Inr None)),
     redis_incr = (\<lambda>k w. (w(k := w k + 1), Inr (w k + 1))),
     redis_decr = (\<lambda>k w. (w(k := w k - 1), Inr (w k - 1))),
     redis_expire = (\<lambda>k t w. (w, Inr 1))\<rparr>"

lemma counts_mem_redis: "counts mem_redis (\<lambda>w. w)"
  by (simp add: counts_def mem_redis_def)

lemma reserve_grants_below_limit_witness:
  "\<exists>w1 d1 w2 d2. reserve mem_redis (Some 1) 0 ''acme'' (\<lambda>k. 0) = (w1, d1) \<and> quota_allowed d1
     \<and> reserve mem_redis (Some 1) 0 ''acme'' w1 = (w2, d2) \<and> \<not> quota_allowed d2 \<and> w2 = w1"
proof -
  obtain w1 d1 where r1: "reserve mem_redis (Some 1) 0 ''acme'' (\<lambda>k. 0) = (w1, d1)" by fastforce
  obtain w2 d2 where r2: "reserve mem_redis (Some 1) 0 ''acme'' w1 = (w2, d2)" by fastforce
  have lim: "dailyLimit (Some 1) > 0" "dailyLimit (Some 1) = 1" by (simp_all add: dailyLimit_def)
  note p1 = reserve_grants_below_limit [OF counts_mem_redis lim(1) r1]
  note p2 = reserve_grants_below_limit [OF counts_mem_redis lim(1) r2]
  have "quota_allowed d1" using p1 lim(2) by simp
  moreover from this have "w1 (buildKey ''acme'' 0) = 1" using p1 by simp
  then have "\<not> quota_allowed d2" "w2 = w1" using p2 lim(2) by auto
  ultimately show ?thesis using r1 r2 by blast
qed


lemma quota_race: "(quota_step False 1)\<^sup>*\<^sup>* (0, replicate 3 Idle) (2, [Granted, Overshot, Idle])"
proof -
  have "quota_step False 1 (0, [Idle, Idle, Idle]) (0 + 1, [Idle, Idle, Idle][0 := Granted])"
    by (rule quota_step.granted) (simp_all add: after_incr_def)
  moreover have "quota_step False 1 (1, [Granted, Idle, Idle]) (1 + 1, [Granted, Idle, Idle][1 := Overshot])"
    by (rule quota_step.overshot) (simp_all add: after_incr_def)
  ultimately show ?thesis
    by (simp add: numeral_3_eq_3)
qed


text \<open>
  With an outage the bound fails: a reservation that failed open was never counted, and releasing it
  after a failed send takes a slot from the counter all the same.
\<close>

lemma degraded_release_overspends:
  "\<exists>c. (quota_step True 1)\<^sup>*\<^sup>* (0, replicate 3 Idle) (c, [Released, Granted, Granted])"
proof -
  have 1: "quota_step True 1 (0, [Idle, Idle, Idle]) (0, [Idle, Idle, Idle][0 := GrantedDegraded])"
    by (rule quota_step.failed_open) simp_all
  have 2: "quota_step True 1 (0, [GrantedDegraded, Idle, Idle]) (0 - 1, [GrantedDegraded, Idle, Idle][0 := Released])"
    by (rule quota_step.released_degraded) simp_all
  have 3: "quota_step True 1 (-1, [Released, Idle, Idle]) (-1 + 1, [Released, Idle, Idle][1 := Granted])"
    by (rule quota_step.granted) (simp_all add: after_incr_def)
  have 4: "quota_step True 1 (0, [Released, Granted, Idle]) (0 + 1, [Released, Granted, Idle][2 := Granted])"
    by (rule quota_step.granted) (simp_all add: after_incr_def)
  show ?thesis
    using 1 2 3 4 by (simp add: numeral_3_eq_3 numeral_2_eq_2)
      (meson rtranclp.rtrancl_into_rtrancl rtranclp.rtrancl_refl)
qed

text \<open>A release after midnight (UTC) goes to the next day's counter.\<close>

lemma day_eval: "year_of_era 135080 = 369" "year_of_era 135081 = 369"
  by (simp_all add: year_of_era_def)

lemma doy_eval: "day_of_year 135080 = 306" "day_of_year 135081 = 307"
  by (simp_all add: day_of_year_def day_eval)

lemma month_eval: "month_index 306 = 10" "month_index 307 = 10"
  by (simp_all add: month_index_def)

lemma dom_eval: "day_of_month 306 = 1" "day_of_month 307 = 2"
  by (simp_all add: day_of_month_def month_eval)

lemma text_eval: "date_text 1969 1 1 = ''1970-01-01''" "date_text 1969 1 2 = ''1970-01-02''"
  by code_simp+

lemma day_texts: "utc_day 86399999 = ''1970-01-01''" "utc_day 86400000 = ''1970-01-02''"
proof -
  have z: "86399999 div 86400000 + 719468 = (719468::nat)" "86400000 div 86400000 + 719468 = (719469::nat)"
    "719468 mod 146097 = (135080::nat)" "719469 mod 146097 = (135081::nat)"
    "719468 div 146097 = (4::nat)" "719469 div 146097 = (4::nat)" "369 + 4 * 400 = (1969::nat)"
    by simp_all
  have m: "month_number 10 = 1" by (simp add: month_number_def)
  show "utc_day 86399999 = ''1970-01-01''" "utc_day 86400000 = ''1970-01-02''"
    unfolding utc_day_def Let_def z day_eval doy_eval month_eval dom_eval m by (rule text_eval)+
qed

lemma release_after_midnight:
  "fst (reserve mem_redis (Some 1) 86399999 ''acme'' (\<lambda>k. 0)) (buildKey ''acme'' 86399999) = 1
   \<and> release mem_redis (Some 1) 86400000 ''acme'' (fst (reserve mem_redis (Some 1) 86399999 ''acme'' (\<lambda>k. 0)))
       (buildKey ''acme'' 86400000) = -1"
  by (simp add: reserve_def try_reserve_def mem_redis_def dailyLimit_def after_incr_def release_def
      giveBack_def buildKey_def day_texts)

end
