(* ===== verification/Tenant_Secrets.thy ===== *)
theory Tenant_Secrets imports Keyword_Match "HOL-Library.Word" "HOL-Library.AList" begin

text \<open>
  Envelope encryption of the per-tenant secrets: \<open>src/modules/settings/tenant-secrets.service.ts\<close>.
  The cryptography of Node (SHA-256, scrypt, AES-256-GCM, base64) is the record \<open>crypto\<close>, a
  parameter; \<open>crypto_ok\<close> states its documented behaviour: what was sealed opens under the same key,
  IV and associated data, and under no other associated data; nothing non-empty becomes empty.
  The module-level cache of derived keys and the set of reported weak keys are an explicit state; the
  cache is an interpretation of the locale \<open>memoized\<close>.
  Theorems: what is encrypted for a tenant decrypts for it, whatever the caches hold, and for no
  other tenant.
\<close>

section \<open>Parameters and data\<close>

type_synonym bytes = "8 word list"

record crypto =
  sha256 :: "string \<Rightarrow> bytes"
  hex :: "bytes \<Rightarrow> string"
  scrypt :: "string \<Rightarrow> bytes"
  seal :: "bytes \<Rightarrow> bytes \<Rightarrow> string option \<Rightarrow> string \<Rightarrow> bytes \<times> bytes"
  unseal :: "bytes \<Rightarrow> bytes \<Rightarrow> string option \<Rightarrow> bytes \<Rightarrow> bytes \<Rightarrow> string option"
  base64 :: "bytes \<Rightarrow> string"
  unbase64 :: "string \<Rightarrow> bytes"

record encrypted_secret =
  ciphertext :: string
  iv :: string
  auth_tag :: string
  keyVersion :: int

definition TENANT_SECRET_KEY_VERSION_LEGACY_SHA256 :: int where
  "TENANT_SECRET_KEY_VERSION_LEGACY_SHA256 = 1"

definition TENANT_SECRET_KEY_VERSION_SCRYPT_AAD :: int where
  "TENANT_SECRET_KEY_VERSION_SCRYPT_AAD = 2"

definition CURRENT_TENANT_SECRET_KEY_VERSION :: int where
  "CURRENT_TENANT_SECRET_KEY_VERSION = TENANT_SECRET_KEY_VERSION_SCRYPT_AAD"

definition SUPPORTED_KEY_VERSIONS :: "int set" where
  "SUPPORTED_KEY_VERSIONS = {TENANT_SECRET_KEY_VERSION_LEGACY_SHA256, TENANT_SECRET_KEY_VERSION_SCRYPT_AAD}"

lemmas version_defs [simp] = TENANT_SECRET_KEY_VERSION_LEGACY_SHA256_def
  TENANT_SECRET_KEY_VERSION_SCRYPT_AAD_def CURRENT_TENANT_SECRET_KEY_VERSION_def SUPPORTED_KEY_VERSIONS_def

datatype failure_reason = master_key_missing | unknown_key_version | decrypt_failed

text \<open>
  The exceptions: two bad requests, the missing master key, and the decryption error with its message.
\<close>

datatype secret_error =
  TenantIdRequired
| TelegramTokenEmpty
| TenantSecretsMasterKeyMissingError
| TenantSecretDecryptError string failure_reason

section \<open>Weak master keys\<close>

definition MIN_TENANT_SECRETS_MASTER_KEY_BYTES :: nat where
  "MIN_TENANT_SECRETS_MASTER_KEY_BYTES = 32"

definition KNOWN_WEAK_MASTER_KEYS :: "string set" where
  "KNOWN_WEAK_MASTER_KEYS =
     {''change-me'', ''changeme'', ''default'', ''dev'', ''development'', ''feedpulse'', ''local'',
      ''master'', ''master_key'', ''master_test'', ''password'', ''secret'', ''test''}"

text \<open>\<open>/^[A-Za-z0-9+/\-_]+={0,2}$/\<close>.\<close>

definition base64_char :: "char \<Rightarrow> bool" where
  "base64_char c \<longleftrightarrow>
     is_digit c \<or> c \<in> set ''ABCDEFGHIJKLMNOPQRSTUVWXYZabcdefghijklmnopqrstuvwxyz+/-_''"

definition BASE64_LIKE :: "string \<Rightarrow> bool" where
  "BASE64_LIKE s \<longleftrightarrow> takeWhile base64_char s \<noteq> '''' \<and> dropWhile base64_char s \<in> {'''', ''='', ''==''}"

text \<open>\<open>Buffer.byteLength(s, 'utf8')\<close> for code units below U+0100.\<close>

definition utf8_length :: "string \<Rightarrow> nat" where
  "utf8_length s = sum_list (map (\<lambda>c. if (of_char c :: nat) < 128 then 1 else 2) s)"

definition isWeakTenantSecretsMasterKey :: "crypto \<Rightarrow> string \<Rightarrow> bool" where
  "isWeakTenantSecretsMasterKey C masterKey =
     (let normalized = js_trim masterKey in
      if normalized = '''' then True
      else if js_lower normalized \<in> KNOWN_WEAK_MASTER_KEYS then True
      else (let decodedBytes = (if BASE64_LIKE normalized then length (unbase64 C normalized) else 0) in
            max decodedBytes (utf8_length normalized) < MIN_TENANT_SECRETS_MASTER_KEY_BYTES))"

definition buildAdditionalAuthenticatedData :: "string \<Rightarrow> string" where
  "buildAdditionalAuthenticatedData tenantId = ''feedpulse:telegram_bot_token:'' @ tenantId"

section \<open>Derived keys\<close>

record secrets_state =
  derivedKeyCache :: "(string \<times> bytes) list"
  weakMasterKeysReported :: "string list"

definition DERIVED_KEY_CACHE_LIMIT :: nat where
  "DERIVED_KEY_CACHE_LIMIT = 8"

definition cacheDerivedKey :: "string \<Rightarrow> bytes \<Rightarrow> (string \<times> bytes) list \<Rightarrow> (string \<times> bytes) list" where
  "cacheDerivedKey cacheKey key cache =
     (let cache' = (if length cache \<ge> DERIVED_KEY_CACHE_LIMIT then [] else cache) in
      AList.update cacheKey key cache')"

definition warnOnceIfWeak :: "crypto \<Rightarrow> string \<Rightarrow> string \<Rightarrow> string list \<Rightarrow> string list" where
  "warnOnceIfWeak C masterKey masterKeyFingerprint reported =
     (if masterKeyFingerprint \<in> set reported \<or> \<not> isWeakTenantSecretsMasterKey C masterKey then reported
      else reported @ [masterKeyFingerprint])"

definition js_int :: "int \<Rightarrow> string" where
  "js_int n = (if n < 0 then CHR ''-'' # dec (nat (- n)) else dec (nat n))"

definition cache_key :: "crypto \<Rightarrow> string \<Rightarrow> int \<Rightarrow> string" where
  "cache_key C masterKey version = js_int version @ '':'' @ hex C (sha256 C masterKey)"

definition derive_key :: "crypto \<Rightarrow> string \<Rightarrow> int \<Rightarrow> bytes" where
  "derive_key C masterKey version =
     (if version = TENANT_SECRET_KEY_VERSION_LEGACY_SHA256 then sha256 C masterKey else scrypt C masterKey)"

definition derived_master_key :: "crypto \<Rightarrow> string \<Rightarrow> int \<Rightarrow> secrets_state \<Rightarrow> secrets_state \<times> bytes" where
  "derived_master_key C masterKey version st =
     (case map_of (derivedKeyCache st) (cache_key C masterKey version) of
        Some cached \<Rightarrow> (st, cached)
      | None \<Rightarrow>
          (let key = derive_key C masterKey version in
           (st\<lparr>weakMasterKeysReported :=
                 warnOnceIfWeak C masterKey (hex C (sha256 C masterKey)) (weakMasterKeysReported st),
               derivedKeyCache := cacheDerivedKey (cache_key C masterKey version) key (derivedKeyCache st)\<rparr>, key)))"

text \<open>The configured master key: absent or empty throws.\<close>

definition getDerivedMasterKeyOrThrow ::
  "crypto \<Rightarrow> string option \<Rightarrow> int \<Rightarrow> secrets_state \<Rightarrow> secrets_state \<times> (secret_error + bytes)" where
  "getDerivedMasterKeyOrThrow C masterKey version st =
     (case masterKey of
        None \<Rightarrow> (st, Inl TenantSecretsMasterKeyMissingError)
      | Some mk \<Rightarrow>
          if mk = '''' then (st, Inl TenantSecretsMasterKeyMissingError)
          else (case derived_master_key C mk version st of (st', key) \<Rightarrow> (st', Inr key)))"

section \<open>Encryption and decryption\<close>

definition canUseTenantSecrets :: "string option \<Rightarrow> bool" where
  "canUseTenantSecrets masterKey \<longleftrightarrow> masterKey \<noteq> None \<and> masterKey \<noteq> Some ''''"

text \<open>\<open>nonce\<close> are the twelve bytes \<open>randomBytes\<close> returned.\<close>

definition encryptTelegramBotToken ::
  "crypto \<Rightarrow> string option \<Rightarrow> bytes \<Rightarrow> string \<Rightarrow> string \<Rightarrow> secrets_state
   \<Rightarrow> secrets_state \<times> (secret_error + encrypted_secret)" where
  "encryptTelegramBotToken C masterKey nonce tenantId token st =
     (if tenantId = '''' then (st, Inl TenantIdRequired)
      else if token = '''' then (st, Inl TelegramTokenEmpty)
      else (case getDerivedMasterKeyOrThrow C masterKey CURRENT_TENANT_SECRET_KEY_VERSION st of
              (st', Inl err) \<Rightarrow> (st', Inl err)
            | (st', Inr key) \<Rightarrow>
                (case seal C key nonce (Some (buildAdditionalAuthenticatedData tenantId)) token of
                   (c, t) \<Rightarrow>
                     (st', Inr \<lparr>ciphertext = base64 C c, iv = base64 C nonce, auth_tag = base64 C t,
                                keyVersion = CURRENT_TENANT_SECRET_KEY_VERSION\<rparr>))))"

definition decryptTelegramBotToken ::
  "crypto \<Rightarrow> string option \<Rightarrow> string \<Rightarrow> encrypted_secret \<Rightarrow> secrets_state
   \<Rightarrow> secrets_state \<times> (secret_error + string)" where
  "decryptTelegramBotToken C masterKey tenantId secret st =
     (if tenantId = '''' then (st, Inl TenantIdRequired)
      else if keyVersion secret \<notin> SUPPORTED_KEY_VERSIONS then
        (st, Inl (TenantSecretDecryptError
                    (''tenant_secrets_unknown_key_version:'' @ js_int (keyVersion secret)) unknown_key_version))
      else (case getDerivedMasterKeyOrThrow C masterKey (keyVersion secret) st of
              (st', Inl err) \<Rightarrow> (st', Inl err)
            | (st', Inr key) \<Rightarrow>
                (let aad = (if keyVersion secret = TENANT_SECRET_KEY_VERSION_SCRYPT_AAD
                            then Some (buildAdditionalAuthenticatedData tenantId) else None) in
                 case unseal C key (unbase64 C (iv secret)) aad (unbase64 C (ciphertext secret))
                        (unbase64 C (auth_tag secret)) of
                   None \<Rightarrow> (st', Inl (TenantSecretDecryptError ''tenant_telegram_token_decrypt_failed'' decrypt_failed))
                 | Some plaintext \<Rightarrow>
                     if plaintext = ''''
                     then (st', Inl (TenantSecretDecryptError ''tenant_telegram_token_empty_after_decrypt'' decrypt_failed))
                     else (st', Inr plaintext))))"

definition needsKeyVersionUpgrade :: "encrypted_secret \<Rightarrow> bool" where
  "needsKeyVersionUpgrade secret \<longleftrightarrow> keyVersion secret \<noteq> CURRENT_TENANT_SECRET_KEY_VERSION"

definition reencryptTelegramBotToken ::
  "crypto \<Rightarrow> string option \<Rightarrow> bytes \<Rightarrow> string \<Rightarrow> encrypted_secret \<Rightarrow> secrets_state
   \<Rightarrow> secrets_state \<times> (secret_error + encrypted_secret option)" where
  "reencryptTelegramBotToken C masterKey nonce tenantId secret st =
     (if \<not> needsKeyVersionUpgrade secret then (st, Inr None)
      else (case decryptTelegramBotToken C masterKey tenantId secret st of
              (st1, Inl err) \<Rightarrow> (st1, Inl err)
            | (st1, Inr plaintext) \<Rightarrow>
                (case encryptTelegramBotToken C masterKey nonce tenantId plaintext st1 of
                   (st2, Inl err) \<Rightarrow> (st2, Inl err)
                 | (st2, Inr secret') \<Rightarrow> (st2, Inr (Some secret')))))"


section \<open>The cache of derived keys\<close>

lemma js_int_inject [simp]: "js_int m = js_int n \<longleftrightarrow> m = n"
proof -
  have no_minus: "dec k \<noteq> CHR ''-'' # s" for k s
    using dec_digits [of k] by (auto simp: is_digit_def)
  have "CHR ''-'' # s \<noteq> dec k" for k s
    using no_minus by metis
  with no_minus show ?thesis by (auto simp: js_int_def)
qed

lemma cache_key_inject [simp]: "cache_key C mk v = cache_key C mk w \<longleftrightarrow> v = w"
  by (simp add: cache_key_def)

definition secrets_ok :: "crypto \<Rightarrow> string \<Rightarrow> secrets_state \<Rightarrow> bool" where
  "secrets_ok C mk st \<longleftrightarrow>
     length (derivedKeyCache st) \<le> DERIVED_KEY_CACHE_LIMIT
     \<and> (\<forall>v key. map_of (derivedKeyCache st) (cache_key C mk v) = Some key \<longrightarrow> key = derive_key C mk v)"

lemma update_fresh: "map_of al k = None \<Longrightarrow> AList.update k v al = al @ [(k, v)]"
  by (induction al) (auto split: if_splits)

lemma cacheDerivedKey_length:
  assumes "map_of cache k = None" and "length cache \<le> DERIVED_KEY_CACHE_LIMIT"
  shows "length (cacheDerivedKey k v cache) \<le> DERIVED_KEY_CACHE_LIMIT"
  using assms by (auto simp: cacheDerivedKey_def Let_def update_fresh DERIVED_KEY_CACHE_LIMIT_def)

interpretation secret_memo:
  memoized "derived_master_key C mk" "derive_key C mk" "secrets_ok C mk" for C mk
proof
  fix st v
  assume ok: "secrets_ok C mk st"
  show "snd (derived_master_key C mk v st) = derive_key C mk v"
    using ok by (auto simp: derived_master_key_def Let_def secrets_ok_def split: option.splits)
  show "secrets_ok C mk (fst (derived_master_key C mk v st))"
  proof (cases "map_of (derivedKeyCache st) (cache_key C mk v)")
    case None
    have "map_of (cacheDerivedKey (cache_key C mk v) (derive_key C mk v) (derivedKeyCache st)) (cache_key C mk w) = Some key
        \<longrightarrow> key = derive_key C mk w" for w key
      using ok by (auto simp: cacheDerivedKey_def Let_def update_conv' secrets_ok_def split: if_splits)
    moreover have "length (derivedKeyCache st) \<le> DERIVED_KEY_CACHE_LIMIT"
      using ok by (simp add: secrets_ok_def)
    moreover have "derivedKeyCache (fst (derived_master_key C mk v st))
        = cacheDerivedKey (cache_key C mk v) (derive_key C mk v) (derivedKeyCache st)"
      using None by (simp add: derived_master_key_def Let_def)
    ultimately show ?thesis
      unfolding secrets_ok_def using cacheDerivedKey_length [OF None] by metis
  next
    case (Some key)
    with ok show ?thesis by (simp add: derived_master_key_def)
  qed
qed

lemma getDerived_ok:
  assumes "secrets_ok C mk st" and "mk \<noteq> ''''"
  shows "\<exists>st'. getDerivedMasterKeyOrThrow C (Some mk) v st = (st', Inr (derive_key C mk v)) \<and> secrets_ok C mk st'"
proof -
  obtain st' key where run: "derived_master_key C mk v st = (st', key)" by fastforce
  with secret_memo.step_value [OF assms(1), of v] secret_memo.step_inv [OF assms(1), of v]
  have "key = derive_key C mk v" "secrets_ok C mk st'" by simp_all
  with run assms(2) show ?thesis by (simp add: getDerivedMasterKeyOrThrow_def)
qed

section \<open>Encryption and decryption together\<close>

definition crypto_ok :: "crypto \<Rightarrow> bool" where
  "crypto_ok C \<longleftrightarrow>
     (\<forall>b. unbase64 C (base64 C b) = b) \<and> (\<forall>b. b \<noteq> [] \<longrightarrow> base64 C b \<noteq> '''')
     \<and> (\<forall>k n a a' p c t. seal C k n a p = (c, t) \<longrightarrow> unseal C k n a' c t = (if a' = a then Some p else None))
     \<and> (\<forall>k n a p c t. seal C k n a p = (c, t) \<longrightarrow> p \<noteq> '''' \<longrightarrow> c \<noteq> [] \<and> t \<noteq> [])"

text \<open>The sealed form of a token, as \<open>encryptTelegramBotToken\<close> writes it.\<close>

definition sealed_token :: "crypto \<Rightarrow> string \<Rightarrow> bytes \<Rightarrow> string \<Rightarrow> string \<Rightarrow> encrypted_secret" where
  "sealed_token C mk nonce tenant token =
     (case seal C (derive_key C mk 2) nonce (Some (buildAdditionalAuthenticatedData tenant)) token of
        (c, t) \<Rightarrow> \<lparr>ciphertext = base64 C c, iv = base64 C nonce, auth_tag = base64 C t, keyVersion = 2\<rparr>)"

lemma encrypt_sealed:
  assumes "secrets_ok C mk st" and "mk \<noteq> ''''" and "tenant \<noteq> ''''" and "token \<noteq> ''''"
  shows "\<exists>st'. encryptTelegramBotToken C (Some mk) nonce tenant token st
      = (st', Inr (sealed_token C mk nonce tenant token)) \<and> secrets_ok C mk st'"
  using getDerived_ok [OF assms(1,2), of 2] assms(3,4)
  by (auto simp: encryptTelegramBotToken_def sealed_token_def split: prod.splits)

lemma decrypt_ok:
  assumes "secrets_ok C mk st" and "mk \<noteq> ''''"
  shows "secrets_ok C mk (fst (decryptTelegramBotToken C (Some mk) tenant s st))"
  using assms getDerived_ok [OF assms, of "keyVersion s"]
  by (auto simp: decryptTelegramBotToken_def Let_def split: prod.splits option.splits)

lemma encrypt_ok:
  assumes "secrets_ok C mk st" and "mk \<noteq> ''''"
  shows "secrets_ok C mk (fst (encryptTelegramBotToken C (Some mk) nonce tenant token st))"
  using assms encrypt_sealed [OF assms, of tenant token nonce]
  by (cases "tenant = '''' \<or> token = ''''") (auto simp: encryptTelegramBotToken_def)

lemma aad_inject [simp]:
  "buildAdditionalAuthenticatedData t = buildAdditionalAuthenticatedData t' \<longleftrightarrow> t = t'"
  by (simp add: buildAdditionalAuthenticatedData_def)

lemma decrypt_sealed:
  assumes "crypto_ok C" and "secrets_ok C mk st" and "mk \<noteq> ''''" and "reader \<noteq> ''''" and "token \<noteq> ''''"
  shows "snd (decryptTelegramBotToken C (Some mk) reader (sealed_token C mk nonce tenant token) st) =
    (if reader = tenant then Inr token
     else Inl (TenantSecretDecryptError ''tenant_telegram_token_decrypt_failed'' decrypt_failed))"
proof -
  obtain c t where ct: "seal C (derive_key C mk 2) nonce (Some (buildAdditionalAuthenticatedData tenant)) token = (c, t)"
    by fastforce
  then have "unseal C (derive_key C mk 2) nonce (Some (buildAdditionalAuthenticatedData reader)) c t =
      (if reader = tenant then Some token else None)"
    using assms(1) unfolding crypto_ok_def by auto
  moreover have "unbase64 C (base64 C b) = b" for b
    using assms(1) by (simp add: crypto_ok_def)
  ultimately show ?thesis
    using getDerived_ok [OF assms(2,3), of 2] assms(4,5) ct
    by (auto simp: decryptTelegramBotToken_def sealed_token_def Let_def)
qed

section \<open>Properties\<close>

text \<open>
  C11: A bot token encrypted for a tenant decrypts to itself for that tenant, whatever the key caches of
  the encrypting and of the decrypting process hold, and for every other tenant fails as an
  undecryptable secret: a stored ciphertext cannot be moved to another tenant's row.
\<close>

theorem secret_bound_to_tenant:
  assumes "crypto_ok C" and "secrets_ok C mk st" and "secrets_ok C mk st2" and "mk \<noteq> ''''"
    and "encryptTelegramBotToken C (Some mk) nonce tenant token st = (st1, Inr s)" and "reader \<noteq> ''''"
  shows "snd (decryptTelegramBotToken C (Some mk) reader s st2) =
    (if reader = tenant then Inr token
     else Inl (TenantSecretDecryptError ''tenant_telegram_token_decrypt_failed'' decrypt_failed))"
proof -
  have ne: "tenant \<noteq> ''''" "token \<noteq> ''''"
    using assms(5) by (auto simp: encryptTelegramBotToken_def split: if_splits)
  from encrypt_sealed [OF assms(2,4) ne, of nonce] assms(5) have "s = sealed_token C mk nonce tenant token"
    by simp
  then show ?thesis using decrypt_sealed [OF assms(1,3,4,6) ne(2)] by simp
qed

text \<open>A transparent cipher that authenticates its associated data.\<close>

definition to_bytes :: "string \<Rightarrow> bytes" where
  "to_bytes s = map (\<lambda>c. word_of_nat (of_char c)) s"

definition of_bytes :: "bytes \<Rightarrow> string" where
  "of_bytes b = map (\<lambda>w. char_of (unat w)) b"

definition aad_bytes :: "string option \<Rightarrow> bytes" where
  "aad_bytes a = (case a of None \<Rightarrow> [0] | Some s \<Rightarrow> 1 # to_bytes s)"

definition clear_crypto :: crypto where
  "clear_crypto = \<lparr>sha256 = to_bytes, hex = of_bytes, scrypt = to_bytes,
     seal = (\<lambda>k n a p. (to_bytes p, aad_bytes a)),
     unseal = (\<lambda>k n a c t. if t = aad_bytes a then Some (of_bytes c) else None),
     base64 = of_bytes, unbase64 = to_bytes\<rparr>"

lemma of_to_bytes [simp]: "of_bytes (to_bytes s) = s"
proof -
  have "char_of (unat (word_of_nat (of_char c) :: 8 word)) = c" for c
  proof -
    have "(of_char c :: nat) < 256" by simp
    then show ?thesis by (simp add: unat_of_nat)
  qed
  then show ?thesis by (induction s) (simp_all add: to_bytes_def of_bytes_def)
qed

lemma to_of_bytes [simp]: "to_bytes (of_bytes b) = b"
proof -
  have "word_of_nat (of_char (char_of (unat w) :: char)) = w" for w :: "8 word"
  proof -
    have "unat w < 256" using unsigned_less [of w] by simp
    then show ?thesis by (simp add: of_char_of)
  qed
  then show ?thesis by (induction b) (simp_all add: to_bytes_def of_bytes_def)
qed

lemma aad_bytes_inject [simp]: "aad_bytes a = aad_bytes b \<longleftrightarrow> a = b"
  by (cases a; cases b) (auto simp: aad_bytes_def dest: arg_cong [of _ _ of_bytes])

lemma aad_bytes_neq_Nil [simp]: "aad_bytes a \<noteq> []"
  by (cases a) (simp_all add: aad_bytes_def)

lemma clear_crypto_ok: "crypto_ok clear_crypto"
  by (simp add: crypto_ok_def clear_crypto_def) (auto simp: to_bytes_def of_bytes_def)

definition fresh_secrets :: secrets_state where
  "fresh_secrets = \<lparr>derivedKeyCache = [], weakMasterKeysReported = []\<rparr>"

lemma fresh_secrets_ok: "secrets_ok C mk fresh_secrets"
  by (simp add: secrets_ok_def fresh_secrets_def)

lemma secret_bound_to_tenant_witness:
  "\<exists>st1 s. encryptTelegramBotToken clear_crypto (Some ''k'') [] ''acme'' ''123:abc'' fresh_secrets = (st1, Inr s)
     \<and> snd (decryptTelegramBotToken clear_crypto (Some ''k'') ''acme'' s st1) = Inr ''123:abc''
     \<and> snd (decryptTelegramBotToken clear_crypto (Some ''k'') ''other'' s st1) \<noteq> Inr ''123:abc''"
proof -
  obtain st1 s where e: "encryptTelegramBotToken clear_crypto (Some ''k'') [] ''acme'' ''123:abc'' fresh_secrets = (st1, Inr s)"
    "secrets_ok clear_crypto ''k'' st1"
    using encrypt_sealed [OF fresh_secrets_ok, of "''k''" "''acme''" "''123:abc''" clear_crypto "[]"] by auto
  have k: "''k'' \<noteq> ''''" "''acme'' \<noteq> ''''" "''other'' \<noteq> ''''" by simp_all
  show ?thesis
    using secret_bound_to_tenant [OF clear_crypto_ok fresh_secrets_ok e(2) k(1) e(1) k(2)]
      secret_bound_to_tenant [OF clear_crypto_ok fresh_secrets_ok e(2) k(1) e(1) k(3)] e(1) by auto
qed

end
