(* ===== verification/Tenant_Settings.thy ===== *)
theory Tenant_Settings imports Url_Safety Tenant_Secrets begin

text \<open>
  The settings of a tenant: \<open>settings.types.ts\<close>, \<open>settings.repository.ts\<close>, the use cases and the
  bot-token resolver of \<open>src/modules/settings\<close>.
  The table \<open>tenant_settings\<close> is a list of rows keyed by the tenant. An upgrade of an old ciphertext,
  which the code starts without awaiting it, is a task in the state of the resolver that a later step
  (\<open>upgradeKeyVersion\<close>) executes.
  Theorems: a token saved by a tenant is the one later resolved for it, the operator's token never
  stands in for a tenant token that does not open, and a key-version upgrade changes no resolved
  token and never resurrects a replaced one.
\<close>

section \<open>Rows\<close>

datatype telegram_delivery_mode = Instant | Digest10m

definition DEFAULT_TELEGRAM_DELIVERY_MODE :: telegram_delivery_mode where
  "DEFAULT_TELEGRAM_DELIVERY_MODE = Instant"

record settings_row =
  st_tenant :: string
  st_webhook :: "string option"
  st_emails :: "string list"
  st_chats :: "string list"
  st_mode :: telegram_delivery_mode
  st_ciphertext :: "string option"
  st_iv :: "string option"
  st_tag :: "string option"
  st_key_version :: "int option"
  st_created :: nat
  st_updated :: nat

definition KEY_VERSION_WHEN_NO_CIPHERTEXT :: int where
  "KEY_VERSION_WHEN_NO_CIPHERTEXT = 1"

datatype token_operation = Unchanged | Clear | SetToken

record tenant_settings =
  ts_tenant :: string
  webhookNotifierUrl :: "string option"
  recipientEmails :: "string list"
  telegramChatIds :: "string list"
  telegramDeliveryMode :: telegram_delivery_mode
  telegramBotTokenConfigured :: bool
  telegramBotTokenEncrypted :: "encrypted_secret option"
  ts_created :: nat
  ts_updated :: nat

text \<open>A column that is NULL or empty is falsy.\<close>

definition truthy :: "string option \<Rightarrow> bool" where
  "truthy s \<longleftrightarrow> s \<noteq> None \<and> s \<noteq> Some ''''"

definition mapTelegramBotTokenEncrypted :: "settings_row \<Rightarrow> encrypted_secret option" where
  "mapTelegramBotTokenEncrypted row =
     (if \<not> truthy (st_ciphertext row) \<or> \<not> truthy (st_iv row) \<or> \<not> truthy (st_tag row) then None
      else Some \<lparr>ciphertext = the (st_ciphertext row), iv = the (st_iv row), auth_tag = the (st_tag row),
                 keyVersion = opt_else (st_key_version row) KEY_VERSION_WHEN_NO_CIPHERTEXT\<rparr>)"

definition mapTenantSettings :: "settings_row \<Rightarrow> tenant_settings" where
  "mapTenantSettings row =
     (let secret = mapTelegramBotTokenEncrypted row in
      \<lparr>ts_tenant = st_tenant row, webhookNotifierUrl = st_webhook row, recipientEmails = st_emails row,
       telegramChatIds = st_chats row, telegramDeliveryMode = st_mode row,
       telegramBotTokenConfigured = (secret \<noteq> None), telegramBotTokenEncrypted = secret,
       ts_created = st_created row, ts_updated = st_updated row\<rparr>)"

section \<open>The repository\<close>

definition getByTenantId :: "string \<Rightarrow> settings_row list \<Rightarrow> tenant_settings option" where
  "getByTenantId tenantId rows = map_option mapTenantSettings (row_by st_tenant tenantId rows)"

record settings_input =
  in_tenant :: string
  in_webhook :: "string option"
  in_emails :: "string list"
  in_chats :: "string list"
  in_mode :: telegram_delivery_mode

text \<open>The row of \<open>VALUES\<close>, also called \<open>EXCLUDED\<close>.\<close>

definition excluded_row :: "nat \<Rightarrow> settings_input \<Rightarrow> encrypted_secret option \<Rightarrow> settings_row" where
  "excluded_row now input secret =
     \<lparr>st_tenant = in_tenant input, st_webhook = in_webhook input, st_emails = in_emails input,
      st_chats = in_chats input, st_mode = in_mode input,
      st_ciphertext = map_option ciphertext secret, st_iv = map_option iv secret,
      st_tag = map_option auth_tag secret,
      st_key_version = Some (opt_else (map_option keyVersion secret) KEY_VERSION_WHEN_NO_CIPHERTEXT),
      st_created = now, st_updated = now\<rparr>"

definition by_operation :: "token_operation \<Rightarrow> 'a option \<Rightarrow> 'a option \<Rightarrow> 'a option" where
  "by_operation oper excluded stored =
     (case oper of SetToken \<Rightarrow> excluded | Clear \<Rightarrow> None | Unchanged \<Rightarrow> stored)"

definition merged_row :: "nat \<Rightarrow> token_operation \<Rightarrow> settings_row \<Rightarrow> settings_row \<Rightarrow> settings_row" where
  "merged_row now oper x row =
     row\<lparr>st_webhook := st_webhook x, st_emails := st_emails x, st_chats := st_chats x, st_mode := st_mode x,
         st_ciphertext := by_operation oper (st_ciphertext x) (st_ciphertext row),
         st_iv := by_operation oper (st_iv x) (st_iv row),
         st_tag := by_operation oper (st_tag x) (st_tag row),
         st_key_version := (if oper = SetToken then st_key_version x else st_key_version row),
         st_updated := now\<rparr>"

definition upsertNotifierSettings ::
  "nat \<Rightarrow> settings_input \<Rightarrow> token_operation \<Rightarrow> encrypted_secret option \<Rightarrow> settings_row list
   \<Rightarrow> settings_row list \<times> tenant_settings" where
  "upsertNotifierSettings now input oper secret rows =
     (let x = excluded_row now input secret in
      case row_by st_tenant (in_tenant input) rows of
        None \<Rightarrow> (rows @ [x], mapTenantSettings x)
      | Some row \<Rightarrow>
          (sql_update (\<lambda>r. st_tenant r = in_tenant input) (merged_row now oper x) rows,
           mapTenantSettings (merged_row now oper x row)))"

definition upgraded_row :: "encrypted_secret \<Rightarrow> settings_row \<Rightarrow> settings_row" where
  "upgraded_row secret row =
     row\<lparr>st_ciphertext := Some (ciphertext secret), st_iv := Some (iv secret), st_tag := Some (auth_tag secret),
         st_key_version := Some (keyVersion secret)\<rparr>"

definition pinned :: "string \<Rightarrow> encrypted_secret \<Rightarrow> settings_row \<Rightarrow> bool" where
  "pinned tenantId expected row \<longleftrightarrow>
     st_tenant row = tenantId \<and> st_ciphertext row = Some (ciphertext expected)
     \<and> st_key_version row = Some (keyVersion expected)"

definition upgradeTelegramBotTokenKeyVersion ::
  "string \<Rightarrow> encrypted_secret \<Rightarrow> encrypted_secret \<Rightarrow> settings_row list \<Rightarrow> settings_row list \<times> bool" where
  "upgradeTelegramBotTokenKeyVersion tenantId expected secret rows =
     (sql_update (pinned tenantId expected) (upgraded_row secret) rows,
      \<exists>r \<in> set rows. pinned tenantId expected r)"

interpretation merged: keyed_update st_tenant "merged_row now oper x" for now oper x
  by unfold_locales (simp add: merged_row_def)
interpretation upgraded: keyed_update st_tenant "upgraded_row secret" for secret
  by unfold_locales (simp add: upgraded_row_def)

section \<open>The bot-token resolver\<close>

datatype token_source = TenantToken | GlobalToken | NoToken

record token_resolution =
  res_token :: "string option"
  res_source :: token_source
  res_failure :: "failure_reason option"

text \<open>A scheduled upgrade: the secret that was read and its plaintext.\<close>

record upgrade_task =
  task_tenant :: string
  task_previous :: encrypted_secret
  task_plaintext :: string

record resolver_state =
  secrets :: secrets_state
  pendingKeyVersionUpgrades :: "upgrade_task list"
  decryptFailuresTotal :: "failure_reason list"

fun classifyFailure :: "secret_error \<Rightarrow> failure_reason" where
  "classifyFailure TenantSecretsMasterKeyMissingError = master_key_missing"
| "classifyFailure (TenantSecretDecryptError msg reason) = reason"
| "classifyFailure _ = decrypt_failed"

definition scheduleKeyVersionUpgrade ::
  "bool \<Rightarrow> string \<Rightarrow> encrypted_secret \<Rightarrow> string \<Rightarrow> resolver_state \<Rightarrow> resolver_state" where
  "scheduleKeyVersionUpgrade hasRepository tenantId previous plaintext st =
     (if \<not> hasRepository \<or> (\<exists>t \<in> set (pendingKeyVersionUpgrades st). task_tenant t = tenantId) then st
      else st\<lparr>pendingKeyVersionUpgrades := pendingKeyVersionUpgrades st
                @ [\<lparr>task_tenant = tenantId, task_previous = previous, task_plaintext = plaintext\<rparr>]\<rparr>)"

definition resolveDetailedForTenant ::
  "crypto \<Rightarrow> string option \<Rightarrow> string option \<Rightarrow> bool \<Rightarrow> string \<Rightarrow> tenant_settings option \<Rightarrow> resolver_state
   \<Rightarrow> resolver_state \<times> token_resolution" where
  "resolveDetailedForTenant C masterKey globalToken hasRepository tenantId settings st =
     (case Option.bind settings telegramBotTokenEncrypted of
        None \<Rightarrow>
          (st, \<lparr>res_token = globalToken, res_source = (if truthy globalToken then GlobalToken else NoToken),
                res_failure = None\<rparr>)
      | Some encrypted \<Rightarrow>
          (case decryptTelegramBotToken C masterKey tenantId encrypted (secrets st) of
             (s', Inr token) \<Rightarrow>
               (let st1 = st\<lparr>secrets := s'\<rparr> in
                (if needsKeyVersionUpgrade encrypted
                 then scheduleKeyVersionUpgrade hasRepository tenantId encrypted token st1 else st1,
                 \<lparr>res_token = Some token, res_source = TenantToken, res_failure = None\<rparr>))
           | (s', Inl err) \<Rightarrow>
               (st\<lparr>secrets := s', decryptFailuresTotal := decryptFailuresTotal st @ [classifyFailure err]\<rparr>,
                \<lparr>res_token = None, res_source = NoToken, res_failure = Some (classifyFailure err)\<rparr>)))"

definition resolveForTenant ::
  "crypto \<Rightarrow> string option \<Rightarrow> string option \<Rightarrow> bool \<Rightarrow> string \<Rightarrow> tenant_settings option \<Rightarrow> resolver_state
   \<Rightarrow> resolver_state \<times> string option" where
  "resolveForTenant C masterKey globalToken hasRepository tenantId settings st =
     (case resolveDetailedForTenant C masterKey globalToken hasRepository tenantId settings st of
        (st', r) \<Rightarrow> (st', res_token r))"

text \<open>One task, with the \<open>finally\<close> that removes it from the map.\<close>

definition upgradeKeyVersion ::
  "crypto \<Rightarrow> string option \<Rightarrow> bytes \<Rightarrow> upgrade_task \<Rightarrow> settings_row list \<times> resolver_state
   \<Rightarrow> settings_row list \<times> resolver_state" where
  "upgradeKeyVersion C masterKey nonce task = (\<lambda>(rows, st).
     (let done = pendingKeyVersionUpgrades st;
          rest = filter (\<lambda>t. task_tenant t \<noteq> task_tenant task) done in
      case encryptTelegramBotToken C masterKey nonce (task_tenant task) (task_plaintext task) (secrets st) of
        (s', Inl err) \<Rightarrow> (rows, st\<lparr>secrets := s', pendingKeyVersionUpgrades := rest\<rparr>)
      | (s', Inr secret) \<Rightarrow>
          (fst (upgradeTelegramBotTokenKeyVersion (task_tenant task) (task_previous task) secret rows),
           st\<lparr>secrets := s', pendingKeyVersionUpgrades := rest\<rparr>)))"

text \<open>\<open>flushPendingKeyVersionUpgrades\<close>: every pending task runs; one nonce each.\<close>

fun flush_tasks ::
  "crypto \<Rightarrow> string option \<Rightarrow> (upgrade_task \<times> bytes) list \<Rightarrow> settings_row list \<times> resolver_state
   \<Rightarrow> settings_row list \<times> resolver_state" where
  "flush_tasks C masterKey [] s = s"
| "flush_tasks C masterKey ((t, nonce) # ts) s = flush_tasks C masterKey ts (upgradeKeyVersion C masterKey nonce t s)"

section \<open>Use cases\<close>

record settings_view =
  sv_webhook :: "string option"
  sv_emails :: "string list"
  sv_chats :: "string list"
  sv_mode :: telegram_delivery_mode
  sv_token_configured :: bool

definition GetSettings_execute :: "string \<Rightarrow> settings_row list \<Rightarrow> settings_view" where
  "GetSettings_execute tenantId rows =
     (case getByTenantId tenantId rows of
        None \<Rightarrow> \<lparr>sv_webhook = None, sv_emails = [], sv_chats = [], sv_mode = DEFAULT_TELEGRAM_DELIVERY_MODE,
                 sv_token_configured = False\<rparr>
      | Some s \<Rightarrow> \<lparr>sv_webhook = webhookNotifierUrl s, sv_emails = recipientEmails s, sv_chats = telegramChatIds s,
                   sv_mode = telegramDeliveryMode s, sv_token_configured = telegramBotTokenConfigured s\<rparr>)"

text \<open>The token of the request: absent (\<open>undefined\<close>), \<open>null\<close>, or a string.\<close>

datatype token_field = TokenAbsent | TokenNull | TokenText string

definition resolveTokenOperation :: "token_field \<Rightarrow> bool \<Rightarrow> token_operation" where
  "resolveTokenOperation token clearTelegramBotToken =
     (if clearTelegramBotToken \<or> token = TokenNull then Clear
      else (case token of TokenText t \<Rightarrow> if t \<noteq> '''' then SetToken else Unchanged | _ \<Rightarrow> Unchanged))"

datatype settings_error = UnsafeWebhookUrl | SecretError secret_error

definition UpdateSettings_execute ::
  "(string \<Rightarrow> url option) \<Rightarrow> bool \<Rightarrow> crypto \<Rightarrow> string option \<Rightarrow> bytes \<Rightarrow> nat \<Rightarrow> settings_input \<Rightarrow> token_field \<Rightarrow> bool
   \<Rightarrow> settings_row list \<times> secrets_state
   \<Rightarrow> (settings_row list \<times> secrets_state) \<times> (settings_error + settings_view)" where
  "UpdateSettings_execute parseURL allowPrivateHosts C masterKey nonce now input token clearToken = (\<lambda>(rows, st).
     (let unsafe = (case in_webhook input of
                      None \<Rightarrow> False
                    | Some u \<Rightarrow> u \<noteq> '''' \<and> (case assertSafePublicUrl parseURL allowPrivateHosts (UrlString u) of
                                              Inl _ \<Rightarrow> True | Inr _ \<Rightarrow> False)) in
      if unsafe then ((rows, st), Inl UnsafeWebhookUrl)
      else (let oper = resolveTokenOperation token clearToken in
            case (case (oper, token) of
                    (SetToken, TokenText t) \<Rightarrow>
                      (case encryptTelegramBotToken C masterKey nonce (in_tenant input) t st of
                         (st', Inl err) \<Rightarrow> (st', Inl err)
                       | (st', Inr secret) \<Rightarrow> (st', Inr (Some secret)))
                  | _ \<Rightarrow> (st, Inr None)) of
              (st', Inl err) \<Rightarrow> ((rows, st'), Inl (SecretError err))
            | (st', Inr secret) \<Rightarrow>
                (case upsertNotifierSettings now input oper secret rows of
                   (rows', s) \<Rightarrow>
                     ((rows', st'),
                      Inr \<lparr>sv_webhook = webhookNotifierUrl s, sv_emails = recipientEmails s,
                           sv_chats = telegramChatIds s, sv_mode = telegramDeliveryMode s,
                           sv_token_configured = telegramBotTokenConfigured s\<rparr>)))))"


section \<open>Opening a stored secret\<close>

text \<open>What a secret opens to, independently of the caches.\<close>

definition opened :: "crypto \<Rightarrow> string \<Rightarrow> string \<Rightarrow> encrypted_secret \<Rightarrow> secret_error + string" where
  "opened C mk tenantId s = snd (decryptTelegramBotToken C (Some mk) tenantId s fresh_secrets)"

lemma decrypt_opened:
  assumes "secrets_ok C mk st" and "mk \<noteq> ''''"
  shows "snd (decryptTelegramBotToken C (Some mk) tenantId s st) = opened C mk tenantId s"
proof -
  obtain st1 where a: "getDerivedMasterKeyOrThrow C (Some mk) (keyVersion s) st = (st1, Inr (derive_key C mk (keyVersion s)))"
    using getDerived_ok [OF assms] by blast
  obtain st2 where b: "getDerivedMasterKeyOrThrow C (Some mk) (keyVersion s) fresh_secrets
      = (st2, Inr (derive_key C mk (keyVersion s)))"
    using getDerived_ok [OF fresh_secrets_ok assms(2)] by blast
  show ?thesis
    unfolding opened_def decryptTelegramBotToken_def Let_def a b
    by (simp del: version_defs split: option.splits)
qed

lemma opened_sealed:
  assumes "crypto_ok C" and "mk \<noteq> ''''" and "reader \<noteq> ''''" and "token \<noteq> ''''"
  shows "opened C mk reader (sealed_token C mk nonce tenant token) =
    (if reader = tenant then Inr token
     else Inl (TenantSecretDecryptError ''tenant_telegram_token_decrypt_failed'' decrypt_failed))"
  unfolding opened_def by (rule decrypt_sealed [OF assms(1) fresh_secrets_ok assms(2-4)])

lemma opened_tenant: "opened C mk tenantId s = Inr t \<Longrightarrow> tenantId \<noteq> '''' \<and> t \<noteq> ''''"
  by (auto simp: opened_def decryptTelegramBotToken_def Let_def split: if_splits prod.splits sum.splits option.splits)

definition stored_token :: "crypto \<Rightarrow> string \<Rightarrow> settings_row list \<Rightarrow> string \<Rightarrow> (secret_error + string) option" where
  "stored_token C mk rows tenantId =
     Option.bind (row_by st_tenant tenantId rows) (\<lambda>r. map_option (opened C mk tenantId) (mapTelegramBotTokenEncrypted r))"

lemma sealed_columns:
  assumes "crypto_ok C" and "token \<noteq> ''''" and "nonce \<noteq> []"
  shows "ciphertext (sealed_token C mk nonce tenant token) \<noteq> ''''"
    and "iv (sealed_token C mk nonce tenant token) \<noteq> ''''"
    and "auth_tag (sealed_token C mk nonce tenant token) \<noteq> ''''"
proof -
  obtain c t where ct: "seal C (derive_key C mk 2) nonce (Some (buildAdditionalAuthenticatedData tenant)) token = (c, t)"
    by fastforce
  then have "c \<noteq> []" "t \<noteq> []" using assms(1,2) unfolding crypto_ok_def by blast+
  then have "base64 C c \<noteq> ''''" "base64 C t \<noteq> ''''" "base64 C nonce \<noteq> ''''"
    using assms(1,3) unfolding crypto_ok_def by blast+
  with ct show "ciphertext (sealed_token C mk nonce tenant token) \<noteq> ''''"
    "iv (sealed_token C mk nonce tenant token) \<noteq> ''''"
    "auth_tag (sealed_token C mk nonce tenant token) \<noteq> ''''"
    by (simp_all add: sealed_token_def)
qed

lemma map_secret_some:
  assumes "ciphertext s \<noteq> ''''" "iv s \<noteq> ''''" "auth_tag s \<noteq> ''''"
    and "st_ciphertext r = Some (ciphertext s)" "st_iv r = Some (iv s)" "st_tag r = Some (auth_tag s)"
    and "st_key_version r = Some (keyVersion s)"
  shows "mapTelegramBotTokenEncrypted r = Some s"
  using assms by (cases s) (simp add: mapTelegramBotTokenEncrypted_def truthy_def)

lemma resolve_opened:
  assumes "secrets_ok C mk (secrets st)" and "mk \<noteq> ''''" and "telegramBotTokenEncrypted s = Some enc"
  shows "res_token (snd (resolveDetailedForTenant C (Some mk) global repo tenantId (Some s) st)) =
    (case opened C mk tenantId enc of Inl _ \<Rightarrow> None | Inr t \<Rightarrow> Some t)"
  using decrypt_opened [OF assms(1,2), of tenantId enc] assms(3)
  by (auto simp: resolveDetailedForTenant_def Let_def split: prod.splits sum.splits)

lemma upsert_other:
  assumes "tenant \<noteq> in_tenant input"
  shows "row_by st_tenant tenant (fst (upsertNotifierSettings now input oper secret rows)) = row_by st_tenant tenant rows"
  using assms
  by (auto simp: upsertNotifierSettings_def Let_def merged.row_by_update_key row_by_append excluded_row_def
      row_by_simps split: option.splits)

lemma upsert_self:
  "\<exists>r. row_by st_tenant (in_tenant input) (fst (upsertNotifierSettings now input oper secret rows)) = Some r
    \<and> mapTenantSettings r = snd (upsertNotifierSettings now input oper secret rows)
    \<and> (oper = SetToken \<longrightarrow> secret = Some s \<longrightarrow>
         st_ciphertext r = Some (ciphertext s) \<and> st_iv r = Some (iv s) \<and> st_tag r = Some (auth_tag s)
         \<and> st_key_version r = Some (keyVersion s))"
proof (cases "row_by st_tenant (in_tenant input) rows")
  case None
  have "row_by st_tenant (in_tenant input) (rows @ [excluded_row now input secret]) = Some (excluded_row now input secret)"
    using None by (simp add: row_by_append row_by_simps excluded_row_def)
  with None show ?thesis by (auto simp: upsertNotifierSettings_def Let_def excluded_row_def)
next
  case (Some row)
  let ?r = "merged_row now oper (excluded_row now input secret) row"
  have "row_by st_tenant (in_tenant input) (fst (upsertNotifierSettings now input oper secret rows)) = Some ?r"
    "snd (upsertNotifierSettings now input oper secret rows) = mapTenantSettings ?r"
    using Some by (simp_all add: upsertNotifierSettings_def Let_def merged.row_by_update_key)
  moreover have "oper = SetToken \<Longrightarrow> secret = Some s \<Longrightarrow>
      st_ciphertext ?r = Some (ciphertext s) \<and> st_iv ?r = Some (iv s) \<and> st_tag ?r = Some (auth_tag s)
      \<and> st_key_version ?r = Some (keyVersion s)"
    by (simp add: merged_row_def by_operation_def excluded_row_def)
  ultimately show ?thesis by auto
qed


section \<open>The upgrade of the key version\<close>

lemma row_by_pinned:
  "row_by st_tenant t (sql_update (pinned tenant expected) (upgraded_row secret) rows) =
     map_option (\<lambda>r. if pinned tenant expected r then upgraded_row secret r else r) (row_by st_tenant t rows)"
  by (rule upgraded.row_by_update)

lemma upgradeKeyVersion_token:
  assumes C: "crypto_ok C" and st: "secrets_ok C mk (secrets st)" "mk \<noteq> ''''" and nonce: "nonce \<noteq> []"
    and task: "opened C mk (task_tenant task) (task_previous task) = Inr (task_plaintext task)"
    and pin: "\<forall>r \<in> set rows. pinned (task_tenant task) (task_previous task) r \<longrightarrow>
        mapTelegramBotTokenEncrypted r = Some (task_previous task)"
    and run: "upgradeKeyVersion C (Some mk) nonce task (rows, st) = (rows', st')"
  shows "stored_token C mk rows' t = stored_token C mk rows t"
proof -
  let ?t = "task_tenant task" and ?p = "task_plaintext task" and ?e = "task_previous task"
  let ?s = "sealed_token C mk nonce ?t ?p"
  have ne: "?t \<noteq> ''''" "?p \<noteq> ''''" using opened_tenant [OF task] by simp_all
  obtain s' where "encryptTelegramBotToken C (Some mk) nonce ?t ?p (secrets st) = (s', Inr ?s)"
    using encrypt_sealed [OF st ne] by blast
  then have rows': "rows' = sql_update (pinned ?t ?e) (upgraded_row ?s) rows"
    using run by (simp add: upgradeKeyVersion_def Let_def upgradeTelegramBotTokenKeyVersion_def)
  show ?thesis
  proof (cases "row_by st_tenant t rows")
    case None
    then show ?thesis by (simp add: stored_token_def rows' row_by_pinned)
  next
    case (Some r)
    show ?thesis
    proof (cases "pinned ?t ?e r")
      case False
      with Some show ?thesis by (simp add: stored_token_def rows' row_by_pinned)
    next
      case True
      then have "t = ?t" using row_by_SomeD [OF Some] by (simp add: pinned_def)
      moreover have "mapTelegramBotTokenEncrypted r = Some ?e"
        using pin True row_by_SomeD [OF Some] by blast
      moreover have "mapTelegramBotTokenEncrypted (upgraded_row ?s r) = Some ?s"
        by (rule map_secret_some [OF sealed_columns [OF C ne(2) nonce]]) (simp_all add: upgraded_row_def)
      ultimately show ?thesis
        using Some True opened_sealed [OF C st(2) ne(1) ne(2)] task
        by (simp add: stored_token_def rows' row_by_pinned)
    qed
  qed
qed

section \<open>Properties\<close>

text \<open>
  When a tenant has its own encrypted token, the resolver answers with that token's plaintext or
  with no token and a failure reason; never does the operator's global token stand in for it.
\<close>

theorem no_global_fallback:
  assumes "telegramBotTokenEncrypted s = Some enc"
    and "resolveDetailedForTenant C masterKey globalToken repo tenant (Some s) st = (st', r)"
  shows "res_source r \<noteq> GlobalToken
    \<and> (case snd (decryptTelegramBotToken C masterKey tenant enc (secrets st)) of
         Inr token \<Rightarrow> res_token r = Some token \<and> res_source r = TenantToken \<and> res_failure r = None
       | Inl err \<Rightarrow> res_token r = None \<and> res_source r = NoToken \<and> res_failure r = Some (classifyFailure err)
                    \<and> decryptFailuresTotal st' = decryptFailuresTotal st @ [classifyFailure err])"
  using assms by (auto simp: resolveDetailedForTenant_def Let_def split: prod.splits sum.splits)

definition sample_row :: settings_row where
  "sample_row = \<lparr>st_tenant = ''acme'', st_webhook = None, st_emails = [], st_chats = [''1''], st_mode = Instant,
     st_ciphertext = Some ''x'', st_iv = Some ''y'', st_tag = Some ''z'', st_key_version = Some 3,
     st_created = 0, st_updated = 0\<rparr>"

definition fresh_resolver :: resolver_state where
  "fresh_resolver = \<lparr>secrets = fresh_secrets, pendingKeyVersionUpgrades = [], decryptFailuresTotal = []\<rparr>"

lemma no_global_fallback_witness:
  "\<exists>st' r. resolveDetailedForTenant clear_crypto (Some ''k'') (Some ''global'') True ''acme''
       (Some (mapTenantSettings sample_row)) fresh_resolver = (st', r)
     \<and> res_source r \<noteq> GlobalToken \<and> res_token r = None"
proof -
  have enc: "telegramBotTokenEncrypted (mapTenantSettings sample_row)
      = Some \<lparr>ciphertext = ''x'', iv = ''y'', auth_tag = ''z'', keyVersion = 3\<rparr>"
    by (simp add: mapTenantSettings_def mapTelegramBotTokenEncrypted_def sample_row_def truthy_def Let_def)
  obtain st' r where run: "resolveDetailedForTenant clear_crypto (Some ''k'') (Some ''global'') True ''acme''
       (Some (mapTenantSettings sample_row)) fresh_resolver = (st', r)" by fastforce
  have "snd (decryptTelegramBotToken clear_crypto (Some ''k'') ''acme''
      \<lparr>ciphertext = ''x'', iv = ''y'', auth_tag = ''z'', keyVersion = 3\<rparr> (secrets fresh_resolver))
    = Inl (TenantSecretDecryptError (''tenant_secrets_unknown_key_version:'' @ js_int 3) unknown_key_version)"
    by (simp add: decryptTelegramBotToken_def)
  with no_global_fallback [OF enc run] run show ?thesis by auto
qed

text \<open>
  C12: Once a settings update with a bot token has succeeded, the token resolved for the tenant is that
  token, in any process whose key cache is valid and whatever the global token, and nothing stored for
  any other tenant has changed.
\<close>

theorem saved_token_is_resolved:
  assumes "crypto_ok C" and "secrets_ok C mk st" and "mk \<noteq> ''''" and "nonce \<noteq> []"
    and run: "UpdateSettings_execute parseURL allowPrivate C (Some mk) nonce now input (TokenText token) False (rows, st)
      = ((rows', st'), Inr view)" and "token \<noteq> ''''"
    and "secrets_ok C mk (secrets rst)"
  shows "res_token (snd (resolveDetailedForTenant C (Some mk) globalToken repo (in_tenant input)
             (getByTenantId (in_tenant input) rows') rst)) = Some token
    \<and> (\<forall>other. other \<noteq> in_tenant input \<longrightarrow> getByTenantId other rows' = getByTenantId other rows)"
proof -
  have "in_tenant input \<noteq> ''''"
    using run assms(6)
    by (auto simp: UpdateSettings_execute_def resolveTokenOperation_def encryptTelegramBotToken_def Let_def split: if_splits)
  with encrypt_sealed [OF assms(2,3)] assms(6) obtain s1 where
    enc: "encryptTelegramBotToken C (Some mk) nonce (in_tenant input) token st
      = (s1, Inr (sealed_token C mk nonce (in_tenant input) token))" by blast
  let ?s = "sealed_token C mk nonce (in_tenant input) token"
  have rows': "rows' = fst (upsertNotifierSettings now input SetToken (Some ?s) rows)"
    using run enc assms(6)
    by (auto simp: UpdateSettings_execute_def resolveTokenOperation_def Let_def split: if_splits prod.splits)
  obtain r where r: "row_by st_tenant (in_tenant input) rows' = Some r"
    "st_ciphertext r = Some (ciphertext ?s)" "st_iv r = Some (iv ?s)" "st_tag r = Some (auth_tag ?s)"
    "st_key_version r = Some (keyVersion ?s)"
    using upsert_self [of input now SetToken "Some ?s" rows ?s] by (auto simp: rows')
  have "mapTelegramBotTokenEncrypted r = Some ?s"
    by (rule map_secret_some [OF sealed_columns [OF assms(1,6,4)] r(2-5)])
  then have s: "getByTenantId (in_tenant input) rows' = Some (mapTenantSettings r)"
    "telegramBotTokenEncrypted (mapTenantSettings r) = Some ?s"
    using r(1) by (simp_all add: getByTenantId_def mapTenantSettings_def Let_def)
  have "opened C mk (in_tenant input) ?s = Inr token"
    using opened_sealed [OF assms(1,3) \<open>in_tenant input \<noteq> ''''\<close> assms(6)] by simp
  then have "res_token (snd (resolveDetailedForTenant C (Some mk) globalToken repo (in_tenant input)
      (getByTenantId (in_tenant input) rows') rst)) = Some token"
    by (simp add: s(1) resolve_opened [OF assms(7,3) s(2)])
  moreover have "getByTenantId other rows' = getByTenantId other rows" if "other \<noteq> in_tenant input" for other
    using upsert_other [OF that] by (simp add: rows' getByTenantId_def)
  ultimately show ?thesis by blast
qed

definition sample_input :: settings_input where
  "sample_input = \<lparr>in_tenant = ''acme'', in_webhook = None, in_emails = [], in_chats = [''1''], in_mode = Instant\<rparr>"

lemma saved_token_is_resolved_witness:
  "\<exists>rows' st' view. UpdateSettings_execute (\<lambda>_. None) False clear_crypto (Some ''k'') [7] 5 sample_input (TokenText ''123:abc'')
       False ([sample_row], fresh_secrets) = ((rows', st'), Inr view)
     \<and> res_token (snd (resolveDetailedForTenant clear_crypto (Some ''k'') (Some ''global'') True ''acme''
           (getByTenantId ''acme'' rows') fresh_resolver)) = Some ''123:abc''"
proof -
  have ok: "secrets_ok clear_crypto ''k'' (secrets fresh_resolver)"
    by (simp add: fresh_resolver_def fresh_secrets_ok)
  obtain s1 where e: "encryptTelegramBotToken clear_crypto (Some ''k'') [7] ''acme'' ''123:abc'' fresh_secrets
      = (s1, Inr (sealed_token clear_crypto ''k'' [7] ''acme'' ''123:abc''))"
    using encrypt_sealed [OF fresh_secrets_ok, of "''k''" "''acme''" "''123:abc''" clear_crypto "[7]"] by auto
  obtain rows' s where u: "upsertNotifierSettings 5 sample_input SetToken
      (Some (sealed_token clear_crypto ''k'' [7] ''acme'' ''123:abc'')) [sample_row] = (rows', s)" by fastforce
  have "\<exists>view. UpdateSettings_execute (\<lambda>_. None) False clear_crypto (Some ''k'') [7] 5 sample_input (TokenText ''123:abc'')
       False ([sample_row], fresh_secrets) = ((rows', s1), Inr view)"
    using e u by (simp add: UpdateSettings_execute_def sample_input_def resolveTokenOperation_def Let_def)
  then obtain view where run: "UpdateSettings_execute (\<lambda>_. None) False clear_crypto (Some ''k'') [7] 5 sample_input
      (TokenText ''123:abc'') False ([sample_row], fresh_secrets) = ((rows', s1), Inr view)" by blast
  have t: "in_tenant sample_input = ''acme''" by (simp add: sample_input_def)
  have "''k'' \<noteq> ''''" "[7 :: 8 word] \<noteq> []" "''123:abc'' \<noteq> ''''" by simp_all
  from saved_token_is_resolved [OF clear_crypto_ok fresh_secrets_ok this(1,2) run this(3) ok, of "Some ''global''" True] run
  show ?thesis unfolding t by blast
qed

text \<open>
  The background re-encryption of a stored token under the current key version changes no token any
  tenant's row opens to; a token replaced in the meantime is left alone.
\<close>

theorem key_version_upgrade_transparent:
  assumes "crypto_ok C" and "secrets_ok C mk (secrets st)" and "mk \<noteq> ''''" and "nonce \<noteq> []"
    and "opened C mk (task_tenant task) (task_previous task) = Inr (task_plaintext task)"
    and "\<forall>r \<in> set rows. pinned (task_tenant task) (task_previous task) r \<longrightarrow>
        mapTelegramBotTokenEncrypted r = Some (task_previous task)"
    and "upgradeKeyVersion C (Some mk) nonce task (rows, st) = (rows', st')"
  shows "(\<forall>t. stored_token C mk rows' t = stored_token C mk rows t)
    \<and> ((\<forall>r \<in> set rows. \<not> pinned (task_tenant task) (task_previous task) r) \<longrightarrow> rows' = rows)"
proof -
  have "rows' = rows" if "\<forall>r \<in> set rows. \<not> pinned (task_tenant task) (task_previous task) r"
    using assms(7) that
    by (auto simp: upgradeKeyVersion_def Let_def upgradeTelegramBotTokenKeyVersion_def sql_update_none
        split: prod.splits sum.splits)
  with upgradeKeyVersion_token [OF assms] show ?thesis by blast
qed

definition legacy_secret :: encrypted_secret where
  "legacy_secret = \<lparr>ciphertext = ''tok'', iv = ''i'', auth_tag = [CHR 0x00], keyVersion = 1\<rparr>"

definition legacy_row :: settings_row where
  "legacy_row = sample_row\<lparr>st_ciphertext := Some ''tok'', st_iv := Some ''i'', st_tag := Some [CHR 0x00],
     st_key_version := Some 1\<rparr>"

lemma legacy_opens: "opened clear_crypto ''k'' ''acme'' legacy_secret = Inr ''tok''"
proof -
  obtain st' where "getDerivedMasterKeyOrThrow clear_crypto (Some ''k'') 1 fresh_secrets
      = (st', Inr (derive_key clear_crypto ''k'' 1))"
    using getDerived_ok [OF fresh_secrets_ok, of "''k''" clear_crypto 1] by auto
  moreover have "to_bytes [CHR 0x00] = [0]" by (simp add: to_bytes_def)
  ultimately show ?thesis
    by (simp add: opened_def decryptTelegramBotToken_def legacy_secret_def Let_def)
      (simp add: clear_crypto_def aad_bytes_def)
qed

lemma key_version_upgrade_transparent_witness:
  "\<exists>rows' st'. upgradeKeyVersion clear_crypto (Some ''k'') [7] \<lparr>task_tenant = ''acme'', task_previous = legacy_secret,
        task_plaintext = ''tok''\<rparr> ([legacy_row], fresh_resolver) = (rows', st')
     \<and> stored_token clear_crypto ''k'' rows' ''acme'' = Some (Inr ''tok'')"
proof -
  let ?task = "\<lparr>task_tenant = ''acme'', task_previous = legacy_secret, task_plaintext = ''tok''\<rparr>"
  have ok: "secrets_ok clear_crypto ''k'' (secrets fresh_resolver)"
    by (simp add: fresh_resolver_def fresh_secrets_ok)
  obtain rows' st' where run: "upgradeKeyVersion clear_crypto (Some ''k'') [7] ?task ([legacy_row], fresh_resolver) = (rows', st')"
    by fastforce
  have op: "opened clear_crypto ''k'' (task_tenant ?task) (task_previous ?task) = Inr (task_plaintext ?task)"
    using legacy_opens by simp
  have m: "mapTelegramBotTokenEncrypted legacy_row = Some legacy_secret"
    by (simp add: mapTelegramBotTokenEncrypted_def legacy_row_def sample_row_def truthy_def legacy_secret_def)
  then have pin: "\<forall>r \<in> set [legacy_row]. pinned (task_tenant ?task) (task_previous ?task) r \<longrightarrow>
      mapTelegramBotTokenEncrypted r = Some (task_previous ?task)" by simp
  have "stored_token clear_crypto ''k'' [legacy_row] ''acme'' = Some (Inr ''tok'')"
    using m legacy_opens by (simp add: stored_token_def row_simps legacy_row_def sample_row_def)
  moreover have "''k'' \<noteq> ''''" "[7 :: 8 word] \<noteq> []" by simp_all
  note key_version_upgrade_transparent [OF clear_crypto_ok ok this op pin run]
  ultimately show ?thesis using run by auto
qed

end
