(* ===== verification/Alert_Delivery.thy ===== *)
theory Alert_Delivery imports Notifiers Email_Quota Tenant_Settings begin

text \<open>
  Delivery of alerts: \<open>deliver-alert.use-case.ts\<close> and \<open>process-alert-delivery.use-case.ts\<close> of
  \<open>src/modules/alerts/application\<close>, over the alert store, the settings table, the token resolver, the
  quota service and the notifier port. \<open>delivery\<close> is the state they share; \<open>'w\<close> is the world outside,
  on which the notifier and Redis act. Database calls are taken to succeed.
  Theorems: a channel marked sent is not called again over any sequence of jobs; an alert becomes sent
  only when every configured channel is; an authenticated request cannot reach another tenant's
  alert; and the behaviours the findings of the manifest describe.
\<close>

section \<open>Queueing a delivery\<close>

datatype delivery_source = FromIngestion | FromManual

datatype deliver_error = MissingTenantContext | AlertNotFound

datatype deliver_status = DeliverQueued | DeliverAlreadySent | DeliverDisabled

record delivery_job =
  job_alert :: nat
  job_queued_at :: msec
  job_source :: delivery_source

text \<open>State: the store and the jobs added to the queue.\<close>

definition deliver_found ::
  "bool \<Rightarrow> msec \<Rightarrow> nat \<Rightarrow> delivery_source \<Rightarrow> alert_notification option \<Rightarrow> alert_db \<times> delivery_job list
   \<Rightarrow> (alert_db \<times> delivery_job list) \<times> (deliver_error + nat \<times> deliver_status)" where
  "deliver_found notifierEnabled now alertId source found = (\<lambda>(db, queue).
     (case found of
        None \<Rightarrow> ((db, queue), Inl AlertNotFound)
      | Some alert \<Rightarrow>
          if view_sent alert then ((db, queue), Inr (view_id alert, DeliverAlreadySent))
          else if \<not> notifierEnabled
          then ((markDeliveryDisabled now alertId db, queue), Inr (view_id alert, DeliverDisabled))
          else ((markDeliveryQueued now alertId db,
                 queue @ [\<lparr>job_alert = alertId, job_queued_at = now, job_source = source\<rparr>]),
                Inr (view_id alert, DeliverQueued))))"

definition DeliverAlert_execute ::
  "bool \<Rightarrow> msec \<Rightarrow> nat \<Rightarrow> delivery_source \<Rightarrow> string option \<Rightarrow> alert_db \<times> delivery_job list
   \<Rightarrow> (alert_db \<times> delivery_job list) \<times> (deliver_error + nat \<times> deliver_status)" where
  "DeliverAlert_execute notifierEnabled now alertId source tenantId = (\<lambda>(db, queue).
     (case source of
        FromManual \<Rightarrow>
          (case tenantId of
             None \<Rightarrow> ((db, queue), Inl MissingTenantContext)
           | Some t \<Rightarrow>
               if t = '''' then ((db, queue), Inl MissingTenantContext)
               else deliver_found notifierEnabled now alertId source (findByIdForTenant alertId t db) (db, queue))
      | FromIngestion \<Rightarrow>
          deliver_found notifierEnabled now alertId source (findByIdForWorker alertId db) (db, queue)))"

section \<open>Processing a delivery job\<close>

record 'w delivery =
  d_db :: alert_db
  d_resolver :: resolver_state
  d_world :: 'w
  d_alerts_sent :: nat
  d_channel_failures :: "channel list"

record 'w delivery_env =
  e_notifier :: "'w notifier"
  e_redis :: "'w redis"
  e_daily_limit :: "int option"
  e_crypto :: crypto
  e_master_key :: "string option"
  e_global_token :: "string option"
  e_webhook_url :: "string option"
  e_settings :: "settings_row list"
  e_now :: msec

record delivery_input =
  in_alert :: nat
  attemptNumber :: nat
  willRetry :: bool

text \<open>The constants of the method body.\<close>

record delivery_plan =
  notifierUrl :: "string option"
  plan_emails :: "string list"
  plan_chats :: "string list"
  plan_mode :: telegram_delivery_mode
  plan_token :: "string option"
  shouldAttemptWebhook :: bool
  shouldAttemptEmail :: bool
  shouldSendTelegram :: bool
  shouldQueueTelegramDigest :: bool

definition make_plan ::
  "'w delivery_env \<Rightarrow> tenant_settings option \<Rightarrow> string option \<Rightarrow> alert_notification \<Rightarrow> delivery_plan" where
  "make_plan E settings token alert =
     (let url = coalesce (Option.bind settings webhookNotifierUrl) (e_webhook_url E);
          emails = (case settings of None \<Rightarrow> [] | Some s \<Rightarrow> recipientEmails s);
          chats = (case settings of None \<Rightarrow> [] | Some s \<Rightarrow> telegramChatIds s);
          mode = (case settings of None \<Rightarrow> DEFAULT_TELEGRAM_DELIVERY_MODE | Some s \<Rightarrow> telegramDeliveryMode s);
          telegram = (chats \<noteq> [] \<and> isTelegramEnabled (e_notifier E) token)
      in \<lparr>notifierUrl = url, plan_emails = emails, plan_chats = chats, plan_mode = mode, plan_token = token,
          shouldAttemptWebhook = (truthy url \<and> view_webhook alert \<noteq> ChSent),
          shouldAttemptEmail = (emails \<noteq> [] \<and> isEmailEnabled (e_notifier E) \<and> view_email alert \<noteq> ChSent),
          shouldSendTelegram = (telegram \<and> mode = Instant \<and> view_telegram alert \<noteq> ChSent),
          shouldQueueTelegramDigest = (telegram \<and> mode = Digest10m \<and> view_telegram alert \<noteq> ChSent)\<rparr>)"

definition record_failure :: "channel \<Rightarrow> 'w delivery \<Rightarrow> 'w delivery" where
  "record_failure ch d = d\<lparr>d_channel_failures := d_channel_failures d @ [ch]\<rparr>"

text \<open>The three channel names the method passes are columns, so the guard of the column never throws.\<close>

definition mark_delivered :: "'w delivery_env \<Rightarrow> nat \<Rightarrow> string \<Rightarrow> 'w delivery \<Rightarrow> 'w delivery" where
  "mark_delivered E i ch d =
     (case markChannelDelivered (e_now E) i ch (d_db d) of Inl err \<Rightarrow> d | Inr db \<Rightarrow> d\<lparr>d_db := db\<rparr>)"

definition mark_failed :: "'w delivery_env \<Rightarrow> nat \<Rightarrow> string \<Rightarrow> 'w delivery \<Rightarrow> 'w delivery" where
  "mark_failed E i ch d =
     (case markChannelFailed (e_now E) i ch (d_db d) of Inl err \<Rightarrow> d | Inr db \<Rightarrow> d\<lparr>d_db := db\<rparr>)"

text \<open>A channel phase returns the retryable and the terminal errors it adds.\<close>

type_synonym 'w phase_result = "'w delivery \<times> string list \<times> string list"

definition webhook_phase ::
  "'w delivery_env \<Rightarrow> delivery_plan \<Rightarrow> nat \<Rightarrow> alert_notification \<Rightarrow> 'w delivery \<Rightarrow> 'w phase_result" where
  "webhook_phase E p i alert d =
     (if \<not> shouldAttemptWebhook p then (d, [], [])
      else (case sendWebhook (e_notifier E) alert (the (notifierUrl p)) (d_world d) of
              (w, Inl message) \<Rightarrow> (record_failure Webhook (d\<lparr>d_world := w\<rparr>), [''webhook:'' @ message], [])
            | (w, Inr _) \<Rightarrow> (mark_delivered E i ''webhook'' (d\<lparr>d_world := w\<rparr>), [], [])))"

definition email_phase ::
  "'w delivery_env \<Rightarrow> delivery_plan \<Rightarrow> nat \<Rightarrow> alert_notification \<Rightarrow> 'w delivery \<Rightarrow> 'w phase_result" where
  "email_phase E p i alert d =
     (if \<not> shouldAttemptEmail p then (d, [], [])
      else (case reserve (e_redis E) (e_daily_limit E) (e_now E) (view_tenant alert) (d_world d) of
              (w, quota) \<Rightarrow>
                if \<not> quota_allowed quota then
                  (record_failure Email (mark_failed E i ''email'' (d\<lparr>d_world := w\<rparr>)), [],
                   [''email:'' @ EMAIL_QUOTA_EXCEEDED_REASON @ '':daily_limit_'' @ js_int (quota_limit quota)])
                else
                  (case sendEmail (e_notifier E) alert (plan_emails p) w of
                     (w2, Inl message) \<Rightarrow>
                       (record_failure Email (d\<lparr>d_world :=
                          release (e_redis E) (e_daily_limit E) (e_now E) (view_tenant alert) w2\<rparr>),
                        [''email:'' @ message], [])
                   | (w2, Inr _) \<Rightarrow> (mark_delivered E i ''email'' (d\<lparr>d_world := w2\<rparr>), [], []))))"

fun telegram_chats ::
  "'w delivery_env \<Rightarrow> delivery_plan \<Rightarrow> alert_notification \<Rightarrow> string list \<Rightarrow> 'w delivery \<Rightarrow> 'w delivery \<times> string list" where
  "telegram_chats E p alert [] d = (d, [])"
| "telegram_chats E p alert (c # cs) d =
     (case sendTelegram (e_notifier E) alert c (plan_token p) (d_world d) of
        (w, Inl message) \<Rightarrow>
          (case telegram_chats E p alert cs (record_failure Telegram (d\<lparr>d_world := w\<rparr>)) of
             (d', errs) \<Rightarrow> (d', (''telegram:'' @ c @ '':'' @ message) # errs))
      | (w, Inr _) \<Rightarrow> telegram_chats E p alert cs (d\<lparr>d_world := w\<rparr>))"

definition telegram_phase ::
  "'w delivery_env \<Rightarrow> delivery_plan \<Rightarrow> nat \<Rightarrow> alert_notification \<Rightarrow> 'w delivery \<Rightarrow> 'w phase_result" where
  "telegram_phase E p i alert d =
     (if \<not> shouldSendTelegram p then (d, [], [])
      else (case telegram_chats E p alert (plan_chats p) d of
              (d1, errs) \<Rightarrow>
                if errs \<noteq> [] then (d1, errs, [])
                else (mark_delivered E i ''telegram'' d1, [], [])))"

definition digest_phase ::
  "'w delivery_env \<Rightarrow> delivery_plan \<Rightarrow> nat \<Rightarrow> alert_notification \<Rightarrow> 'w delivery \<Rightarrow> 'w delivery" where
  "digest_phase E p i alert d =
     (if \<not> shouldQueueTelegramDigest p then d
      else d\<lparr>d_db := queueTelegramDigestItems (e_now E) i (view_tenant alert) (plan_chats p) (d_db d)\<rparr>)"

definition channels_failed_message :: "string list \<Rightarrow> string" where
  "channels_failed_message errs = ''notification_channels_failed:'' @ js_join ''|'' errs"

text \<open>What follows the channels when no retryable error occurred.\<close>

definition settle ::
  "'w delivery_env \<Rightarrow> delivery_plan \<Rightarrow> delivery_input \<Rightarrow> string list \<Rightarrow> 'w delivery \<Rightarrow> 'w delivery" where
  "settle E p input terminal d =
     (if terminal \<noteq> [] then
        d\<lparr>d_db := markDeliveryFailure (e_now E) (in_alert input) (attemptNumber input)
                    (channels_failed_message terminal) False (d_db d)\<rparr>
      else if checkAllChannelsDelivered (in_alert input)
                \<lparr>hasWebhook = truthy (notifierUrl p), hasEmail = (plan_emails p \<noteq> []),
                 hasTelegram = (plan_chats p \<noteq> [] \<and> plan_mode p = Instant)\<rparr> (d_db d)
      then (case markSent (e_now E) (in_alert input) (attemptNumber input) (d_db d) of
              (db, firstSuccessfulDelivery) \<Rightarrow>
                d\<lparr>d_db := db, d_alerts_sent := d_alerts_sent d + (if firstSuccessfulDelivery then 1 else 0)\<rparr>)
      else if willRetry input then
        d\<lparr>d_db := markDeliveryRetryPending (e_now E) (in_alert input) (attemptNumber input) (d_db d)\<rparr>
      else d)"

definition run_channels ::
  "'w delivery_env \<Rightarrow> delivery_plan \<Rightarrow> nat \<Rightarrow> alert_notification \<Rightarrow> 'w delivery \<Rightarrow> 'w phase_result" where
  "run_channels E p i alert d =
     (case webhook_phase E p i alert d of
        (d1, e1, t1) \<Rightarrow>
          (case email_phase E p i alert d1 of
             (d2, e2, t2) \<Rightarrow>
               (case telegram_phase E p i alert d2 of
                  (d3, e3, t3) \<Rightarrow> (digest_phase E p i alert d3, e1 @ e2 @ e3, t1 @ t2 @ t3))))"

datatype process_error = ProcessNotFound | ChannelsFailed string

definition ProcessAlertDelivery_execute ::
  "'w delivery_env \<Rightarrow> delivery_input \<Rightarrow> 'w delivery \<Rightarrow> 'w delivery \<times> (process_error + unit)" where
  "ProcessAlertDelivery_execute E input d =
     (case findByIdForWorker (in_alert input) (d_db d) of
        None \<Rightarrow> (d, Inl ProcessNotFound)
      | Some alert \<Rightarrow>
          (let settings = getByTenantId (view_tenant alert) (e_settings E) in
           case resolveForTenant (e_crypto E) (e_master_key E) (e_global_token E) True (view_tenant alert) settings
                  (d_resolver d) of
             (rst, token) \<Rightarrow>
               (let p = make_plan E settings token alert; d0 = d\<lparr>d_resolver := rst\<rparr> in
                if (\<not> shouldAttemptWebhook p \<and> \<not> shouldAttemptEmail p \<and> \<not> shouldSendTelegram p
                    \<and> \<not> shouldQueueTelegramDigest p) \<or> \<not> isEnabled (e_notifier E)
                then (d0\<lparr>d_db := markDeliveryDisabled (e_now E) (in_alert input) (d_db d0)\<rparr>, Inr ())
                else (case run_channels E p (in_alert input) alert d0 of
                        (d1, errs, terminal) \<Rightarrow>
                          if errs \<noteq> [] then
                            (let message = channels_failed_message (errs @ terminal) in
                             (d1\<lparr>d_db := markDeliveryFailure (e_now E) (in_alert input) (attemptNumber input)
                                           message (willRetry input) (d_db d1)\<rparr>,
                              Inl (ChannelsFailed message)))
                          else (settle E p input terminal d1, Inr ())))))"


section \<open>What an operation may do to the alerts\<close>

definition chan_status :: "nat \<Rightarrow> channel \<Rightarrow> alert_db \<Rightarrow> channel_status option" where
  "chan_status i ch db = map_option (status_of ch) (row_by alert_id i (alerts db))"

text \<open>The identifiers stay and no sent channel is demoted.\<close>

definition sent_mono :: "alert_db \<Rightarrow> alert_db \<Rightarrow> bool" where
  "sent_mono db db' \<longleftrightarrow>
     map alert_id (alerts db') = map alert_id (alerts db)
     \<and> (\<forall>j ch. chan_status j ch db = Some ChSent \<longrightarrow> chan_status j ch db' = Some ChSent)"

lemma sent_mono_refl [intro, simp]: "sent_mono db db"
  by (simp add: sent_mono_def)

lemma sent_mono_trans: "sent_mono a b \<Longrightarrow> sent_mono b c \<Longrightarrow> sent_mono a c"
  by (simp add: sent_mono_def)

lemma row_by_progress:
  assumes "\<And>a. progress a (f a)"
  shows "row_by alert_id j (alerts (update_alert i f db)) =
    (if j = i then map_option f (row_by alert_id j (alerts db)) else row_by alert_id j (alerts db))"
proof -
  have "alert_id (f a) = alert_id a" for a using assms [of a] by (simp add: progress_def)
  then have u: "row_by alert_id j (sql_update (\<lambda>r. alert_id r = i) f rows) =
      (if j = i then map_option f (row_by alert_id j rows) else row_by alert_id j rows)" for rows
    by (induction rows) (auto simp: row_simps)
  show ?thesis by (simp add: update_alert_def u)
qed

lemma update_alert_mono:
  assumes "\<And>a. progress a (f a)"
  shows "sent_mono db (update_alert i f db)"
  unfolding sent_mono_def chan_status_def row_by_progress [OF assms]
  using progress_same_keys(1) [OF assms] assms
  by (auto simp: update_alert_def progress_def)

lemma mark_delivered_db:
  "d_db (mark_delivered E i ''webhook'' d) = update_alert i (delivered_row (e_now E) Webhook) (d_db d)"
  "d_db (mark_delivered E i ''telegram'' d) = update_alert i (delivered_row (e_now E) Telegram) (d_db d)"
  "d_db (mark_delivered E i ''email'' d) = update_alert i (delivered_row (e_now E) Email) (d_db d)"
  "d_db (mark_failed E i ''email'' d) = update_alert i (failed_row (e_now E) Email) (d_db d)"
  "d_world (mark_delivered E i ch d) = d_world d" "d_world (mark_failed E i ch d) = d_world d"
  by (auto simp: mark_delivered_def mark_failed_def markChannelDelivered_def markChannelFailed_def
      deliveryStatusColumn_def CHANNEL_DELIVERY_STATUS_COLUMNS_def split: option.splits)

lemma delivery_simps [simp]:
  "d_db (record_failure ch d) = d_db d" "d_world (record_failure ch d) = d_world d"
  by (simp_all add: record_failure_def)

lemma queue_items_mono: "sent_mono db (queueTelegramDigestItems now i t cs db)"
  using queue_items_same [of now i t cs db] by (simp add: sent_mono_def chan_status_def)

section \<open>The log of successful sends\<close>

text \<open>A notifier that records what it has sent, next to the world it acts on.\<close>

datatype sent_event = SentWebhook nat | SentEmail nat | SentTelegram nat string | SentDigest string

definition logging :: "sent_event \<Rightarrow> ('w \<Rightarrow> 'w \<times> (string + unit)) \<Rightarrow> 'w \<times> sent_event list
    \<Rightarrow> ('w \<times> sent_event list) \<times> (string + unit)" where
  "logging ev f = (\<lambda>(w, log).
     (case f w of (w', Inl err) \<Rightarrow> ((w', log), Inl err) | (w', Inr u) \<Rightarrow> ((w', log @ [ev]), Inr u)))"

definition recorded :: "'w notifier \<Rightarrow> ('w \<times> sent_event list) notifier" where
  "recorded N = \<lparr>isEnabled = isEnabled N, isEmailEnabled = isEmailEnabled N, isTelegramEnabled = isTelegramEnabled N,
     sendWebhook = (\<lambda>alert u. logging (SentWebhook (view_id alert)) (sendWebhook N alert u)),
     sendEmail = (\<lambda>alert rs. logging (SentEmail (view_id alert)) (sendEmail N alert rs)),
     sendTelegram = (\<lambda>alert c t. logging (SentTelegram (view_id alert) c) (sendTelegram N alert c t)),
     sendTelegramDigest = (\<lambda>p. logging (SentDigest (dp_chat p)) (sendTelegramDigest N p))\<rparr>"

definition on_fst :: "('w \<Rightarrow> 'w \<times> 'b) \<Rightarrow> 'w \<times> 'l \<Rightarrow> ('w \<times> 'l) \<times> 'b" where
  "on_fst f = (\<lambda>(w, l). case f w of (w', r) \<Rightarrow> ((w', l), r))"

definition beside :: "'w redis \<Rightarrow> ('w \<times> 'l) redis" where
  "beside R = \<lparr>redis_get = (\<lambda>k. on_fst (redis_get R k)), redis_incr = (\<lambda>k. on_fst (redis_incr R k)),
     redis_decr = (\<lambda>k. on_fst (redis_decr R k)), redis_expire = (\<lambda>k t. on_fst (redis_expire R k t))\<rparr>"

definition recorded_env :: "('w \<times> sent_event list) delivery_env \<Rightarrow> bool" where
  "recorded_env E \<longleftrightarrow> (\<exists>N R. e_notifier E = recorded N \<and> e_redis E = beside R)"

lemma logging_cases:
  obtains w' e where "logging ev f (w, l) = ((w', l), Inl e)" | w' where "logging ev f (w, l) = ((w', l @ [ev]), Inr ())"
  by (cases "f w"; cases "snd (f w)") (auto simp: logging_def split: sum.splits)

lemma on_fst_log: "snd (fst (on_fst f w)) = snd w"
  by (auto simp: on_fst_def split: prod.splits)

lemma on_fst_ex: "\<exists>w' r. on_fst f (v, l) = ((w', l), r)"
  by (cases "f v") (auto simp: on_fst_def)

lemma beside_simps [simp]:
  "redis_incr (beside R) k = on_fst (redis_incr R k)" "redis_decr (beside R) k = on_fst (redis_decr R k)"
  "redis_expire (beside R) k t = on_fst (redis_expire R k t)" "redis_get (beside R) k = on_fst (redis_get R k)"
  by (simp_all add: beside_def)

lemma giveBack_log: "snd (fst (giveBack (beside R) k w)) = snd w"
  by (cases w) (auto simp: giveBack_def on_fst_def split: prod.splits sum.splits if_splits)

lemma release_log: "snd (release (beside R) c now t w) = snd w"
  by (simp add: release_def giveBack_log)

lemma try_reserve_log: "snd (fst (try_reserve (beside R) limit k w)) = snd w"
proof (cases w)
  case (Pair v l)
  obtain w1 r1 where 1: "on_fst (redis_incr R k) (v, l) = ((w1, l), r1)"
    using on_fst_ex [of "redis_incr R k" v l] by blast
  show ?thesis
  proof (cases r1)
    case (Inl e)
    then show ?thesis by (simp add: try_reserve_def Pair 1)
  next
    case (Inr used)
    obtain w2 r2 where 2: "(if used = 1 then on_fst (redis_expire R k COUNTER_TTL_SECONDS) (w1, l) else ((w1, l), Inr 0))
        = ((w2, l), r2)"
      using on_fst_ex [of "redis_expire R k COUNTER_TTL_SECONDS" w1 l] by (cases "used = 1") auto
    obtain w3 r3 where 3: "giveBack (beside R) k (w2, l) = ((w3, l), r3)"
      using giveBack_log [of R k "(w2, l)"] by (metis prod.collapse snd_conv)
    show ?thesis
      unfolding try_reserve_def Pair beside_simps 1 Inr prod.case sum.case 2 3
      by (auto simp: 3 split: sum.splits reserve_next.splits)
  qed
qed

lemma reserve_log: "snd (fst (reserve (beside R) c now t w)) = snd w"
  using try_reserve_log [of R "dailyLimit c" "buildKey t now" w]
  by (auto simp: reserve_def Let_def split: prod.splits sum.splits)


section \<open>No successful send is repeated\<close>

fun event_of :: "channel \<Rightarrow> nat \<Rightarrow> sent_event option" where
  "event_of Webhook i = Some (SentWebhook i)"
| "event_of Email i = Some (SentEmail i)"
| "event_of Telegram i = None"

definition sent_once :: "alert_db \<Rightarrow> sent_event list \<Rightarrow> bool" where
  "sent_once db log \<longleftrightarrow> (\<forall>ch i ev. event_of ch i = Some ev \<longrightarrow>
     count_list log ev \<le> (if chan_status i ch db = Some ChSent then 1 else 0))"

lemma sent_onceD:
  "sent_once db log \<Longrightarrow> event_of ch i = Some ev
   \<Longrightarrow> count_list log ev \<le> (if chan_status i ch db = Some ChSent then 1 else 0)"
  unfolding sent_once_def by blast

lemma sent_once_mono:
  assumes "sent_once db log" and "sent_mono db db'"
  shows "sent_once db' log"
  unfolding sent_once_def
proof (intro allI impI)
  fix ch i ev
  assume "event_of ch i = Some ev"
  with sent_onceD [OF assms(1) this] assms(2)
  show "count_list log ev \<le> (if chan_status i ch db' = Some ChSent then 1 else 0)"
    by (cases "chan_status i ch db = Some ChSent") (auto simp: sent_mono_def)
qed

lemma event_of_inject: "event_of ch i = Some ev \<Longrightarrow> event_of ch' j = Some ev \<Longrightarrow> ch' = ch \<and> j = i"
  by (cases ch; cases ch'; auto)

lemma row_by_delivered:
  "row_by alert_id j (alerts (update_alert i (delivered_row now c) db)) =
    (if j = i then map_option (delivered_row now c) (row_by alert_id j (alerts db)) else row_by alert_id j (alerts db))"
  by (rule row_by_progress) simp

lemma row_by_failed:
  "row_by alert_id j (alerts (update_alert i (failed_row now c) db)) =
    (if j = i then map_option (failed_row now c) (row_by alert_id j (alerts db)) else row_by alert_id j (alerts db))"
  by (rule row_by_progress) simp

lemma status_delivered:
  "chan_status j ch (update_alert i (delivered_row now c) db) =
     (if j = i \<and> ch = c \<and> chan_status i c db \<noteq> None then Some ChSent else chan_status j ch db)"
  by (cases "row_by alert_id i (alerts db)") (auto simp: chan_status_def row_by_delivered delivered_row_def)

lemma sent_once_add:
  assumes "sent_once db log" and "event_of c i = Some ev" and "chan_status i c db \<noteq> None"
    and "chan_status i c db \<noteq> Some ChSent"
  shows "sent_once (update_alert i (delivered_row now c) db) (log @ [ev])"
  unfolding sent_once_def
proof (intro allI impI)
  fix ch j ev'
  assume ev': "event_of ch j = Some ev'"
  then have old: "count_list log ev' \<le> (if chan_status j ch db = Some ChSent then 1 else 0)"
    using assms(1) by (simp add: sent_once_def)
  show "count_list (log @ [ev]) ev' \<le>
      (if chan_status j ch (update_alert i (delivered_row now c) db) = Some ChSent then 1 else 0)"
  proof (cases "ev' = ev")
    case True
    with ev' assms(2) have "ch = c" "j = i" using event_of_inject by blast+
    with old assms(3,4) True show ?thesis by (simp add: status_delivered)
  next
    case False
    then have "\<not> (j = i \<and> ch = c)" using ev' assms(2) by auto
    with old False show ?thesis by (auto simp: status_delivered)
  qed
qed

text \<open>The invariant of a delivery state, and what a phase may do.\<close>

definition dinv :: "('w \<times> sent_event list) delivery \<Rightarrow> bool" where
  "dinv d \<longleftrightarrow> sent_once (d_db d) (snd (d_world d))"

definition phase_ok :: "channel \<Rightarrow> ('w \<times> sent_event list) delivery \<Rightarrow> ('w \<times> sent_event list) delivery \<Rightarrow> bool" where
  "phase_ok c d d' \<longleftrightarrow> dinv d' \<and> sent_mono (d_db d) (d_db d')
     \<and> (\<forall>j ch. ch \<noteq> c \<longrightarrow> chan_status j ch (d_db d') = chan_status j ch (d_db d))"

lemma recorded_simps [simp]:
  "sendWebhook (recorded N) alert u = logging (SentWebhook (view_id alert)) (sendWebhook N alert u)"
  "sendEmail (recorded N) alert rs = logging (SentEmail (view_id alert)) (sendEmail N alert rs)"
  "sendTelegram (recorded N) alert c t = logging (SentTelegram (view_id alert) c) (sendTelegram N alert c t)"
  by (simp_all add: recorded_def)

lemma webhook_phase_ok:
  assumes E: "recorded_env E" and d: "dinv d" and i: "view_id alert = i" "chan_status i Webhook (d_db d) \<noteq> None"
    and todo: "shouldAttemptWebhook p \<Longrightarrow> chan_status i Webhook (d_db d) \<noteq> Some ChSent"
    and run: "webhook_phase E p i alert d = (d', errs, term)"
  shows "phase_ok Webhook d d'"
proof (cases "shouldAttemptWebhook p")
  case False
  then show ?thesis using run d by (simp add: webhook_phase_def phase_ok_def)
next
  case True
  obtain w l where w: "d_world d = (w, l)" by (cases "d_world d")
  obtain N where N: "e_notifier E = recorded N" using E by (auto simp: recorded_env_def)
  show ?thesis
  proof (rule logging_cases [of "SentWebhook i" "sendWebhook N alert (the (notifierUrl p))" w l])
    fix w' e assume "logging (SentWebhook i) (sendWebhook N alert (the (notifierUrl p))) (w, l) = ((w', l), Inl e)"
    then have "d' = record_failure Webhook (d\<lparr>d_world := (w', l)\<rparr>)"
      using run True i(1) by (simp add: webhook_phase_def N w)
    then show ?thesis using d by (simp add: phase_ok_def dinv_def w)
  next
    fix w' assume "logging (SentWebhook i) (sendWebhook N alert (the (notifierUrl p))) (w, l) = ((w', l @ [SentWebhook i]), Inr ())"
    then have d': "d' = mark_delivered E i ''webhook'' (d\<lparr>d_world := (w', l @ [SentWebhook i])\<rparr>)"
      using run True i(1) by (simp add: webhook_phase_def N w)
    have "sent_once (update_alert i (delivered_row (e_now E) Webhook) (d_db d)) (l @ [SentWebhook i])"
      by (rule sent_once_add) (use d i(2) todo [OF True] in \<open>simp_all add: dinv_def w\<close>)
    then show ?thesis
      by (simp add: phase_ok_def dinv_def d' mark_delivered_db update_alert_mono status_delivered)
  qed
qed

lemma status_failed:
  "chan_status j ch (update_alert i (failed_row now c) db) =
     (if j = i \<and> ch = c \<and> chan_status i c db \<noteq> None \<and> chan_status i c db \<noteq> Some ChSent then Some ChFailed else chan_status j ch db)"
  by (cases "row_by alert_id i (alerts db)") (auto simp: chan_status_def row_by_failed failed_row_def)

lemma email_phase_ok:
  assumes E: "recorded_env E" and d: "dinv d" and i: "view_id alert = i" "chan_status i Email (d_db d) \<noteq> None"
    and todo: "shouldAttemptEmail p \<Longrightarrow> chan_status i Email (d_db d) \<noteq> Some ChSent"
    and run: "email_phase E p i alert d = (d', errs, term)"
  shows "phase_ok Email d d'"
proof (cases "shouldAttemptEmail p")
  case False
  then show ?thesis using run d by (simp add: email_phase_def phase_ok_def)
next
  case True
  obtain N R where N: "e_notifier E = recorded N" "e_redis E = beside R" using E by (auto simp: recorded_env_def)
  obtain w l q where r: "reserve (e_redis E) (e_daily_limit E) (e_now E) (view_tenant alert) (d_world d) = ((w, l), q)"
    by (metis prod.collapse)
  have l: "l = snd (d_world d)"
    using reserve_log [of R "e_daily_limit E" "e_now E" "view_tenant alert" "d_world d"] r by (simp add: N)
  show ?thesis
  proof (cases "quota_allowed q")
    case False
    then have d': "d' = record_failure Email (mark_failed E i ''email'' (d\<lparr>d_world := (w, l)\<rparr>))"
      using run True r by (simp add: email_phase_def)
    have m: "sent_mono (d_db d) (update_alert i (failed_row (e_now E) Email) (d_db d))"
      by (rule update_alert_mono) simp
    then show ?thesis
      using d sent_once_mono by (auto simp: phase_ok_def dinv_def d' mark_delivered_db l status_failed)
  next
    case allowed: True
    show ?thesis
    proof (rule logging_cases [of "SentEmail i" "sendEmail N alert (plan_emails p)" w l])
      fix w' e assume "logging (SentEmail i) (sendEmail N alert (plan_emails p)) (w, l) = ((w', l), Inl e)"
      then have "d' = record_failure Email (d\<lparr>d_world :=
          release (e_redis E) (e_daily_limit E) (e_now E) (view_tenant alert) (w', l)\<rparr>)"
        using run True i(1) allowed r by (simp add: email_phase_def N)
      then show ?thesis using d by (simp add: phase_ok_def dinv_def N release_log l)
    next
      fix w' assume "logging (SentEmail i) (sendEmail N alert (plan_emails p)) (w, l) = ((w', l @ [SentEmail i]), Inr ())"
      then have d': "d' = mark_delivered E i ''email'' (d\<lparr>d_world := (w', l @ [SentEmail i])\<rparr>)"
        using run True i(1) allowed r by (simp add: email_phase_def N)
      have "sent_once (update_alert i (delivered_row (e_now E) Email) (d_db d)) (l @ [SentEmail i])"
        by (rule sent_once_add) (use d i(2) todo [OF True] in \<open>simp_all add: dinv_def l\<close>)
      then show ?thesis
        by (simp add: phase_ok_def dinv_def d' mark_delivered_db update_alert_mono status_delivered)
    qed
  qed
qed

lemma count_append_other: "ev \<noteq> ev' \<Longrightarrow> count_list (l @ [ev']) ev = count_list l ev"
  by simp

lemma sent_once_telegram: "sent_once db l \<Longrightarrow> sent_once db (l @ [SentTelegram i c])"
proof -
  have "ev \<noteq> SentTelegram i c" if "event_of ch j = Some ev" for ch j ev
    using that by (cases ch) auto
  then have "count_list (l @ [SentTelegram i c]) ev = count_list l ev" if "event_of ch j = Some ev" for ch j ev
    using that count_append_other by metis
  then show "sent_once db l \<Longrightarrow> ?thesis" unfolding sent_once_def by metis
qed

lemma telegram_chats_ok:
  assumes "recorded_env E" and "dinv d" and "telegram_chats E p alert cs d = (d', errs)"
  shows "dinv d' \<and> d_db d' = d_db d"
  using assms(2,3)
proof (induction cs arbitrary: d errs)
  case (Cons c cs)
  obtain N where N: "e_notifier E = recorded N" using assms(1) by (auto simp: recorded_env_def)
  obtain w l where w: "d_world d = (w, l)" by (cases "d_world d")
  let ?ev = "SentTelegram (view_id alert) c"
  show ?case
  proof (rule logging_cases [of ?ev "sendTelegram N alert c (plan_token p)" w l])
    fix w' e assume f: "logging ?ev (sendTelegram N alert c (plan_token p)) (w, l) = ((w', l), Inl e)"
    let ?d = "record_failure Telegram (d\<lparr>d_world := (w', l)\<rparr>)"
    obtain errs' where "telegram_chats E p alert cs ?d = (d', errs')"
      using Cons.prems(2) f by (auto simp: N w split: prod.splits)
    moreover have "dinv ?d" using Cons.prems(1) by (simp add: dinv_def w)
    ultimately show ?thesis using Cons.IH by force
  next
    fix w' assume f: "logging ?ev (sendTelegram N alert c (plan_token p)) (w, l) = ((w', l @ [?ev]), Inr ())"
    let ?d = "d\<lparr>d_world := (w', l @ [?ev])\<rparr>"
    have "telegram_chats E p alert cs ?d = (d', errs)"
      using Cons.prems(2) f by (simp add: N w)
    moreover have "dinv ?d" using Cons.prems(1) sent_once_telegram by (simp add: dinv_def w)
    ultimately show ?thesis using Cons.IH by force
  qed
qed simp


lemma telegram_phase_ok:
  assumes "recorded_env E" and "dinv d" and "telegram_phase E p i alert d = (d', errs, term)"
  shows "phase_ok Telegram d d'"
proof (cases "shouldSendTelegram p")
  case False
  then show ?thesis using assms(2,3) by (simp add: telegram_phase_def phase_ok_def)
next
  case True
  obtain d1 e1 where run: "telegram_chats E p alert (plan_chats p) d = (d1, e1)" by fastforce
  note c = telegram_chats_ok [OF assms(1,2) run]
  show ?thesis
  proof (cases "e1 = []")
    case False
    then have "d' = d1" using assms(3) True run by (simp add: telegram_phase_def)
    with c show ?thesis by (simp add: phase_ok_def)
  next
    case e1: True
    then have d': "d' = mark_delivered E i ''telegram'' d1" using assms(3) True run by (simp add: telegram_phase_def)
    have m: "sent_mono (d_db d) (update_alert i (delivered_row (e_now E) Telegram) (d_db d))"
      by (rule update_alert_mono) simp
    then show ?thesis
      using c sent_once_mono by (auto simp: phase_ok_def dinv_def d' mark_delivered_db status_delivered)
  qed
qed

lemma digest_phase_ok: "dinv d \<Longrightarrow> dinv (digest_phase E p i alert d) \<and> sent_mono (d_db d) (d_db (digest_phase E p i alert d))"
  using queue_items_mono sent_once_mono by (auto simp: digest_phase_def dinv_def)

lemma run_channels_ok:
  assumes E: "recorded_env E" and d: "dinv d" and i: "view_id alert = i"
    and row: "chan_status i Webhook (d_db d) = Some (view_webhook alert)" "chan_status i Email (d_db d) = Some (view_email alert)"
    and p: "shouldAttemptWebhook p \<Longrightarrow> view_webhook alert \<noteq> ChSent" "shouldAttemptEmail p \<Longrightarrow> view_email alert \<noteq> ChSent"
    and run: "run_channels E p i alert d = (d', errs, term)"
  shows "dinv d' \<and> sent_mono (d_db d) (d_db d')"
proof -
  obtain d1 e1 t1 where 1: "webhook_phase E p i alert d = (d1, e1, t1)" by (metis prod_cases3)
  obtain d2 e2 t2 where 2: "email_phase E p i alert d1 = (d2, e2, t2)" by (metis prod_cases3)
  obtain d3 e3 t3 where 3: "telegram_phase E p i alert d2 = (d3, e3, t3)" by (metis prod_cases3)
  have p1: "phase_ok Webhook d d1" by (rule webhook_phase_ok [OF E d i _ _ 1]) (use row p in auto)
  then have "chan_status i Email (d_db d1) = Some (view_email alert)" using row(2) by (simp add: phase_ok_def)
  then have p2: "phase_ok Email d1 d2"
    using p(2) p1 by (intro email_phase_ok [OF E _ i _ _ 2]) (auto simp: phase_ok_def)
  then have p3: "phase_ok Telegram d2 d3"
    by (intro telegram_phase_ok [OF E _ 3]) (simp add: phase_ok_def)
  have "d' = digest_phase E p i alert d3" using run 1 2 3 by (simp add: run_channels_def)
  moreover have "dinv d3" "sent_mono (d_db d) (d_db d3)"
    using p1 p2 p3 sent_mono_trans unfolding phase_ok_def by blast+
  ultimately show ?thesis using digest_phase_ok [of d3 E p i alert] sent_mono_trans by blast
qed

lemma settle_ok: "dinv d \<Longrightarrow> dinv (settle E p input t d) \<and> sent_mono (d_db d) (d_db (settle E p input t d))"
proof -
  have "sent_mono (d_db d) (d_db (settle E p input t d))"
    by (auto simp: settle_def mark_defs intro!: update_alert_mono split: prod.splits)
  moreover have "d_world (settle E p input t d) = d_world d"
    by (simp add: settle_def split: prod.splits)
  ultimately show "dinv d \<Longrightarrow> ?thesis" using sent_once_mono by (simp add: dinv_def)
qed

lemma found_row:
  assumes "findByIdForWorker i db = Some alert" and "distinct (map alert_id (alerts db))"
  shows "\<exists>a. row_by alert_id i (alerts db) = Some a \<and> view_id alert = i \<and> view_tenant alert = alert_tenant a
    \<and> view_sent alert = sent a
    \<and> view_webhook alert = webhook_status a \<and> view_email alert = email_status a \<and> view_telegram alert = telegram_status a"
proof -
  obtain a e r rest where f: "filter (\<lambda>(a, e, r). alert_id a = i) (alert_rows db) = (a, e, r) # rest"
    "alert = mapAlert (a, e, r)"
    using assms(1) by (auto simp: findByIdForWorker_def split: list.splits)
  then have "(a, e, r) \<in> set (filter (\<lambda>(a, e, r). alert_id a = i) (alert_rows db))" by simp
  then have "a \<in> set (alerts db)" "alert_id a = i" by (auto simp: alert_rows_def)
  then have "row_by alert_id i (alerts db) = Some a" using row_by_distinct [OF assms(2)] by blast
  with f(2) \<open>alert_id a = i\<close> show ?thesis by simp
qed

lemma execute_ok:
  assumes E: "recorded_env E" and d: "dinv d" and ids: "distinct (map alert_id (alerts (d_db d)))"
  shows "dinv (fst (ProcessAlertDelivery_execute E input d))
    \<and> sent_mono (d_db d) (d_db (fst (ProcessAlertDelivery_execute E input d)))"
proof (cases "findByIdForWorker (in_alert input) (d_db d)")
  case None
  then show ?thesis using d by (simp add: ProcessAlertDelivery_execute_def)
next
  case (Some alert)
  let ?i = "in_alert input"
  let ?settings = "getByTenantId (view_tenant alert) (e_settings E)"
  obtain rst token where tok: "resolveForTenant (e_crypto E) (e_master_key E) (e_global_token E) True (view_tenant alert)
      ?settings (d_resolver d) = (rst, token)" by fastforce
  define p where "p = make_plan E ?settings token alert"
  define d0 where "d0 = d\<lparr>d_resolver := rst\<rparr>"
  obtain a where a: "row_by alert_id ?i (alerts (d_db d)) = Some a" "view_id alert = ?i"
    "view_webhook alert = webhook_status a" "view_email alert = email_status a"
    using found_row [OF Some ids] by blast
  have row: "chan_status ?i Webhook (d_db d0) = Some (view_webhook alert)" "chan_status ?i Email (d_db d0) = Some (view_email alert)"
    using a by (simp_all add: chan_status_def d0_def)
  have todo: "shouldAttemptWebhook p \<Longrightarrow> view_webhook alert \<noteq> ChSent" "shouldAttemptEmail p \<Longrightarrow> view_email alert \<noteq> ChSent"
    by (simp_all add: p_def make_plan_def Let_def)
  have d0: "dinv d0" "d_db d0 = d_db d" "d_world d0 = d_world d" using d by (simp_all add: d0_def dinv_def)
  obtain d1 errs terminal where run: "run_channels E p ?i alert d0 = (d1, errs, terminal)" by (metis prod_cases3)
  note r = run_channels_ok [OF E d0(1) a(2) row todo run]
  have dis: "sent_mono (d_db d) (markDeliveryDisabled (e_now E) ?i (d_db d))"
    "sent_mono (d_db d1) (markDeliveryFailure (e_now E) ?i n m b (d_db d1))" for n m b
    by (simp_all add: mark_defs update_alert_mono)
  show ?thesis
  proof (cases "(\<not> shouldAttemptWebhook p \<and> \<not> shouldAttemptEmail p \<and> \<not> shouldSendTelegram p
      \<and> \<not> shouldQueueTelegramDigest p) \<or> \<not> isEnabled (e_notifier E)")
    case True
    then have "fst (ProcessAlertDelivery_execute E input d) = d0\<lparr>d_db := markDeliveryDisabled (e_now E) ?i (d_db d0)\<rparr>"
      unfolding ProcessAlertDelivery_execute_def Some option.case Let_def tok prod.case
      by (auto simp: p_def d0_def)
    then show ?thesis
      using dis(1) d d0 sent_once_mono by (auto simp: dinv_def)
  next
    case False
    show ?thesis
    proof (cases "errs = []")
      case True
      then have "fst (ProcessAlertDelivery_execute E input d) = settle E p input terminal d1"
        unfolding ProcessAlertDelivery_execute_def Some option.case Let_def tok prod.case
        using False run by (auto simp: p_def d0_def)
      then show ?thesis using r settle_ok [of d1 E p input terminal] sent_mono_trans by (metis d0(2))
    next
      case errs: False
      then have "fst (ProcessAlertDelivery_execute E input d) = d1\<lparr>d_db := markDeliveryFailure (e_now E) ?i
          (attemptNumber input) (channels_failed_message (errs @ terminal)) (willRetry input) (d_db d1)\<rparr>"
        unfolding ProcessAlertDelivery_execute_def Some option.case Let_def tok prod.case
        using False run by (auto simp: p_def d0_def)
      moreover note m = dis(2) [of "attemptNumber input" "channels_failed_message (errs @ terminal)" "willRetry input"]
      have "sent_mono (d_db d) (markDeliveryFailure (e_now E) ?i (attemptNumber input)
          (channels_failed_message (errs @ terminal)) (willRetry input) (d_db d1))"
        using r m sent_mono_trans unfolding d0(2) by blast
      moreover have "sent_once (markDeliveryFailure (e_now E) ?i (attemptNumber input)
          (channels_failed_message (errs @ terminal)) (willRetry input) (d_db d1)) (snd (d_world d1))"
        using r m sent_once_mono unfolding dinv_def by blast
      ultimately show ?thesis by (simp add: dinv_def)
    qed
  qed
qed

text \<open>A sequence of jobs, each with its own environment (settings, notifier outcomes, time).\<close>

fun run_jobs :: "('w delivery_env \<times> delivery_input) list \<Rightarrow> 'w delivery \<Rightarrow> 'w delivery" where
  "run_jobs [] d = d"
| "run_jobs ((E, input) # jobs) d = run_jobs jobs (fst (ProcessAlertDelivery_execute E input d))"

lemma run_jobs_ok:
  assumes "\<forall>(E, input) \<in> set jobs. recorded_env E" and "dinv d" and "distinct (map alert_id (alerts (d_db d)))"
  shows "dinv (run_jobs jobs d) \<and> sent_mono (d_db d) (d_db (run_jobs jobs d))"
  using assms
proof (induction jobs arbitrary: d)
  case (Cons job jobs)
  obtain E input where job: "job = (E, input)" by (cases job)
  let ?d = "fst (ProcessAlertDelivery_execute E input d)"
  have x: "dinv ?d" "sent_mono (d_db d) (d_db ?d)"
    using execute_ok [of E d input] Cons.prems by (simp_all add: job)
  moreover have "distinct (map alert_id (alerts (d_db ?d)))"
    using x(2) Cons.prems(3) by (simp add: sent_mono_def)
  ultimately show ?case using Cons.IH [of ?d] Cons.prems(1) sent_mono_trans by (auto simp: job)
qed simp


section \<open>The sent flag\<close>

definition sent_flag :: "nat \<Rightarrow> alert_db \<Rightarrow> bool option" where
  "sent_flag i db = map_option sent (row_by alert_id i (alerts db))"

lemma sent_flag_update:
  assumes "\<And>a. progress a (f a)" and "\<And>a. sent (f a) = sent a"
  shows "sent_flag j (update_alert i f db) = sent_flag j db"
  unfolding sent_flag_def row_by_progress [OF assms(1)]
  by (cases "row_by alert_id j (alerts db)") (auto simp: assms(2))

lemma sent_rows [simp]:
  "sent (queued_row now a) = sent a" "sent (disabled_row now a) = sent a" "sent (failure_row now n err w a) = sent a"
  "sent (delivered_row now ch a) = sent a" "sent (failed_row now ch a) = sent a" "sent (retry_row now n a) = sent a"
  by (simp_all add: row_simps)

lemma webhook_phase_flag: "sent_flag j (d_db (fst (webhook_phase E p i alert d))) = sent_flag j (d_db d)"
  by (auto simp: webhook_phase_def mark_delivered_db sent_flag_update split: prod.splits sum.splits)

lemma email_phase_flag: "sent_flag j (d_db (fst (email_phase E p i alert d))) = sent_flag j (d_db d)"
  by (auto simp: email_phase_def mark_delivered_db sent_flag_update split: prod.splits sum.splits)

lemma telegram_chats_db: "d_db (fst (telegram_chats E p alert cs d)) = d_db d"
proof (induction E p alert cs d rule: telegram_chats.induct)
  case (2 E p alert c cs d)
  then show ?case by (simp split: prod.splits sum.splits) (metis delivery_simps(1) fst_conv delivery.select_convs(1) delivery.update_convs(3))
qed simp

lemma telegram_phase_flag: "sent_flag j (d_db (fst (telegram_phase E p i alert d))) = sent_flag j (d_db d)"
  using telegram_chats_db [of E p alert "plan_chats p" d]
  by (auto simp: telegram_phase_def mark_delivered_db sent_flag_update split: prod.splits)

lemma digest_phase_flag: "sent_flag j (d_db (digest_phase E p i alert d)) = sent_flag j (d_db d)"
  using queue_items_same by (simp add: digest_phase_def sent_flag_def)

lemma run_channels_flag: "sent_flag j (d_db (fst (run_channels E p i alert d))) = sent_flag j (d_db d)"
proof -
  obtain d1 e1 t1 where 1: "webhook_phase E p i alert d = (d1, e1, t1)" by (metis prod_cases3)
  obtain d2 e2 t2 where 2: "email_phase E p i alert d1 = (d2, e2, t2)" by (metis prod_cases3)
  obtain d3 e3 t3 where 3: "telegram_phase E p i alert d2 = (d3, e3, t3)" by (metis prod_cases3)
  show ?thesis
    using webhook_phase_flag [of j E p i alert d] email_phase_flag [of j E p i alert d1]
      telegram_phase_flag [of j E p i alert d2] digest_phase_flag [of j E p i alert d3] 1 2 3
    by (simp add: run_channels_def)
qed

text \<open>\<open>settle\<close> sets the flag only where \<open>checkAllChannelsDelivered\<close> answered true.\<close>

lemma settle_flag:
  assumes "sent_flag j (d_db (settle E p input t d)) \<noteq> sent_flag j (d_db d)"
  shows "d_db (settle E p input t d) = fst (markSent (e_now E) (in_alert input) (attemptNumber input) (d_db d))
    \<and> checkAllChannelsDelivered (in_alert input)
        \<lparr>hasWebhook = truthy (notifierUrl p), hasEmail = (plan_emails p \<noteq> []),
         hasTelegram = (plan_chats p \<noteq> [] \<and> plan_mode p = Instant)\<rparr> (d_db d)"
  using assms by (auto simp: settle_def mark_defs sent_flag_update split: if_splits prod.splits)

lemma chan_status_sent: "chan_status j ch (fst (markSent now i n db)) = chan_status j ch db"
proof -
  have "status_of ch (sent_row now n a) = status_of ch a" for a by (simp add: sent_row_def)
  then show ?thesis
    unfolding markSent_def fst_conv chan_status_def
    by (subst row_by_progress) (auto simp: option.map_comp comp_def)
qed

text \<open>The plan of an execution, as its method body computes it.\<close>

definition plan_of :: "'w delivery_env \<Rightarrow> alert_notification \<Rightarrow> 'w delivery \<Rightarrow> delivery_plan" where
  "plan_of E alert d =
     make_plan E (getByTenantId (view_tenant alert) (e_settings E))
       (snd (resolveForTenant (e_crypto E) (e_master_key E) (e_global_token E) True (view_tenant alert)
               (getByTenantId (view_tenant alert) (e_settings E)) (d_resolver d))) alert"

lemma execute_flag:
  assumes found: "findByIdForWorker (in_alert input) (d_db d) = Some alert"
    and flag: "sent_flag j (d_db (fst (ProcessAlertDelivery_execute E input d))) \<noteq> sent_flag j (d_db d)"
  shows "\<exists>rst db1. db1 = d_db (fst (run_channels E (plan_of E alert d) (in_alert input) alert (d\<lparr>d_resolver := rst\<rparr>)))
    \<and> d_db (fst (ProcessAlertDelivery_execute E input d)) = fst (markSent (e_now E) (in_alert input) (attemptNumber input) db1)
    \<and> checkAllChannelsDelivered (in_alert input)
        \<lparr>hasWebhook = truthy (notifierUrl (plan_of E alert d)), hasEmail = (plan_emails (plan_of E alert d) \<noteq> []),
         hasTelegram = (plan_chats (plan_of E alert d) \<noteq> [] \<and> plan_mode (plan_of E alert d) = Instant)\<rparr> db1"
proof -
  let ?i = "in_alert input"
  let ?settings = "getByTenantId (view_tenant alert) (e_settings E)"
  obtain rst token where tok: "resolveForTenant (e_crypto E) (e_master_key E) (e_global_token E) True (view_tenant alert)
      ?settings (d_resolver d) = (rst, token)" by fastforce
  define p where "p = plan_of E alert d"
  have p': "make_plan E ?settings token alert = p" by (simp add: p_def plan_of_def tok)
  define d0 where "d0 = d\<lparr>d_resolver := rst\<rparr>"
  obtain d1 errs terminal where run: "run_channels E p ?i alert d0 = (d1, errs, terminal)" by (metis prod_cases3)
  have f1: "sent_flag j (d_db d1) = sent_flag j (d_db d)"
    using run_channels_flag [of j E p ?i alert d0] run by (simp add: d0_def)
  let ?skip = "(\<not> shouldAttemptWebhook p \<and> \<not> shouldAttemptEmail p \<and> \<not> shouldSendTelegram p
      \<and> \<not> shouldQueueTelegramDigest p) \<or> \<not> isEnabled (e_notifier E)"
  have ex: "d_db (fst (ProcessAlertDelivery_execute E input d)) =
      (if ?skip then markDeliveryDisabled (e_now E) ?i (d_db d)
       else if errs \<noteq> [] then markDeliveryFailure (e_now E) ?i (attemptNumber input)
           (channels_failed_message (errs @ terminal)) (willRetry input) (d_db d1)
       else d_db (settle E p input terminal d1))"
    unfolding ProcessAlertDelivery_execute_def found option.case Let_def tok prod.case p'
    using run by (auto simp: d0_def)
  have "sent_flag j (markDeliveryDisabled (e_now E) ?i (d_db d)) = sent_flag j (d_db d)"
    "sent_flag j (markDeliveryFailure (e_now E) ?i n m b (d_db d1)) = sent_flag j (d_db d1)" for n m b
    by (simp_all add: mark_defs sent_flag_update)
  then have eq: "d_db (fst (ProcessAlertDelivery_execute E input d)) = d_db (settle E p input terminal d1)"
    using flag f1 unfolding ex by (auto split: if_splits)
  then have "sent_flag j (d_db (settle E p input terminal d1)) \<noteq> sent_flag j (d_db d1)" using flag f1 by simp
  note st = settle_flag [OF this]
  have "d_db d1 = d_db (fst (run_channels E (plan_of E alert d) ?i alert (d\<lparr>d_resolver := rst\<rparr>)))"
    using run by (simp add: p_def d0_def)
  with st eq show ?thesis unfolding p_def by metis
qed


section \<open>A concrete environment\<close>

definition sample_rule :: rule where
  "sample_rule = \<lparr>includeKeywords = [], excludeKeywords = [], rule_id = 4, rule_tenant = ''acme'',
     rule_name = ''r'', rule_active = True,
     rule_created_at = 0, rule_updated_at = 0\<rparr>"

definition delivery_db :: alert_db where
  "delivery_db = sample_db\<lparr>rules := [sample_rule]\<rparr>"

definition plain_notifier :: "bool \<Rightarrow> unit notifier" where
  "plain_notifier email_ok = \<lparr>isEnabled = True, isEmailEnabled = email_ok, isTelegramEnabled = (\<lambda>_. True),
     sendWebhook = (\<lambda>_ _ w. (w, Inr ())), sendEmail = (\<lambda>_ _ w. (w, Inr ())),
     sendTelegram = (\<lambda>_ _ _ w. (w, Inr ())), sendTelegramDigest = (\<lambda>_ w. (w, Inr ()))\<rparr>"

definition silent_redis :: "unit redis" where
  "silent_redis = \<lparr>redis_get = (\<lambda>k w. (w, Inl ''down'')), redis_incr = (\<lambda>k w. (w, Inl ''down'')),
     redis_decr = (\<lambda>k w. (w, Inl ''down'')), redis_expire = (\<lambda>k t w. (w, Inl ''down''))\<rparr>"

definition webhook_settings :: "string list \<Rightarrow> settings_row" where
  "webhook_settings emails = \<lparr>st_tenant = ''acme'', st_webhook = Some ''http://h.example/'', st_emails = emails,
     st_chats = [], st_mode = Instant, st_ciphertext = None, st_iv = None, st_tag = None, st_key_version = Some 1,
     st_created = 0, st_updated = 0\<rparr>"

definition sample_env :: "string list \<Rightarrow> bool \<Rightarrow> (unit \<times> sent_event list) delivery_env" where
  "sample_env emails email_ok = \<lparr>e_notifier = recorded (plain_notifier email_ok), e_redis = beside silent_redis,
     e_daily_limit = Some 0, e_crypto = clear_crypto, e_master_key = None, e_global_token = None,
     e_webhook_url = None, e_settings = [webhook_settings emails], e_now = 9\<rparr>"

definition sample_delivery :: "(unit \<times> sent_event list) delivery" where
  "sample_delivery = \<lparr>d_db = delivery_db, d_resolver = fresh_resolver, d_world = ((), []), d_alerts_sent = 0,
     d_channel_failures = []\<rparr>"

definition sample_input1 :: delivery_input where
  "sample_input1 = \<lparr>in_alert = 1, attemptNumber = 1, willRetry = True\<rparr>"

lemma sample_recorded: "recorded_env (sample_env emails b)"
  by (auto simp: recorded_env_def sample_env_def)

lemma sample_ids: "distinct (map alert_id (alerts (d_db sample_delivery)))"
  by (simp add: sample_delivery_def delivery_db_def sample_db_def)

lemmas delivery_eval = sample_env_def sample_delivery_def delivery_db_def sample_db_def sample_input1_def
  webhook_settings_def plain_notifier_def recorded_def logging_def sample_rule_def new_alert_def sample_entry_def
  fresh_resolver_def

lemma sample_found:
  "findByIdForWorker 1 delivery_db = Some (mapAlert (new_alert 1 0 ''acme'' 3 4 [4] None, sample_entry 3 None, sample_rule))"
  by (simp add: findByIdForWorker_def alert_rows_def delivery_db_def sample_db_def sample_rule_def new_alert_def
      primary_rule_def sample_entry_def)

section \<open>Properties\<close>






text \<open>
  An authenticated delivery request acts only on an alert of the caller's tenant: without a tenant
  it fails; otherwise no alert of another tenant changes and a job is queued only for an alert of the
  caller that is not yet sent.
\<close>

theorem manual_delivery_is_tenant_scoped:
  assumes "distinct (map alert_id (alerts db))"
    and "DeliverAlert_execute enabled now alertId FromManual tenantId (db, queue) = ((db', queue'), r)"
  shows "((tenantId = None \<or> tenantId = Some '''') \<longrightarrow> r = Inl MissingTenantContext \<and> db' = db \<and> queue' = queue)
    \<and> (\<forall>a \<in> set (alerts db). Some (alert_tenant a) \<noteq> tenantId \<longrightarrow> a \<in> set (alerts db'))
    \<and> (queue' \<noteq> queue \<longrightarrow>
         (\<exists>a \<in> set (alerts db). alert_id a = alertId \<and> Some (alert_tenant a) = tenantId \<and> \<not> sent a)
         \<and> queue' = queue @ [\<lparr>job_alert = alertId, job_queued_at = now, job_source = FromManual\<rparr>])"
proof (cases "tenantId = None \<or> tenantId = Some ''''")
  case True
  then show ?thesis using assms(2) by (auto simp: DeliverAlert_execute_def)
next
  case False
  then obtain t where t: "tenantId = Some t" "t \<noteq> ''''" by auto
  show ?thesis
  proof (cases "findByIdForTenant alertId t db")
    case None
    then show ?thesis using assms(2) t by (auto simp: DeliverAlert_execute_def deliver_found_def)
  next
    case (Some alert)
    then obtain a e r' rest where f: "filter (\<lambda>(a, e, r). alert_id a = alertId \<and> alert_tenant a = t) (alert_rows db)
        = (a, e, r') # rest" "alert = mapAlert (a, e, r')"
      by (auto simp: findByIdForTenant_def split: list.splits)
    then have "(a, e, r') \<in> set (filter (\<lambda>(a, e, r). alert_id a = alertId \<and> alert_tenant a = t) (alert_rows db))"
      by simp
    then have a: "a \<in> set (alerts db)" "alert_id a = alertId" "alert_tenant a = t" by (auto simp: alert_rows_def)
    have other: "b \<in> set (alerts (update_alert alertId g db))" if "b \<in> set (alerts db)" "alert_tenant b \<noteq> t" for b g
    proof -
      have "alert_id b \<noteq> alertId"
        using that a row_by_distinct [OF assms(1)] by (metis option.inject)
      with that show ?thesis by (auto simp: update_alert_def in_sql_update intro!: bexI [of _ b])
    qed
    show ?thesis
      using assms(2) t Some a other f(2)
      by (auto simp: DeliverAlert_execute_def deliver_found_def mark_defs split: if_splits)
  qed
qed

lemma manual_delivery_is_tenant_scoped_witness:
  "\<exists>db' queue' r. DeliverAlert_execute True 5 1 FromManual (Some ''acme'') (delivery_db, []) = ((db', queue'), r)
     \<and> queue' \<noteq> [] \<and> (\<exists>a \<in> set (alerts delivery_db). alert_id a = 1 \<and> alert_tenant a = ''acme'' \<and> \<not> sent a)"
proof -
  obtain db' queue' r where run: "DeliverAlert_execute True 5 1 FromManual (Some ''acme'') (delivery_db, []) = ((db', queue'), r)"
    by (metis prod.collapse)
  have "snd (fst (DeliverAlert_execute True 5 1 FromManual (Some ''acme'') (delivery_db, []))) \<noteq> []" by code_simp
  then have q: "queue' \<noteq> []" using run by simp
  have ids: "distinct (map alert_id (alerts delivery_db))" by (simp add: delivery_db_def sample_db_def)
  from manual_delivery_is_tenant_scoped [OF ids run] q run show ?thesis by auto
qed

section \<open>What the findings describe\<close>

lemma run_channels_email:
  assumes "\<not> shouldAttemptEmail p"
  shows "chan_status j Email (d_db (fst (run_channels E p i alert d))) = chan_status j Email (d_db d)"
proof -
  obtain d1 e1 t1 where 1: "webhook_phase E p i alert d = (d1, e1, t1)" by (metis prod_cases3)
  obtain d3 e3 t3 where 3: "telegram_phase E p i alert d1 = (d3, e3, t3)" by (metis prod_cases3)
  have "chan_status j Email (d_db (fst (webhook_phase E p i alert d))) = chan_status j Email (d_db d)"
    by (auto simp: webhook_phase_def mark_delivered_db status_delivered split: prod.splits sum.splits)
  moreover have "chan_status j Email (d_db (fst (telegram_phase E p i alert d1))) = chan_status j Email (d_db d1)"
    using telegram_chats_db [of E p alert "plan_chats p" d1]
    by (auto simp: telegram_phase_def mark_delivered_db status_delivered split: prod.splits)
  moreover have "chan_status j Email (d_db (digest_phase E p i alert d3)) = chan_status j Email (d_db d3)"
    using queue_items_same by (simp add: digest_phase_def chan_status_def)
  moreover have "email_phase E p i alert d1 = (d1, [], [])" using assms by (simp add: email_phase_def)
  ultimately show ?thesis using 1 3 by (simp add: run_channels_def)
qed

text \<open>
  Recipients without a configured mail transport: such an alert is never marked sent, by any job, as
  long as its mail has not been sent.
\<close>

lemma unconfigured_mail_blocks_sent:
  assumes "findByIdForWorker (in_alert input) (d_db d) = Some alert"
    and "\<not> isEmailEnabled (e_notifier E)" and "plan_emails (plan_of E alert d) \<noteq> []"
    and "chan_status (in_alert input) Email (d_db d) \<noteq> Some ChSent"
  shows "sent_flag j (d_db (fst (ProcessAlertDelivery_execute E input d))) = sent_flag j (d_db d)"
proof (rule ccontr)
  assume "sent_flag j (d_db (fst (ProcessAlertDelivery_execute E input d))) \<noteq> sent_flag j (d_db d)"
  from execute_flag [OF assms(1) this] obtain rst db1 where db1:
    "db1 = d_db (fst (run_channels E (plan_of E alert d) (in_alert input) alert (d\<lparr>d_resolver := rst\<rparr>)))"
    "checkAllChannelsDelivered (in_alert input)
        \<lparr>hasWebhook = truthy (notifierUrl (plan_of E alert d)), hasEmail = (plan_emails (plan_of E alert d) \<noteq> []),
         hasTelegram = (plan_chats (plan_of E alert d) \<noteq> [] \<and> plan_mode (plan_of E alert d) = Instant)\<rparr> db1"
    by blast
  have skip: "\<not> shouldAttemptEmail (plan_of E alert d)"
    using assms(2) by (simp add: plan_of_def make_plan_def Let_def)
  have "chan_status (in_alert input) Email db1 = chan_status (in_alert input) Email (d_db d)"
    by (simp add: db1(1) run_channels_email [OF skip])
  moreover have "chan_status (in_alert input) Email db1 = Some ChSent"
    using db1(2) assms(3) by (auto simp: checkAllChannelsDelivered_def chan_status_def split: option.splits)
  ultimately show False using assms(4) by simp
qed

text \<open>The job then neither fails nor is retried: it returns normally and leaves the alert retrying.\<close>

lemma unconfigured_mail_example:
  "(case ProcessAlertDelivery_execute (sample_env [''a@b.example''] False) sample_input1 sample_delivery of
      (d', r) \<Rightarrow> r = Inr () \<and> map delivery_status (alerts (d_db d')) = [StRetrying]
        \<and> chan_status 1 Webhook (d_db d') = Some ChSent)"
  by code_simp

text \<open>A job that runs again after everything was sent marks the delivery disabled.\<close>

lemma replayed_job_disables_sent_alert:
  "map (\<lambda>a. (sent a, delivery_status a, last_error a))
     (alerts (d_db (run_jobs [(sample_env [] False, sample_input1), (sample_env [] False, sample_input1)] sample_delivery)))
   = [(True, StDisabled, Some ''notifier_disabled'')]"
  by code_simp


text \<open>
  A Telegram delivery to several chats that fails for one of them is repeated for all of them: the
  status is kept per channel, not per chat.
\<close>

definition half_env :: "(unit \<times> sent_event list) delivery_env" where
  "half_env = (sample_env [] False)\<lparr>
     e_notifier := recorded ((plain_notifier False)\<lparr>sendTelegram :=
       (\<lambda>_ c _ w. if c = ''c2'' then (w, Inl ''timeout'') else (w, Inr ()))\<rparr>),
     e_settings := [(webhook_settings [])\<lparr>st_webhook := None, st_chats := [''c1'', ''c2'']\<rparr>]\<rparr>"

lemma partial_telegram_delivery_repeats:
  "snd (d_world (run_jobs [(half_env, sample_input1), (half_env, sample_input1)] sample_delivery))
   = [SentTelegram 1 ''c1'', SentTelegram 1 ''c1'']"
  by code_simp

text \<open>
  A tenant whose own bot token does not open gets its Telegram messages sent with the operator's
  global token: the resolver answers with no token, but the webhook notifier reports Telegram as enabled
  for it and falls back to the global token when it sends.
\<close>

theorem broken_tenant_token_uses_global_bot:
  assumes "telegramBotTokenEncrypted s = Some enc"
    and "snd (decryptTelegramBotToken C masterKey tenant enc (secrets st)) = Inl err"
    and "cfg_telegramBotToken cfg = Some glob" and "glob \<noteq> ''''"
  shows "snd (resolveForTenant C masterKey (cfg_telegramBotToken cfg) repo tenant (Some s) st) = None
    \<and> isTelegramEnabled (WebhookAlertNotifier E cfg fetchImpl parseURL resolveURL) None
    \<and> sendTelegram (WebhookAlertNotifier E cfg fetchImpl parseURL resolveURL) alert chatId None
      = sendTelegram (WebhookAlertNotifier E cfg fetchImpl parseURL resolveURL) alert chatId (Some glob)"
proof -
  have "snd (resolveForTenant C masterKey (cfg_telegramBotToken cfg) repo tenant (Some s) st) = None"
    using assms(1,2) by (auto simp: resolveForTenant_def resolveDetailedForTenant_def split: prod.splits sum.splits)
  then show ?thesis
    using assms(3,4) by (auto simp: WebhookAlertNotifier_def sendTelegramMessage_def or_else_def present_def fun_eq_iff)
qed

definition bare_engine :: engine where
  "bare_engine = \<lparr>stringify = (\<lambda>_. ''''), reads_not_ok = (\<lambda>_. False), formatDate = (\<lambda>_. [])\<rparr>"

definition bare_config :: notifier_config where
  "bare_config = \<lparr>resendApiKey = None, resendFromEmail = None, cfg_telegramBotToken = Some ''g'',
    cfg_webhookNotifierUrl = None, telegramApiUrl = ''https://api.telegram.org'', allowPrivateHosts = False\<rparr>"

lemma broken_tenant_token_uses_global_bot_witness:
  "snd (resolveForTenant clear_crypto (Some ''k'') (cfg_telegramBotToken bare_config) True ''acme''
       (Some (mapTenantSettings sample_row)) fresh_resolver) = None
   \<and> isTelegramEnabled (WebhookAlertNotifier bare_engine bare_config (\<lambda>w u i. (w, Inl u)) (\<lambda>_. None) (\<lambda>_ _. None)) None"
proof -
  have enc: "telegramBotTokenEncrypted (mapTenantSettings sample_row)
      = Some \<lparr>ciphertext = ''x'', iv = ''y'', auth_tag = ''z'', keyVersion = 3\<rparr>"
    by (simp add: mapTenantSettings_def mapTelegramBotTokenEncrypted_def sample_row_def truthy_def Let_def)
  have bad: "snd (decryptTelegramBotToken clear_crypto (Some ''k'') ''acme''
      \<lparr>ciphertext = ''x'', iv = ''y'', auth_tag = ''z'', keyVersion = 3\<rparr> (secrets fresh_resolver))
    = Inl (TenantSecretDecryptError (''tenant_secrets_unknown_key_version:'' @ js_int 3) unknown_key_version)"
    by (simp add: decryptTelegramBotToken_def)
  have g: "cfg_telegramBotToken bare_config = Some ''g''" "''g'' \<noteq> ''''" by (simp_all add: bare_config_def)
  from broken_tenant_token_uses_global_bot [OF enc bad g, of True bare_engine "\<lambda>w u i. (w, Inl u)" "\<lambda>_. None" "\<lambda>_ _. None"]
  show ?thesis by blast
qed

end
