(* ===== verification/Job_Queues.thy ===== *)
theory Job_Queues imports Js_Number Alert_Delivery begin

text \<open>
  The job queues and the store of failed jobs: \<open>src/infrastructure/queue\<close> and the failure handling of
  \<open>src/modules/ingestion/worker.runner.ts\<close>. BullMQ is the record \<open>bull\<close> of the two commands the queues
  issue, \<open>getJob\<close> (does the queue hold a job of this id, waiting, running or retained) and \<open>add\<close>.
  Serialized payloads and messages are lists of UTF-16 code units.
  Theorems: the size bounds of what a dead letter stores, its retention, one dead letter per terminal
  failure, and that the last attempt of a job is the one told that nothing will be retried.
\<close>

section \<open>Queues\<close>

record ('q, 'j) bull =
  getJob :: "string \<Rightarrow> 'q \<Rightarrow> bool"
  addJob :: "string \<Rightarrow> 'j \<Rightarrow> 'q \<Rightarrow> 'q"

definition FETCH_FEED_QUEUE_NAME :: string where "FETCH_FEED_QUEUE_NAME = ''fetch-feed''"
definition ALERT_DELIVERY_QUEUE_NAME :: string where "ALERT_DELIVERY_QUEUE_NAME = ''alert-delivery''"
definition OPML_PARSE_PREVIEW_QUEUE_NAME :: string where "OPML_PARSE_PREVIEW_QUEUE_NAME = ''opml-parse-preview''"
definition OPML_APPLY_IMPORT_QUEUE_NAME :: string where "OPML_APPLY_IMPORT_QUEUE_NAME = ''opml-apply-import''"

text \<open>The default job options of a queue.\<close>

record job_options =
  opt_attempts :: nat
  backoff_delay :: nat
  remove_on_complete :: bool
  remove_on_fail :: nat

definition fetch_feed_options :: job_options where
  "fetch_feed_options = \<lparr>opt_attempts = 3, backoff_delay = 1000, remove_on_complete = True, remove_on_fail = 100\<rparr>"

definition alert_delivery_options :: job_options where
  "alert_delivery_options = \<lparr>opt_attempts = 4, backoff_delay = 2000, remove_on_complete = True, remove_on_fail = 100\<rparr>"

definition opml_parse_options :: job_options where
  "opml_parse_options = \<lparr>opt_attempts = 3, backoff_delay = 1000, remove_on_complete = True, remove_on_fail = 100\<rparr>"

definition opml_apply_options :: job_options where
  "opml_apply_options = \<lparr>opt_attempts = 4, backoff_delay = 2000, remove_on_complete = True, remove_on_fail = 100\<rparr>"

definition buildQueueJobId :: "string \<Rightarrow> string \<Rightarrow> string" where
  "buildQueueJobId p identifier = p @ ''-'' @ identifier"

datatype fetch_source = FromScheduler | FromOperator

record fetch_job =
  fj_feed :: nat
  fj_queued_at :: msec
  fj_attempt :: nat
  fj_source :: fetch_source

definition fetch_job_id :: "msec \<Rightarrow> fetch_job \<Rightarrow> string" where
  "fetch_job_id now job =
     (if fj_source job = FromOperator then buildQueueJobId ''feed'' (dec (fj_feed job) @ ''-manual-'' @ dec now)
      else buildQueueJobId ''feed'' (dec (fj_feed job)))"

text \<open>The result is the job id and whether the job was deduplicated.\<close>

definition enqueue_fetch :: "('q, fetch_job) bull \<Rightarrow> msec \<Rightarrow> fetch_job \<Rightarrow> 'q \<Rightarrow> 'q \<times> string \<times> bool" where
  "enqueue_fetch B now job q =
     (let jobId = fetch_job_id now job in
      if fj_source job \<noteq> FromOperator \<and> getJob B jobId q then (q, jobId, True)
      else (addJob B jobId job q, jobId, False))"

definition WORKER_LOCK_MARGIN_MS :: nat where "WORKER_LOCK_MARGIN_MS = 30000"

definition resolveLockDuration :: "nat \<Rightarrow> nat \<Rightarrow> nat" where
  "resolveLockDuration rateLimitMaxBackoffMs fetchTimeoutMs =
     rateLimitMaxBackoffMs + fetchTimeoutMs + WORKER_LOCK_MARGIN_MS"

definition enqueue_delivery :: "('q, delivery_job) bull \<Rightarrow> delivery_job \<Rightarrow> 'q \<Rightarrow> 'q" where
  "enqueue_delivery B job q = addJob B (buildQueueJobId ''alert'' (dec (job_alert job))) job q"

record parse_job =
  pj_import :: nat
  pj_xml :: string

record apply_job =
  aj_import :: nat
  aj_requested_at :: msec

definition enqueue_parse :: "('q, parse_job) bull \<Rightarrow> parse_job \<Rightarrow> 'q \<Rightarrow> 'q" where
  "enqueue_parse B job q = addJob B (buildQueueJobId ''opml-parse'' (dec (pj_import job))) job q"

definition enqueue_apply :: "('q, apply_job) bull \<Rightarrow> apply_job \<Rightarrow> 'q \<Rightarrow> 'q" where
  "enqueue_apply B job q = addJob B (buildQueueJobId ''opml-apply'' (dec (aj_import job))) job q"

text \<open>The concurrency of the delivery and OPML workers.\<close>

definition bounded_concurrency :: "int \<Rightarrow> int" where
  "bounded_concurrency configured = max 1 (min configured 3)"

text \<open>What BullMQ documents: an added job is found under its id, and adding one loses none.\<close>

definition bull_ok :: "('q, 'j) bull \<Rightarrow> bool" where
  "bull_ok B \<longleftrightarrow> (\<forall>i j q. getJob B i (addJob B i j q)) \<and> (\<forall>k i j q. getJob B k q \<longrightarrow> getJob B k (addJob B i j q))"

definition scheduled_id :: "nat \<Rightarrow> string" where
  "scheduled_id i = buildQueueJobId ''feed'' (dec i)"

lemma enqueue_by_feed:
  "fj_source job = FromScheduler \<Longrightarrow> enqueue_fetch B now job q =
     (if getJob B (scheduled_id (fj_feed job)) q then (q, scheduled_id (fj_feed job), True)
      else (addJob B (scheduled_id (fj_feed job)) job q, scheduled_id (fj_feed job), False))"
  by (simp add: enqueue_fetch_def fetch_job_id_def scheduled_id_def Let_def)

lemma enqueue_fetch_keeps:
  "bull_ok B \<Longrightarrow> getJob B k q \<Longrightarrow> getJob B k (fst (enqueue_fetch B now job q))"
  by (simp add: enqueue_fetch_def bull_ok_def Let_def)

lemma enqueue_fetch_found:
  "bull_ok B \<Longrightarrow> fj_source job = FromScheduler \<Longrightarrow>
     getJob B (scheduled_id (fj_feed job)) (fst (enqueue_fetch B now job q))"
  by (simp add: enqueue_by_feed bull_ok_def)

section \<open>Dead letters\<close>

definition KNOWN_QUEUE_NAMES :: "string list" where
  "KNOWN_QUEUE_NAMES =
     [FETCH_FEED_QUEUE_NAME, ALERT_DELIVERY_QUEUE_NAME, OPML_PARSE_PREVIEW_QUEUE_NAME, OPML_APPLY_IMPORT_QUEUE_NAME]"

definition isKnownQueueName :: "string \<Rightarrow> bool" where
  "isKnownQueueName v \<longleftrightarrow> v \<in> set KNOWN_QUEUE_NAMES"

definition DEAD_LETTER_MAX_PAYLOAD_BYTES :: nat where "DEAD_LETTER_MAX_PAYLOAD_BYTES = 8192"
definition DEAD_LETTER_MAX_ERROR_CHARS :: nat where "DEAD_LETTER_MAX_ERROR_CHARS = 2000"
definition DEAD_LETTER_RETENTION_DAYS :: nat where "DEAD_LETTER_RETENTION_DAYS = 30"
definition DEAD_LETTER_PURGE_INTERVAL_MS :: nat where "DEAD_LETTER_PURGE_INTERVAL_MS = 3600000"

text \<open>\<open>Buffer.byteLength(s, 'utf8')\<close> of UTF-16 code units; a lone surrogate is written as U+FFFD.\<close>

fun utf8_length :: "nat list \<Rightarrow> nat" where
  "utf8_length [] = 0"
| "utf8_length (c # cs) =
     (if c < 0x80 then 1 + utf8_length cs
      else if c < 0x800 then 2 + utf8_length cs
      else if 0xD800 \<le> c \<and> c < 0xDC00 then
        (case cs of
           d # ds \<Rightarrow> if 0xDC00 \<le> d \<and> d < 0xE000 then 4 + utf8_length ds else 3 + utf8_length cs
         | [] \<Rightarrow> 3)
      else 3 + utf8_length cs)"

datatype 'p payload = NullPayload | Payload 'p | NotSerializable
  | PayloadTooLarge nat nat "nat list"

text \<open>\<open>toJson\<close> is \<open>JSON.toJson\<close>: \<open>None\<close> when it throws.\<close>

definition capDeadLetterPayload :: "('p option \<Rightarrow> nat list option) \<Rightarrow> nat \<Rightarrow> 'p option \<Rightarrow> 'p payload" where
  "capDeadLetterPayload toJson maxBytes payload =
     (case toJson payload of
        None \<Rightarrow> NotSerializable
      | Some serialized \<Rightarrow>
          if utf8_length serialized \<le> maxBytes then (case payload of None \<Rightarrow> NullPayload | Some p \<Rightarrow> Payload p)
          else PayloadTooLarge (utf8_length serialized) maxBytes (take 512 serialized))"

definition truncated_mark :: "nat list" where
  "truncated_mark = 0x2026 # cps '' [truncated]''"

definition capDeadLetterError :: "nat \<Rightarrow> nat list option \<Rightarrow> nat list option" where
  "capDeadLetterError maxChars err =
     (case err of None \<Rightarrow> None
      | Some e \<Rightarrow> Some (if length e \<le> maxChars then e else take maxChars e @ truncated_mark))"

record 'p dead_letter =
  dl_id :: nat
  dl_queue :: string
  dl_job :: string
  dl_payload :: "'p payload"
  dl_error :: "nat list option"
  dl_attempts :: nat
  dl_failed_at :: msec

record 'p dead_store =
  dead_letters :: "'p dead_letter list"
  next_dead :: nat
  lastPurgeAtMs :: msec

text \<open>A number of days that is not positive and finite means the default.\<close>

definition purgeOlderThan :: "msec \<Rightarrow> jsnum \<Rightarrow> 'p dead_store \<Rightarrow> 'p dead_store \<times> nat" where
  "purgeOlderThan now days st =
     (let safeDays = (case days of Fin q \<Rightarrow> if q > 0 then \<lfloor>q\<rfloor> else int DEAD_LETTER_RETENTION_DAYS
                                 | _ \<Rightarrow> int DEAD_LETTER_RETENTION_DAYS);
          old = (\<lambda>r. int (dl_failed_at r) < int now - safeDays * 86400000)
      in (st\<lparr>dead_letters := filter (\<lambda>r. \<not> old r) (dead_letters st)\<rparr>, length (filter old (dead_letters st))))"

text \<open>\<open>purge_ok\<close>: the database executes the delete.\<close>

definition purgeIfDue :: "bool \<Rightarrow> msec \<Rightarrow> 'p dead_store \<Rightarrow> 'p dead_store" where
  "purgeIfDue purge_ok now st =
     (if int now - int (lastPurgeAtMs st) < int DEAD_LETTER_PURGE_INTERVAL_MS then st
      else (let st1 = st\<lparr>lastPurgeAtMs := now\<rparr> in
            if purge_ok then fst (purgeOlderThan now (Fin (of_nat DEAD_LETTER_RETENTION_DAYS)) st1) else st1))"

record 'p dead_entry =
  de_queue :: string
  de_job :: string
  de_payload :: "'p option"
  de_error :: "nat list option"
  de_attempts :: nat

text \<open>\<open>insert_ok\<close>: the database executes the insert; otherwise the call rejects.\<close>

definition record_dead ::
  "('p option \<Rightarrow> nat list option) \<Rightarrow> bool \<Rightarrow> bool \<Rightarrow> msec \<Rightarrow> 'p dead_entry \<Rightarrow> 'p dead_store \<Rightarrow> 'p dead_store \<times> (unit + unit)" where
  "record_dead toJson insert_ok purge_ok now e st =
     (if \<not> insert_ok then (st, Inl ())
      else (let row = \<lparr>dl_id = next_dead st, dl_queue = de_queue e, dl_job = de_job e,
                        dl_payload = capDeadLetterPayload toJson DEAD_LETTER_MAX_PAYLOAD_BYTES (de_payload e),
                        dl_error = capDeadLetterError DEAD_LETTER_MAX_ERROR_CHARS (de_error e),
                        dl_attempts = de_attempts e, dl_failed_at = now\<rparr>
            in (purgeIfDue purge_ok now (st\<lparr>dead_letters := dead_letters st @ [row], next_dead := next_dead st + 1\<rparr>),
                Inr ())))"

definition bounded_limit :: "jsnum \<Rightarrow> nat" where
  "bounded_limit limit =
     (case limit of NaN \<Rightarrow> 1 | Inf neg \<Rightarrow> if neg then 1 else 200
      | Fin q \<Rightarrow> (let t = (if q < 0 then \<lceil>q\<rceil> else \<lfloor>q\<rfloor>); v = (if t = 0 then 1 else t) in nat (max 1 (min v 200))))"

definition listRecent :: "string option \<Rightarrow> jsnum \<Rightarrow> 'p dead_store \<Rightarrow> 'p dead_letter list" where
  "listRecent queue limit st =
     take (bounded_limit limit)
       (rev (sort_key (\<lambda>r. (dl_failed_at r, dl_id r))
          (filter (\<lambda>r. queue = None \<or> queue = Some (dl_queue r)) (dead_letters st))))"

section \<open>Failures of the workers\<close>

datatype finality = FinalTrue | FinalFalse | FinalUnknown

record 'p worker_job =
  wj_id :: "string option"
  wj_data :: "'p option"
  attemptsMade :: nat
  wj_attempts :: "nat option"

definition classifyAttempt :: "'p worker_job option \<Rightarrow> finality \<times> nat \<times> nat" where
  "classifyAttempt job =
     (case job of
        None \<Rightarrow> (FinalUnknown, 0, 0)
      | Some j \<Rightarrow>
          (let maxAttempts = opt_else (wj_attempts j) 1 in
           (if attemptsMade j \<ge> maxAttempts then FinalTrue else FinalFalse, attemptsMade j, maxAttempts)))"

record 'p worker_state =
  ws_store :: "'p dead_store"
  job_failures :: "(string \<times> finality) list"
  dead_lettered :: "string list"
  dead_write_failures :: "string list"

definition handleJobFailure ::
  "('p option \<Rightarrow> nat list option) \<Rightarrow> bool \<Rightarrow> bool \<Rightarrow> msec \<Rightarrow> string \<Rightarrow> 'p worker_job option \<Rightarrow> nat list
   \<Rightarrow> 'p worker_state \<Rightarrow> 'p worker_state" where
  "handleJobFailure toJson insert_ok purge_ok now queue job message ws =
     (case classifyAttempt job of
        (final, made, maxAttempts) \<Rightarrow>
          (let ws1 = ws\<lparr>job_failures := job_failures ws @ [(queue, final)]\<rparr> in
           if final = FinalFalse then ws1
           else (case job of
                   None \<Rightarrow> ws1
                 | Some j \<Rightarrow>
                     if final = FinalUnknown then ws1
                     else (case record_dead toJson insert_ok purge_ok now
                                  \<lparr>de_queue = queue, de_job = opt_else (wj_id j) ''unknown'', de_payload = wj_data j,
                                   de_error = Some message, de_attempts = made\<rparr> (ws_store ws1) of
                             (st, Inr _) \<Rightarrow> ws1\<lparr>ws_store := st, dead_lettered := dead_lettered ws1 @ [queue]\<rparr>
                           | (st, Inl _) \<Rightarrow>
                               ws1\<lparr>ws_store := st, dead_write_failures := dead_write_failures ws1 @ [queue]\<rparr>))))"

text \<open>The input the delivery worker passes: the attempt that runs, and whether another one would follow.\<close>

definition delivery_attempt :: "nat \<Rightarrow> 'p worker_job \<Rightarrow> delivery_input" where
  "delivery_attempt alertId job =
     \<lparr>in_alert = alertId, attemptNumber = attemptsMade job + 1,
      willRetry = (attemptsMade job + 1 < opt_else (wj_attempts job) 1)\<rparr>"


section \<open>Sizes and retention\<close>

definition payload_size_ok :: "('p option \<Rightarrow> nat list option) \<Rightarrow> 'p payload \<Rightarrow> bool" where
  "payload_size_ok toJson p =
     (case p of
        NullPayload \<Rightarrow> True | NotSerializable \<Rightarrow> True
      | Payload v \<Rightarrow> (case toJson (Some v) of None \<Rightarrow> False | Some s \<Rightarrow> utf8_length s \<le> 8192)
      | PayloadTooLarge n m preview \<Rightarrow> m = 8192 \<and> 8192 < n \<and> length preview \<le> 512)"

definition dead_row_ok :: "('p option \<Rightarrow> nat list option) \<Rightarrow> 'p dead_letter \<Rightarrow> bool" where
  "dead_row_ok toJson r \<longleftrightarrow> payload_size_ok toJson (dl_payload r)
     \<and> (case dl_error r of None \<Rightarrow> True | Some e \<Rightarrow> length e \<le> 2013)"

lemma capped_payload_ok: "payload_size_ok toJson (capDeadLetterPayload toJson DEAD_LETTER_MAX_PAYLOAD_BYTES p)"
  by (auto simp: payload_size_ok_def capDeadLetterPayload_def DEAD_LETTER_MAX_PAYLOAD_BYTES_def split: option.splits)

lemma capped_error_ok: "capDeadLetterError DEAD_LETTER_MAX_ERROR_CHARS e = Some m \<Longrightarrow> length m \<le> 2013"
  by (auto simp: capDeadLetterError_def DEAD_LETTER_MAX_ERROR_CHARS_def truncated_mark_def split: option.splits if_splits)

text \<open>
  The state of the store: its rows are within the size bounds, and none is more than the retention period
  and the purge interval older than the last write.
\<close>

definition dead_ok :: "('p option \<Rightarrow> nat list option) \<Rightarrow> msec \<Rightarrow> 'p dead_store \<Rightarrow> bool" where
  "dead_ok toJson now st \<longleftrightarrow> (\<forall>r \<in> set (dead_letters st). dead_row_ok toJson r)
     \<and> (\<forall>r \<in> set (dead_letters st). dl_failed_at r \<le> now
          \<and> int (lastPurgeAtMs st) - 30 * 86400000 \<le> int (dl_failed_at r))
     \<and> lastPurgeAtMs st \<le> now"

lemma purge_ok_keeps:
  assumes "dead_ok toJson t0 st" and "t0 \<le> now"
  shows "dead_ok toJson now (purgeIfDue True now st)"
  using assms
  by (auto simp: dead_ok_def purgeIfDue_def Let_def purgeOlderThan_def DEAD_LETTER_RETENTION_DAYS_def)

lemma record_keeps:
  assumes "dead_ok toJson t0 st" and "t0 \<le> now"
    and "record_dead toJson True True now e st = (st', Inr u)"
  shows "dead_ok toJson now st'" and "\<forall>r \<in> set (dead_letters st'). int now - 30 * 86400000 - 3600000 \<le> int (dl_failed_at r)"
proof -
  let ?row = "\<lparr>dl_id = next_dead st, dl_queue = de_queue e, dl_job = de_job e,
      dl_payload = capDeadLetterPayload toJson DEAD_LETTER_MAX_PAYLOAD_BYTES (de_payload e),
      dl_error = capDeadLetterError DEAD_LETTER_MAX_ERROR_CHARS (de_error e),
      dl_attempts = de_attempts e, dl_failed_at = now\<rparr>"
  let ?st1 = "st\<lparr>dead_letters := dead_letters st @ [?row], next_dead := next_dead st + 1\<rparr>"
  have st': "st' = purgeIfDue True now ?st1" using assms(3) by (simp add: record_dead_def Let_def)
  have row: "dead_row_ok toJson ?row"
    using capped_payload_ok capped_error_ok by (auto simp: dead_row_ok_def split: option.splits)
  have 1: "dead_ok toJson now ?st1" using assms(1,2) row by (auto simp: dead_ok_def)
  then show "dead_ok toJson now st'" unfolding st' by (rule purge_ok_keeps) simp
  then have rows: "\<forall>r \<in> set (dead_letters st'). int (lastPurgeAtMs st') - 30 * 86400000 \<le> int (dl_failed_at r)"
    by (simp add: dead_ok_def)
  have "int now - 3600000 \<le> int (lastPurgeAtMs st')"
    by (auto simp: st' purgeIfDue_def Let_def DEAD_LETTER_PURGE_INTERVAL_MS_def purgeOlderThan_def)
  with rows show "\<forall>r \<in> set (dead_letters st'). int now - 30 * 86400000 - 3600000 \<le> int (dl_failed_at r)" by force
qed

section \<open>Properties\<close>

fun record_run :: "('p option \<Rightarrow> nat list option) \<Rightarrow> (msec \<times> 'p dead_entry) list \<Rightarrow> 'p dead_store \<Rightarrow> 'p dead_store" where
  "record_run toJson [] st = st"
| "record_run toJson ((now, e) # es) st = record_run toJson es (fst (record_dead toJson True True now e st))"

definition empty_dead :: "'p dead_store" where
  "empty_dead = \<lparr>dead_letters = [], next_dead = 1, lastPurgeAtMs = 0\<rparr>"

lemma record_run_ok:
  assumes "dead_ok toJson t0 st" and "sorted (t0 # map fst es)" and "es \<noteq> []"
  shows "(\<forall>r \<in> set (dead_letters (record_run toJson es st)). dead_row_ok toJson r
    \<and> int (fst (last es)) - 30 * 86400000 - 3600000 \<le> int (dl_failed_at r))"
  using assms
proof (induction es arbitrary: t0 st)
  case (Cons ne es)
  obtain now e where ne: "ne = (now, e)" by fastforce
  obtain st' where r: "record_dead toJson True True now e st = (st', Inr ())" by (auto simp: record_dead_def Let_def)
  have le: "t0 \<le> now" using Cons.prems(2) ne by simp
  note k = record_keeps [OF Cons.prems(1) le r]
  show ?case
  proof (cases "es = []")
    case True
    then show ?thesis using k ne r by (auto simp: dead_ok_def)
  next
    case False
    have "sorted (now # map fst es)" using Cons.prems(2) ne by simp
    from Cons.IH [OF k(1) this False] show ?thesis using False ne r by simp
  qed
qed simp

text \<open>
  After any sequence of recorded failures, in the order of their times and with a database that
  executes the purges, every dead letter is at most thirty days and one hour older than the last failure,
  holds a payload of at most 8192 bytes or a marker with a preview of at most 512 code units, and an error
  of at most 2013 code units.
\<close>

theorem dead_letters_bounded:
  assumes "sorted (map fst es)" and "es \<noteq> []" and "r \<in> set (dead_letters (record_run toJson es empty_dead))"
  shows "payload_size_ok toJson (dl_payload r)
    \<and> (case dl_error r of None \<Rightarrow> True | Some e \<Rightarrow> length e \<le> 2013)
    \<and> int (fst (last es)) - int (dl_failed_at r) \<le> 30 * 86400000 + 3600000"
proof -
  have "dead_ok toJson 0 empty_dead" by (simp add: dead_ok_def empty_dead_def)
  moreover have "sorted (0 # map fst es)" using assms(1) by simp
  ultimately have "dead_row_ok toJson r \<and> int (fst (last es)) - 30 * 86400000 - 3600000 \<le> int (dl_failed_at r)"
    using record_run_ok assms(2,3) by blast
  then show ?thesis by (auto simp: dead_row_ok_def)
qed


lemma dead_letters_bounded_witness:
  "\<exists>r \<in> set (dead_letters (record_run (\<lambda>p. Some [the p])
       [(5, \<lparr>de_queue = FETCH_FEED_QUEUE_NAME, de_job = ''feed-1'', de_payload = Some 65, de_error = Some [66], de_attempts = 3\<rparr>)]
       empty_dead)).
     int 5 - int (dl_failed_at r) \<le> 30 * 86400000 + 3600000 \<and> dl_error r = Some [66]"
proof -
  let ?es = "[(5 :: nat, \<lparr>de_queue = FETCH_FEED_QUEUE_NAME, de_job = ''feed-1'', de_payload = Some (65 :: nat), de_error = Some [66 :: nat], de_attempts = 3\<rparr>)]"
  let ?s = "dead_letters (record_run (\<lambda>p. Some [the p]) ?es empty_dead)"
  have s: "?s = [\<lparr>dl_id = 1, dl_queue = FETCH_FEED_QUEUE_NAME, dl_job = ''feed-1'', dl_payload = Payload 65,
      dl_error = Some [66], dl_attempts = 3, dl_failed_at = 5\<rparr>]"
    by (simp add: record_dead_def purgeIfDue_def Let_def empty_dead_def capDeadLetterPayload_def capDeadLetterError_def
        DEAD_LETTER_MAX_PAYLOAD_BYTES_def DEAD_LETTER_MAX_ERROR_CHARS_def DEAD_LETTER_PURGE_INTERVAL_MS_def)
  let ?r = "hd ?s"
  have "?r \<in> set ?s" using s by simp
  then have "int (fst (last ?es)) - int (dl_failed_at ?r) \<le> 30 * 86400000 + 3600000"
    using dead_letters_bounded [of ?es ?r "\<lambda>p. Some [the p]"] by simp
  then show ?thesis using s by simp
qed

text \<open>The \<open>failed\<close> event of BullMQ counts the attempt that failed.\<close>

definition failed_event :: "'p worker_job \<Rightarrow> 'p worker_job" where
  "failed_event job = job\<lparr>attemptsMade := attemptsMade job + 1\<rparr>"

lemma purge_keeps_fresh:
  "r \<in> set (dead_letters st) \<Longrightarrow> dl_failed_at r = now \<Longrightarrow> r \<in> set (dead_letters (purgeIfDue purge_ok now st))"
  by (auto simp: purgeIfDue_def Let_def purgeOlderThan_def DEAD_LETTER_RETENTION_DAYS_def)

text \<open>
  A delivery attempt that is told that no retry follows is, when it fails, the one whose job is kept as a
  dead letter (or counted as a lost one when the database refuses it); a failed attempt that is told that
  a retry follows leaves the dead letters as they are.
\<close>

theorem terminal_failure_is_kept:
  fixes job :: "'p worker_job"
  shows "let after = handleJobFailure toJson insert_ok purge_ok now queue (Some (failed_event job)) message ws in
         if willRetry (delivery_attempt i job) then ws_store after = ws_store ws
         else if \<not> insert_ok then ws_store after = ws_store ws
              \<and> dead_write_failures after = dead_write_failures ws @ [queue]
         else dead_lettered after = dead_lettered ws @ [queue]
              \<and> (\<exists>r \<in> set (dead_letters (ws_store after)). dl_id r = next_dead (ws_store ws) \<and> dl_failed_at r = now
                   \<and> dl_queue r = queue \<and> dl_job r = opt_else (wj_id job) ''unknown''
                   \<and> dl_attempts r = attemptNumber (delivery_attempt i job))"
proof -
  let ?row = "\<lparr>dl_id = next_dead (ws_store ws), dl_queue = queue, dl_job = opt_else (wj_id job) ''unknown'',
      dl_payload = capDeadLetterPayload toJson DEAD_LETTER_MAX_PAYLOAD_BYTES (wj_data job),
      dl_error = capDeadLetterError DEAD_LETTER_MAX_ERROR_CHARS (Some message), dl_attempts = attemptsMade job + 1,
      dl_failed_at = now\<rparr>"
  let ?st = "ws_store ws\<lparr>dead_letters := dead_letters (ws_store ws) @ [?row], next_dead := next_dead (ws_store ws) + 1\<rparr>"
  have "?row \<in> set (dead_letters (purgeIfDue purge_ok now ?st))" by (rule purge_keeps_fresh) simp_all
  then have kept: "\<exists>r \<in> set (dead_letters (purgeIfDue purge_ok now ?st)). dl_id r = next_dead (ws_store ws)
      \<and> dl_failed_at r = now \<and> dl_queue r = queue \<and> dl_job r = opt_else (wj_id job) ''unknown''
      \<and> dl_attempts r = attemptsMade job + 1"
    by (rule rev_bexI) simp
  show ?thesis
    using kept
    by (auto simp: handleJobFailure_def classifyAttempt_def failed_event_def delivery_attempt_def record_dead_def Let_def)
qed

end
