(* ===== verification/Feed_Requests.thy ===== *)
theory Feed_Requests imports Feed_Store Job_Queues Http_Common begin

text \<open>
  The feed endpoints: the use cases of \<open>src/modules/feeds/application\<close> and the handlers of
  \<open>feeds.controller.ts\<close>, over the feeds table and the fetch queue. The bounds of the request bodies
  are checked before a handler runs and are not repeated here.
  Theorems: a request stays within the tenant of its caller; what a registration does on each branch.
\<close>

section \<open>Use cases\<close>

type_synonym 'q feed_world = "feed_db \<times> 'q"

record 'q feed_env =
  fe_urls :: feed_urls
  fe_allow_private :: "bool option"
  fe_max_feeds :: jsnum
  fe_lower :: "nat \<Rightarrow> nat"
  fe_queue :: "('q, fetch_job) bull"
  fe_now :: msec

definition DEFAULT_MAX_FEEDS_PER_TENANT :: int where "DEFAULT_MAX_FEEDS_PER_TENANT = 500"

text \<open>\<open>configured\<close> is NaN when the configuration does not have the value.\<close>

definition max_feeds_of_env :: "(string \<Rightarrow> string option) \<Rightarrow> int" where
  "max_feeds_of_env env =
     (case env ''MAX_FEEDS_PER_TENANT'' of
        None \<Rightarrow> DEFAULT_MAX_FEEDS_PER_TENANT
      | Some raw \<Rightarrow>
          if js_trim raw = '''' then DEFAULT_MAX_FEEDS_PER_TENANT
          else (case as_integer (js_Number raw) of
                  Some v \<Rightarrow> if 0 \<le> v then v else DEFAULT_MAX_FEEDS_PER_TENANT
                | None \<Rightarrow> DEFAULT_MAX_FEEDS_PER_TENANT))"

definition resolveMaxFeedsPerTenant :: "(string \<Rightarrow> string option) \<Rightarrow> jsnum \<Rightarrow> int" where
  "resolveMaxFeedsPerTenant env configured =
     (case as_integer configured of
        Some n \<Rightarrow> if 0 \<le> n then n else max_feeds_of_env env
      | None \<Rightarrow> max_feeds_of_env env)"

definition tenant_query :: "string \<Rightarrow> feed_query" where
  "tenant_query tenant = \<lparr>fq_tenant = tenant, fq_status = None, fq_query = None, fq_page = 1, fq_page_size = 1\<rparr>"

definition assertQuotaAvailable :: "'q feed_env \<Rightarrow> string \<Rightarrow> feed_db \<Rightarrow> api_error + unit" where
  "assertQuotaAvailable E tenant db =
     (let maxFeeds = resolveMaxFeedsPerTenant (fu_env (fe_urls E)) (fe_max_feeds E) in
      if maxFeeds \<le> 0 then Inr ()
      else if int (snd (list_feeds (fe_lower E) (tenant_query tenant) db)) < maxFeeds then Inr ()
      else Inl (Forbidden ''feed_limit_reached''
             (''Feed limit reached for this tenant ('' @ dec (nat maxFeeds)
              @ '' feeds). Remove feeds or raise MAX_FEEDS_PER_TENANT.'')))"

definition RegisterFeed_execute ::
  "'q feed_env \<Rightarrow> string \<Rightarrow> string \<Rightarrow> nat option \<Rightarrow> feed_status option \<Rightarrow> feed_db \<Rightarrow> feed_db \<times> (api_error + feed_view)" where
  "RegisterFeed_execute E tenant u poll s db =
     (case assertSafePublicUrl (fu_parse (fe_urls E))
             (resolveAllowPrivateFeedHosts (fu_env (fe_urls E)) (fe_allow_private E)) (UrlString u) of
        Inl err \<Rightarrow> (db, Inl (BadRequest ''unsafe_feed_url''))
      | Inr _ \<Rightarrow>
          (case assertQuotaAvailable E tenant db of
             Inl err \<Rightarrow> (db, Inl err)
           | Inr _ \<Rightarrow>
               (case create_feed (fe_urls E) (fe_now E)
                       \<lparr>dr_tenant = tenant, dr_url = u, dr_poll = opt_else poll 1800, dr_status = opt_else s FdActive\<rparr> db of
                  (db', Inl _) \<Rightarrow> (db', Inl (Conflict ''feed_already_exists''))
                | (db', Inr f) \<Rightarrow> (db', Inr f))))"

definition GetFeed_execute :: "nat \<Rightarrow> string \<Rightarrow> feed_db \<Rightarrow> api_error + feed_view" where
  "GetFeed_execute i tenant db =
     (case find_feed i (Some tenant) db of None \<Rightarrow> Inl (NotFound ''feed_not_found'') | Some f \<Rightarrow> Inr f)"

definition UpdateFeed_execute :: "msec \<Rightarrow> feed_change \<Rightarrow> feed_db \<Rightarrow> feed_db \<times> (api_error + feed_view)" where
  "UpdateFeed_execute now c db =
     (case update_feed now c db of
        (db', None) \<Rightarrow> (db', Inl (NotFound ''feed_not_found'')) | (db', Some f) \<Rightarrow> (db', Inr f))"

definition DisableFeed_execute :: "msec \<Rightarrow> nat \<Rightarrow> string \<Rightarrow> feed_db \<Rightarrow> feed_db \<times> (api_error + unit)" where
  "DisableFeed_execute now i tenant db =
     (case disable_feed now i tenant db of
        (db', disabled) \<Rightarrow> (db', if disabled then Inr () else Inl (NotFound ''feed_not_found'')))"

datatype check_status = CheckQueued | CheckAlreadyQueued

definition CheckFeedNow_execute ::
  "'q feed_env \<Rightarrow> nat \<Rightarrow> string \<Rightarrow> 'q feed_world \<Rightarrow> 'q feed_world \<times> (api_error + nat \<times> check_status)" where
  "CheckFeedNow_execute E i tenant = (\<lambda>(db, q).
     (case find_feed i (Some tenant) db of
        None \<Rightarrow> ((db, q), Inl (NotFound ''feed_not_found''))
      | Some f \<Rightarrow>
          if isClaimed i (Some tenant) db then ((db, q), Inr (i, CheckAlreadyQueued))
          else (case enqueue_fetch (fe_queue E) (fe_now E)
                       \<lparr>fj_feed = i, fj_queued_at = fe_now E, fj_attempt = 0, fj_source = FromOperator\<rparr> q of
                  (q', jobId, deduplicated) \<Rightarrow>
                    ((db, q'), Inr (i, if deduplicated then CheckAlreadyQueued else CheckQueued)))))"

section \<open>The controller\<close>

datatype feed_request =
    CreateFeed string "nat option" "feed_status option"
  | ListFeeds "feed_status option" "string option" nat nat
  | GetFeed nat
  | UpdateFeed nat "feed_status option" "nat option"
  | CheckNow nat
  | RemoveFeed nat

datatype feed_response =
    OneFeed "feed_view \<times> api_meta"
  | FeedPage "feed_view list \<times> paginated_meta"
  | CheckResult "(nat \<times> check_status) \<times> api_meta"
  | NoContent

definition feeds_handle ::
  "'q feed_env \<Rightarrow> string \<Rightarrow> request \<Rightarrow> feed_request \<Rightarrow> 'q feed_world \<Rightarrow> 'q feed_world \<times> (api_error + feed_response)" where
  "feeds_handle E uuid request rq = (\<lambda>(db, q).
     (case resolveTenantIdFromRequest request of
        Inl err \<Rightarrow> ((db, q), Inl err)
      | Inr t \<Rightarrow>
          (case rq of
             CreateFeed u poll s \<Rightarrow>
               (case RegisterFeed_execute E t u poll s db of
                  (db', Inl err) \<Rightarrow> ((db', q), Inl err)
                | (db', Inr f) \<Rightarrow> ((db', q), Inr (OneFeed (successResponse (fe_now E) uuid request f))))
           | ListFeeds s needle page psize \<Rightarrow>
               (case list_feeds (fe_lower E)
                       \<lparr>fq_tenant = t, fq_status = s, fq_query = needle, fq_page = page, fq_page_size = psize\<rparr> db of
                  (items, n) \<Rightarrow>
                    ((db, q), Inr (FeedPage (paginatedResponse (fe_now E) uuid request items page psize n))))
           | GetFeed i \<Rightarrow>
               (case GetFeed_execute i t db of
                  Inl err \<Rightarrow> ((db, q), Inl err)
                | Inr f \<Rightarrow> ((db, q), Inr (OneFeed (successResponse (fe_now E) uuid request f))))
           | UpdateFeed i s poll \<Rightarrow>
               (case UpdateFeed_execute (fe_now E) \<lparr>ch_tenant = t, ch_id = i, ch_status = s, ch_poll = poll\<rparr> db of
                  (db', Inl err) \<Rightarrow> ((db', q), Inl err)
                | (db', Inr f) \<Rightarrow> ((db', q), Inr (OneFeed (successResponse (fe_now E) uuid request f))))
           | CheckNow i \<Rightarrow>
               (case CheckFeedNow_execute E i t (db, q) of
                  (w, Inl err) \<Rightarrow> (w, Inl err)
                | (w, Inr r) \<Rightarrow> (w, Inr (CheckResult (successResponse (fe_now E) uuid request r))))
           | RemoveFeed i \<Rightarrow>
               (case DisableFeed_execute (fe_now E) i t db of
                  (db', Inl err) \<Rightarrow> ((db', q), Inl err) | (db', Inr _) \<Rightarrow> ((db', q), Inr NoContent)))))"


section \<open>Requests stay within their tenant\<close>

definition of_tenant :: "string \<Rightarrow> feed_db \<Rightarrow> feed list" where
  "of_tenant t db = filter (\<lambda>f. fd_tenant f = t) (feeds db)"

definition response_feeds :: "feed_response \<Rightarrow> feed_view list" where
  "response_feeds r =
     (case r of OneFeed (f, m) \<Rightarrow> [f] | FeedPage (fs, m) \<Rightarrow> fs | CheckResult c \<Rightarrow> [] | NoContent \<Rightarrow> [])"

lemma create_feed_tenant:
  "dr_tenant d \<noteq> t \<Longrightarrow> of_tenant t (fst (create_feed U now d db)) = of_tenant t db"
  "snd (create_feed U now d db) = Inr f \<Longrightarrow> fd_tenant f = dr_tenant d"
  by (auto simp: create_feed_def Let_def of_tenant_def new_feed_def split: if_splits)

lemma register_feed_tenant:
  "tenant \<noteq> t \<Longrightarrow> of_tenant t (fst (RegisterFeed_execute E tenant u p s db)) = of_tenant t db"
  "snd (RegisterFeed_execute E tenant u p s db) = Inr f \<Longrightarrow> fd_tenant f = tenant"
proof -
  let ?d = "\<lparr>dr_tenant = tenant, dr_url = u, dr_poll = opt_else p 1800, dr_status = opt_else s FdActive\<rparr>"
  have c: "tenant \<noteq> t \<Longrightarrow> of_tenant t (fst (create_feed (fe_urls E) (fe_now E) ?d db)) = of_tenant t db"
    "snd (create_feed (fe_urls E) (fe_now E) ?d db) = Inr f \<Longrightarrow> fd_tenant f = tenant"
    using create_feed_tenant [where d = ?d] by simp_all
  show "tenant \<noteq> t \<Longrightarrow> of_tenant t (fst (RegisterFeed_execute E tenant u p s db)) = of_tenant t db"
    using c(1) by (auto simp: RegisterFeed_execute_def split: sum.splits prod.splits)
  show "snd (RegisterFeed_execute E tenant u p s db) = Inr f \<Longrightarrow> fd_tenant f = tenant"
    using c(2) by (auto simp: RegisterFeed_execute_def split: sum.splits prod.splits)
qed


lemma update_feed_tenant:
  "ch_tenant c \<noteq> t \<Longrightarrow> of_tenant t (fst (update_feed now c db)) = of_tenant t db"
  "snd (update_feed now c db) = Some f \<Longrightarrow> fd_tenant f = ch_tenant c"
proof -
  show "ch_tenant c \<noteq> t \<Longrightarrow> of_tenant t (fst (update_feed now c db)) = of_tenant t db"
    by (auto simp: update_feed_def Let_def of_tenant_def changed_row_def intro!: sql_update_filter_other split: option.splits)
  assume "snd (update_feed now c db) = Some f"
  then obtain r rs s poll "next" where r: "sql_returning (\<lambda>f. fd_id f = ch_id c \<and> fd_tenant f = ch_tenant c)
      (changed_row now s poll next) (feeds db) = r # rs" "f = mapFeed r"
    by (auto simp: update_feed_def Let_def split: option.splits list.splits)
  then have "r \<in> changed_row now s poll next ` {f \<in> set (feeds db). fd_id f = ch_id c \<and> fd_tenant f = ch_tenant c}"
    by (metis list.set_intros(1) list.set_map set_filter sql_returning_def)
  then show "fd_tenant f = ch_tenant c" using r(2) by (auto simp: changed_row_def)
qed

lemma disable_feed_tenant: "tenant \<noteq> t \<Longrightarrow> of_tenant t (fst (disable_feed now i tenant db)) = of_tenant t db"
  using update_feed_tenant(1) [of "\<lparr>ch_tenant = tenant, ch_id = i, ch_status = Some FdPaused, ch_poll = None\<rparr>" t now db]
  by (simp add: disable_feed_def case_prod_beta)

lemma find_feed_tenant: "find_feed i (Some tenant) db = Some f \<Longrightarrow> fd_tenant f = tenant \<and> fd_id f = i
    \<and> (\<exists>g \<in> set (feeds db). fd_id g = i \<and> fd_tenant g = tenant)"
  using find_SomeD by (fastforce simp: find_feed_def feed_for_tenant_def)

lemma list_feeds_tenant: "f \<in> set (fst (list_feeds lc q db)) \<Longrightarrow> fd_tenant f = fq_tenant q"
  unfolding list_feeds_def sql_page_def fst_conv set_map
  by (auto dest!: in_set_takeD in_set_dropD simp: feed_clause_def)

lemma feeds_handled:
  assumes "feeds_handle E uuid request rq (db, q) = ((db', q'), r)"
  shows "(case resolveTenantIdFromRequest request of
      Inl e \<Rightarrow> r = Inl e \<and> db' = db \<and> q' = q
    | Inr t \<Rightarrow>
        (\<forall>u. u \<noteq> t \<longrightarrow> of_tenant u db' = of_tenant u db)
        \<and> (case r of Inl e \<Rightarrow> True | Inr resp \<Rightarrow> \<forall>f \<in> set (response_feeds resp). fd_tenant f = t)
        \<and> (q' = q \<or> (\<exists>job \<in> {job. \<exists>f \<in> set (of_tenant t db). fd_id f = fj_feed job}.
                       q' = addJob (fe_queue E) (fetch_job_id (fe_now E) job) job q)))"
proof (cases "resolveTenantIdFromRequest request")
  case (Inl e)
  with assms show ?thesis by (simp add: feeds_handle_def)
next
  case t: (Inr t)
  show ?thesis
  proof (cases rq)
    case (CreateFeed u p s)
    then show ?thesis
      using assms t register_feed_tenant [where tenant = t and E = E and u = u and p = p and s = s and db = db]
      by (auto simp: feeds_handle_def successResponse_def response_feeds_def split: prod.splits sum.splits)
  next
    case (ListFeeds s needle page psize)
    then show ?thesis
      using assms t list_feeds_tenant [of _ "fe_lower E"
          "\<lparr>fq_tenant = t, fq_status = s, fq_query = needle, fq_page = page, fq_page_size = psize\<rparr>" db]
      by (auto simp: feeds_handle_def paginatedResponse_def response_feeds_def split: prod.splits)
  next
    case (GetFeed i)
    then show ?thesis
      using assms t find_feed_tenant [of i t db]
      by (auto simp: feeds_handle_def successResponse_def response_feeds_def GetFeed_execute_def split: option.splits)
  next
    case (UpdateFeed i s p)
    then show ?thesis
      using assms t update_feed_tenant [where c = "\<lparr>ch_tenant = t, ch_id = i, ch_status = s, ch_poll = p\<rparr>" and now = "fe_now E" and db = db]
      by (auto simp: feeds_handle_def successResponse_def response_feeds_def UpdateFeed_execute_def
          split: option.splits prod.splits)
  next
    case (CheckNow i)
    let ?job = "\<lparr>fj_feed = i, fj_queued_at = fe_now E, fj_attempt = 0, fj_source = FromOperator\<rparr>"
    show ?thesis
    proof (cases "find_feed i (Some t) db")
      case None
      then show ?thesis using CheckNow assms t by (auto simp: feeds_handle_def CheckFeedNow_execute_def)
    next
      case (Some f)
      then have own: "\<exists>f \<in> set (of_tenant t db). fd_id f = fj_feed ?job"
        using find_feed_tenant [of i t db f] by (auto simp: of_tenant_def)
      have "(db' = db \<and> q' = q \<or> db' = db \<and> q' = addJob (fe_queue E) (fetch_job_id (fe_now E) ?job) ?job q)
          \<and> (\<exists>c. r = Inr (CheckResult c))"
        using CheckNow assms t Some
        by (auto simp: feeds_handle_def CheckFeedNow_execute_def enqueue_fetch_def Let_def successResponse_def
            split: if_splits)
      then obtain c where c: "db' = db" "r = Inr (CheckResult c)"
          "q' = q \<or> q' = addJob (fe_queue E) (fetch_job_id (fe_now E) ?job) ?job q" by blast
      have "?job \<in> {job. \<exists>f \<in> set (of_tenant t db). fd_id f = fj_feed job}" using own by simp
      with c(3) have "q' = q \<or> (\<exists>job \<in> {job. \<exists>f \<in> set (of_tenant t db). fd_id f = fj_feed job}.
          q' = addJob (fe_queue E) (fetch_job_id (fe_now E) job) job q)" by blast
      then show ?thesis using t c(1,2) by (simp add: response_feeds_def)
    qed
  next
    case (RemoveFeed i)
    then show ?thesis
      using assms t disable_feed_tenant [of t _ "fe_now E" i db]
      by (auto simp: feeds_handle_def response_feeds_def DisableFeed_execute_def split: prod.splits if_splits)
  qed
qed

text \<open>
  C18: A request to a feed endpoint is answered only with a tenant; it shows feeds of that tenant only,
  leaves the feeds of every other tenant exactly as they are, and queues a fetch only for a feed the tenant
  owns. Without a tenant nothing happens.
\<close>

theorem feed_requests_stay_in_tenant:
  assumes "feeds_handle E uuid request rq (db, q) = ((db', q'), r)"
  shows "(case resolveTenantIdFromRequest request of
      Inl e \<Rightarrow> r = Inl e \<and> db' = db \<and> q' = q
    | Inr t \<Rightarrow>
        (\<forall>u. u \<noteq> t \<longrightarrow> of_tenant u db' = of_tenant u db)
        \<and> (case r of Inl e \<Rightarrow> True | Inr resp \<Rightarrow> \<forall>f \<in> set (response_feeds resp). fd_tenant f = t)
        \<and> (q' = q \<or> (\<exists>job \<in> {job. \<exists>f \<in> set (of_tenant t db). fd_id f = fj_feed job}.
                       q' = addJob (fe_queue E) (fetch_job_id (fe_now E) job) job q)))"
  using feeds_handled [OF assms] .


definition plain_bull :: "((string \<times> 'j) list, 'j) bull" where
  "plain_bull = \<lparr>getJob = (\<lambda>i q. \<exists>j \<in> set q. fst j = i), addJob = (\<lambda>i j q. if \<exists>k \<in> set q. fst k = i then q else q @ [(i, j)])\<rparr>"

definition sample_feed_env :: "(string \<times> fetch_job) list feed_env" where
  "sample_feed_env = \<lparr>fe_urls = \<lparr>fu_parse = (\<lambda>s. None), fu_env = (\<lambda>_. None), fu_sha256 = (\<lambda>s. s)\<rparr>, fe_allow_private = None,
     fe_max_feeds = NaN, fe_lower = (\<lambda>c. c), fe_queue = plain_bull, fe_now = 50\<rparr>"

definition acme_request :: request where
  "acme_request = \<lparr>rq_method = ''POST'', rq_path = ''/api/v1/feeds/2/check-now'', rq_url = '''', rq_headers = [],
     rq_ip = None, rq_api_key = None, rq_tenant = Some ''acme''\<rparr>"

lemma acme_tenant: "resolveTenantIdFromRequest acme_request = Inr ''acme''"
  by (simp add: resolveTenantIdFromRequest_def acme_request_def)

lemma feed_requests_stay_in_tenant_witness:
  "\<exists>db' q' r. feeds_handle sample_feed_env ''id'' acme_request (CheckNow 2) (sample_feeds, []) = ((db', q'), r)
     \<and> (q' = [] \<or> (\<exists>job \<in> {job. \<exists>f \<in> set (of_tenant ''acme'' sample_feeds). fd_id f = fj_feed job}.
          q' = addJob plain_bull (fetch_job_id 50 job) job [])) \<and> q' \<noteq> []"
proof -
  obtain db' q' r where h: "feeds_handle sample_feed_env ''id'' acme_request (CheckNow 2) (sample_feeds, []) = ((db', q'), r)"
    by (metis prod.exhaust)
  have "q' \<noteq> []"
    using h by (auto simp: feeds_handle_def acme_tenant CheckFeedNow_execute_def find_feed_def feed_for_tenant_def
        sample_feeds_def sample_feed_def isClaimed_def sample_feed_env_def enqueue_fetch_def Let_def plain_bull_def)
  then show ?thesis
    using feed_requests_stay_in_tenant [OF h] h by (simp add: acme_tenant sample_feed_env_def)
qed

section \<open>Registration\<close>

text \<open>
  C19: A registration is refused for an unsafe URL, for a tenant at its limit, and for a URL the tenant already
  has (as written or in normal form), in this order; otherwise it adds exactly one feed, due at once. The
  feeds of the tenant exceed the limit only when they did before.
\<close>

theorem register_feed_outcome:
  shows "let U = fe_urls E; maxFeeds = resolveMaxFeedsPerTenant (fu_env U) (fe_max_feeds E);
      safe = isSafePublicUrl (fu_parse U) (resolveAllowPrivateFeedHosts (fu_env U) (fe_allow_private E)) (UrlString u);
      full = (0 < maxFeeds \<and> maxFeeds \<le> int (length (of_tenant tenant db)));
      taken = (\<exists>f \<in> set (feeds db). feed_conflict tenant u (buildNormalizedUrlHashOrNull U u) f);
      res = RegisterFeed_execute E tenant u p s db
    in (if \<not> safe then snd res = Inl (BadRequest ''unsafe_feed_url'')
        else if full then \<exists>m. snd res = Inl (Forbidden ''feed_limit_reached'' m)
        else if taken then snd res = Inl (Conflict ''feed_already_exists'')
        else (\<exists>row. feeds (fst res) = feeds db @ [row] \<and> snd res = Inr (mapFeed row) \<and> fd_tenant row = tenant
               \<and> fd_url row = u \<and> fd_next_check row = fe_now E \<and> fd_claimed row = None \<and> fd_poll row = opt_else p 1800))
       \<and> ((\<not> safe \<or> full \<or> taken) = (feeds (fst res) = feeds db))
       \<and> (0 < maxFeeds \<longrightarrow> int (length (of_tenant tenant (fst res))) \<le> max maxFeeds (int (length (of_tenant tenant db))))"
proof -
  have "feed_clause lc (tenant_query tenant) = (\<lambda>f. fd_tenant f = tenant)" for lc
    by (rule ext) (simp add: feed_clause_def tenant_query_def)
  then have all: "snd (list_feeds lc (tenant_query tenant) db) = length (of_tenant tenant db)" for lc
    by (simp add: list_feeds_def of_tenant_def)
  have safe: "isSafePublicUrl pa al i \<longleftrightarrow> (\<exists>v. assertSafePublicUrl pa al i = Inr v)" for pa al i
    by (auto simp: isSafePublicUrl_def split: sum.splits)
  show ?thesis
    by (auto simp: Let_def RegisterFeed_execute_def safe assertQuotaAvailable_def all create_feed_def new_feed_def
        list_ex_iff of_tenant_def split: sum.splits)
qed


definition open_feed_env :: "(string \<times> fetch_job) list feed_env" where
  "open_feed_env = sample_feed_env\<lparr>fe_urls := \<lparr>fu_parse = news_parser, fu_env = (\<lambda>_. None), fu_sha256 = (\<lambda>s. s)\<rparr>,
     fe_max_feeds := Fin 4\<rparr>"

lemma register_feed_outcome_witness:
  "let res = RegisterFeed_execute open_feed_env ''acme'' ''http://N.example/a//b/'' None None sample_feeds in
     int (length (of_tenant ''acme'' (fst res))) \<le> max 4 3 \<and> length (feeds (fst res)) = 4"
proof -
  let ?res = "RegisterFeed_execute open_feed_env ''acme'' ''http://N.example/a//b/'' None None sample_feeds"
  have lim: "resolveMaxFeedsPerTenant (fu_env (fe_urls open_feed_env)) (fe_max_feeds open_feed_env) = 4"
    by (simp add: resolveMaxFeedsPerTenant_def open_feed_env_def as_integer_def is_integer_def int_of_def)
  have three: "length (of_tenant ''acme'' sample_feeds) = 3"
    by (simp add: of_tenant_def sample_feeds_def sample_feed_def)
  have "length (feeds (fst ?res)) = 4" by code_simp
  moreover have "int (length (of_tenant ''acme'' (fst ?res))) \<le> max 4 (int (length (of_tenant ''acme'' sample_feeds)))"
    using register_feed_outcome [of open_feed_env "''http://N.example/a//b/''" "''acme''" sample_feeds None None]
    unfolding Let_def lim by simp
  ultimately show ?thesis by (simp add: three)
qed

end
