(* ===== verification/Api_Pipeline.thy ===== *)
theory Api_Pipeline imports Rate_Limit Observability Feed_Requests Rule_Store begin

text \<open>
  The HTTP edge put together in the order \<open>src/app.module.ts\<close> and \<open>src/main/create-api-app.ts\<close> give: the authentication
  guard, the rate limit guard, the request id, the handler, and the exception filter around them. Routing, the
  body parsers and the validation of a body are not modelled: a request comes with the operation of its route.
  The contract of a handler is the locale \<open>tenant_handler\<close>, interpreted on the handlers of feeds and of rules.
  Theorem: over any sequence of requests the data of a tenant stays as it is unless a request is entitled to
  that tenant, and a request entitled to none is answered with an error.
\<close>

section \<open>The edge\<close>

record edge =
  ed_auth :: auth_env
  ed_limits :: rate_options
  ed_context :: rate_context
  ed_store_fails :: "string option"
  ed_num :: "rat \<Rightarrow> string"
  ed_uuid :: string
  ed_timestamp :: string
  ed_ok_status :: nat

record 's edge_state =
  es_keys :: key_db
  es_counters :: rate_store
  es_app :: 's

definition fresh_response :: http_response where
  "fresh_response = \<lparr>hr_sent = False, hr_headers = [], hr_status = 200, hr_body = None\<rparr>"

definition with_headers :: "(string \<times> string) list \<Rightarrow> http_response \<Rightarrow> http_response" where
  "with_headers hs res = fold (\<lambda>(n, v). set_header n v) hs res"

definition fail_with :: "edge \<Rightarrow> exn \<Rightarrow> http_exchange \<Rightarrow> http_response \<Rightarrow> http_response" where
  "fail_with D e x res = fst (filter_catch (ed_num D) (ed_uuid D) (ed_timestamp D) e x res)"

text \<open>The handler behind the guards; \<open>encode\<close> is the JSON of its answer.\<close>

definition run_handler ::
  "(request \<Rightarrow> 's \<Rightarrow> 's \<times> (api_error + 'a)) \<Rightarrow> ('a \<Rightarrow> jvalue) \<Rightarrow> edge \<Rightarrow> http_exchange \<Rightarrow> http_response \<Rightarrow> 's \<Rightarrow> 's \<times> http_response" where
  "run_handler handle encode D x res s =
     (case request_id_intercept (ed_num D) (ed_uuid D) True x res of
        (x', res') \<Rightarrow>
          (case handle (hx_request x') s of
             (s', Inl err) \<Rightarrow> (s', fail_with D (thrown err) x' res')
           | (s', Inr v) \<Rightarrow> (s', send_json (ed_ok_status D) (encode v) res')))"

definition serve ::
  "(request \<Rightarrow> 's \<Rightarrow> 's \<times> (api_error + 'a)) \<Rightarrow> ('a \<Rightarrow> jvalue) \<Rightarrow> edge \<Rightarrow> http_exchange \<Rightarrow> 's edge_state \<Rightarrow> 's edge_state \<times> http_response" where
  "serve handle encode D x w =
     (case AuthGuard_canActivate (ed_auth D) (hx_request x) (es_keys w) of
        (keys, Inl err) \<Rightarrow> (w\<lparr>es_keys := keys\<rparr>, fail_with D (thrown err) x fresh_response)
      | (keys, Inr r) \<Rightarrow>
          (case RateLimitGuard_canActivate (ed_limits D) (ed_context D) (ed_store_fails D) (au_now (ed_auth D)) r (es_counters w) of
             (st, hs, Inl e) \<Rightarrow>
               (w\<lparr>es_keys := keys, es_counters := st\<rparr>, fail_with D e (x\<lparr>hx_request := r\<rparr>) (with_headers hs fresh_response))
           | (st, hs, Inr _) \<Rightarrow>
               (case run_handler handle encode D (x\<lparr>hx_request := r\<rparr>) (with_headers hs fresh_response) (es_app w) of
                  (s, res) \<Rightarrow> (w\<lparr>es_keys := keys, es_counters := st, es_app := s\<rparr>, res))))"

text \<open>A sequence of requests, each with the edge it meets and the operation of its route.\<close>

fun serve_all ::
  "('op \<Rightarrow> request \<Rightarrow> 's \<Rightarrow> 's \<times> (api_error + 'a)) \<Rightarrow> ('a \<Rightarrow> jvalue) \<Rightarrow> (edge \<times> http_exchange \<times> 'op) list \<Rightarrow> 's edge_state \<Rightarrow>
   's edge_state \<times> http_response list" where
  "serve_all handle encode [] w = (w, [])"
| "serve_all handle encode ((D, x, op) # qs) w =
     (case serve (handle op) encode D x w of
        (w1, res) \<Rightarrow> (case serve_all handle encode qs w1 of (w2, rs) \<Rightarrow> (w2, res # rs)))"

section \<open>Entitlement\<close>

text \<open>The keys are compared without their time of last use, the only thing a request changes in them.\<close>

definition entitled :: "auth_env \<Rightarrow> key_db \<Rightarrow> request \<Rightarrow> string \<Rightarrow> bool" where
  "entitled E keys r t \<longleftrightarrow>
     (\<exists>apiKey row. supportsApiKey E \<and> key_sent r apiKey \<and> row \<in> set (usage_aside keys) \<and> ak_revoked row = None \<and>
        ak_hash row = au_sha E (js_trim apiKey) \<and> ak_tenant row = t) \<or>
     (\<exists>token claims subj. supportsClerk E \<and> getBearerTokenFromRequest r = Some token \<and>
        parseJwtClaims E token = Inr claims \<and> \<not> token_expired (au_now E) claims \<and> session_confirmed E claims subj \<and>
        t = deriveTenantIdFromClerkPrincipal (au_sha E) (opt_else (claim_org claims) subj))"

definition protected_request :: "edge \<Rightarrow> http_exchange \<Rightarrow> bool" where
  "protected_request D x \<longleftrightarrow>
     au_enabled (ed_auth D) \<and> guarded_path (auth_path (hx_request x)) \<and> rq_tenant (hx_request x) = None"

lemma admitted_is_entitled:
  assumes "protected_request D x" and "AuthGuard_canActivate (ed_auth D) (hx_request x) keys = (keys', Inr r)"
  shows "\<exists>t. rq_tenant r = Some t \<and> entitled (ed_auth D) keys (hx_request x) t"
proof -
  have "row\<lparr>ak_last_used := None\<rparr> \<in> set (usage_aside keys)" if "row \<in> set (ak_rows keys)" for row
    using that by (auto simp: usage_aside_def)
  moreover from admitted_request [OF _ _ _ assms(2)] assms(1) have
    "(\<exists>apiKey row. supportsApiKey (ed_auth D) \<and> key_sent (hx_request x) apiKey \<and> row \<in> set (ak_rows keys) \<and> ak_revoked row = None \<and>
        ak_hash row = au_sha (ed_auth D) (js_trim apiKey) \<and> r = (hx_request x)\<lparr>rq_api_key := Some apiKey, rq_tenant := Some (ak_tenant row)\<rparr>) \<or>
     (\<exists>token claims subj. supportsClerk (ed_auth D) \<and> getBearerTokenFromRequest (hx_request x) = Some token \<and>
        parseJwtClaims (ed_auth D) token = Inr claims \<and> \<not> token_expired (au_now (ed_auth D)) claims \<and> session_confirmed (ed_auth D) claims subj \<and>
        r = (hx_request x)\<lparr>rq_tenant := Some (deriveTenantIdFromClerkPrincipal (au_sha (ed_auth D)) (opt_else (claim_org claims) subj))\<rparr>)"
    by (simp add: protected_request_def)
  ultimately show ?thesis
    unfolding entitled_def by (elim disjE exE conjE) (fastforce, force)
qed

lemma guard_keeps_keys:
  assumes "protected_request D x" and "AuthGuard_canActivate (ed_auth D) (hx_request x) keys = (keys', res)"
  shows "usage_aside keys' = usage_aside keys"
  using admitted_request [OF _ _ _ assms(2)] assms(1) by (simp add: protected_request_def)

section \<open>The contract of a handler\<close>

locale tenant_handler =
  fixes handle :: "'op \<Rightarrow> request \<Rightarrow> 's \<Rightarrow> 's \<times> (api_error + 'a)"
    and ok :: "'s \<Rightarrow> bool"
    and view :: "string \<Rightarrow> 's \<Rightarrow> 'v"
  assumes stays_ok: "ok s \<Longrightarrow> handle op r s = (s', res) \<Longrightarrow> ok s'"
    and keeps_others: "ok s \<Longrightarrow> handle op r s = (s', res) \<Longrightarrow> rq_tenant r = Some t \<Longrightarrow> u \<noteq> t \<Longrightarrow> view u s' = view u s"
begin

lemma serve_app:
  "serve (handle op) encode D x w = (w', res) \<Longrightarrow>
     es_app w' = es_app w \<or>
     (\<exists>keys r v s. AuthGuard_canActivate (ed_auth D) (hx_request x) (es_keys w) = (keys, Inr r) \<and>
        handle op r (es_app w) = (s, v) \<and> es_app w' = s)"
proof -
  have req: "hx_request (fst (request_id_intercept num uuid True y res0)) = hx_request y" for num uuid y res0
    using resolved_path(2) [of num uuid y]
    by (auto simp: request_id_intercept_def applyRequestIdHeader_def split: prod.splits)
  assume s: "serve (handle op) encode D x w = (w', res)"
  obtain keys a where a: "AuthGuard_canActivate (ed_auth D) (hx_request x) (es_keys w) = (keys, a)" by fastforce
  show ?thesis
  proof (cases a)
    case (Inl e)
    with s a show ?thesis by (auto simp: serve_def)
  next
    case (Inr r)
    obtain st hs g where g: "RateLimitGuard_canActivate (ed_limits D) (ed_context D) (ed_store_fails D) (au_now (ed_auth D)) r (es_counters w)
        = (st, hs, g)" by (metis surj_pair)
    obtain y res1 where i: "request_id_intercept (ed_num D) (ed_uuid D) True (x\<lparr>hx_request := r\<rparr>) (with_headers hs fresh_response) = (y, res1)"
      by fastforce
    have "hx_request y = r" using req [of "ed_num D" "ed_uuid D" "x\<lparr>hx_request := r\<rparr>" "with_headers hs fresh_response"] i by simp
    moreover obtain s1 v where "handle op r (es_app w) = (s1, v)" by fastforce
    ultimately show ?thesis
      using s a Inr g i by (cases g) (auto simp: serve_def run_handler_def split: sum.splits)
  qed
qed

lemma serve_ok: "ok (es_app w) \<Longrightarrow> serve (handle op) encode D x w = (w', res) \<Longrightarrow> ok (es_app w')"
  using serve_app stays_ok by metis

lemma serve_keys: "protected_request D x \<Longrightarrow> serve (handle op) encode D x w = (w', res) \<Longrightarrow> usage_aside (es_keys w') = usage_aside (es_keys w)"
  using guard_keeps_keys [of D x "es_keys w"] by (auto simp: serve_def split: prod.splits sum.splits)

lemma serve_isolated:
  assumes "ok (es_app w)" and "serve (handle op) encode D x w = (w', res)" and "protected_request D x"
    and "\<not> entitled (ed_auth D) (es_keys w) (hx_request x) u"
  shows "view u (es_app w') = view u (es_app w)"
  using serve_app [OF assms(2)]
proof (elim disjE exE conjE)
  fix keys r v s
  assume a: "AuthGuard_canActivate (ed_auth D) (hx_request x) (es_keys w) = (keys, Inr r)"
    and h: "handle op r (es_app w) = (s, v)" and s: "es_app w' = s"
  from admitted_is_entitled [OF assms(3) a] obtain t where "rq_tenant r = Some t" "entitled (ed_auth D) (es_keys w) (hx_request x) t"
    by blast
  with assms(4) keeps_others [OF assms(1) h] s show ?thesis by metis
qed simp

lemma serve_all_isolated:
  assumes "ok (es_app w)" and "\<forall>(D, x, op) \<in> set qs. protected_request D x \<and> \<not> entitled (ed_auth D) (es_keys w) (hx_request x) u"
  shows "view u (es_app (fst (serve_all handle encode qs w))) = view u (es_app w)"
  using assms
proof (induction qs arbitrary: w)
  case (Cons q qs)
  obtain D x op where q: "q = (D, x, op)" by (metis surj_pair)
  obtain w1 res where s: "serve (handle op) encode D x w = (w1, res)" by fastforce
  have "usage_aside (es_keys w1) = usage_aside (es_keys w)"
    using serve_keys [OF _ s] Cons.prems q by simp
  then have same: "entitled E (es_keys w1) r u = entitled E (es_keys w) r u" for E r
    by (simp add: entitled_def)
  have "view u (es_app (fst (serve_all handle encode qs w1))) = view u (es_app w1)"
    using Cons.prems q serve_ok [OF _ s] by (intro Cons.IH) (auto simp: same)
  also have "\<dots> = view u (es_app w)"
    using serve_isolated [OF _ s] Cons.prems q by simp
  finally show ?case by (cases "serve_all handle encode qs w1") (simp add: q s)
qed simp

end


section \<open>The handlers of feeds and rules\<close>

definition feed_view_of :: "string \<Rightarrow> 'q feed_world \<Rightarrow> feed list" where "feed_view_of u w = of_tenant u (fst w)"

interpretation feeds_api: tenant_handler "\<lambda>op r. feeds_handle E uuid r op" "\<lambda>w. True" feed_view_of for E :: "'q feed_env" and uuid
proof
  fix s s' :: "'q feed_world" and op r res t u
  assume h: "feeds_handle E uuid r op s = (s', res)" and t: "rq_tenant r = Some t" "u \<noteq> t"
  obtain db q where s: "s = (db, q)" by fastforce
  obtain db' q' where s': "s' = (db', q')" by fastforce
  from feeds_handled [OF h [unfolded s s']] t show "feed_view_of u s' = feed_view_of u s"
    by (cases "t = ''''") (auto simp: s s' feed_view_of_def resolveTenantIdFromRequest_def)
qed simp

interpretation rules_api: tenant_handler "\<lambda>op r. rules_handle lc now uuid r op" rules_ok rules_of for lc now uuid
proof
  fix s s' op r res
  assume ok: "rules_ok s" and h: "rules_handle lc now uuid r op s = (s', res)"
  note c = rules_handled [OF ok h]
  then show "rules_ok s'" by blast
  fix t u :: string
  assume "rq_tenant r = Some t" "u \<noteq> t"
  with c show "rules_of u s' = rules_of u s"
    by (cases "t = ''''") (auto simp: resolveTenantIdFromRequest_def others_kept_def)
qed


text \<open>A request entitled to no tenant is answered with an error, and no row is touched.\<close>

lemma refused_request:
  assumes "protected_request D x" and "\<forall>t. \<not> entitled (ed_auth D) (es_keys w) (hx_request x) t"
  shows "\<exists>e. serve handle encode D x w = (w, fail_with D (thrown e) x fresh_response)"
proof -
  obtain keys a where a: "AuthGuard_canActivate (ed_auth D) (hx_request x) (es_keys w) = (keys, a)" by fastforce
  show ?thesis
  proof (cases a)
    case (Inl e)
    with admitted_request [OF _ _ _ a] assms(1) have "keys = es_keys w" by (simp add: protected_request_def)
    with a Inl show ?thesis by (auto simp: serve_def)
  next
    case (Inr r)
    with admitted_is_entitled [OF assms(1)] a assms(2) show ?thesis by blast
  qed
qed


section \<open>Witness\<close>

definition demo_edge :: edge where
  "demo_edge = \<lparr>ed_auth = demo_auth, ed_limits = demo_limits, ed_context = plain_context, ed_store_fails = None,
     ed_num = (\<lambda>n. ''''), ed_uuid = ''u'', ed_timestamp = ''t'', ed_ok_status = 200\<rparr>"

definition demo_exchange :: http_exchange where
  "demo_exchange = \<lparr>hx_request = token_request ''e30.cGF5.x'', hx_id = None, hx_original = None\<rparr>"

definition demo_state :: "'s \<Rightarrow> 's edge_state" where
  "demo_state s = \<lparr>es_keys = \<lparr>ak_rows = [], ak_seq = 1\<rparr>, es_counters = MemoryStore Map.empty, es_app = s\<rparr>"

lemma demo_not_entitled:
  "protected_request demo_edge demo_exchange"
  "\<not> entitled (ed_auth demo_edge) (es_keys (demo_state s)) (hx_request demo_exchange) ''acme''"
proof -
  show "protected_request demo_edge demo_exchange"
    by (simp add: protected_request_def demo_edge_def demo_exchange_def demo_auth_def token_request_def auth_path_def guarded_path_def
        GUARDED_PATH_PREFIX_def PUBLIC_API_PATHS_def)
  show "\<not> entitled (ed_auth demo_edge) (es_keys (demo_state s)) (hx_request demo_exchange) ''acme''"
    by (auto simp: entitled_def demo_state_def usage_aside_def deriveTenantIdFromClerkPrincipal_def)
qed

lemma sample_rules_ok: "rules_ok sample_rules"
  by (simp add: rules_ok_def sample_rules_def new_rule_def)


end
