(* ===== verification/Migrations.thy ===== *)
theory Migrations imports FP_Prelude begin

text \<open>
  The migration runner \<open>src/infrastructure/persistence/migrations.ts\<close>: the wait for the advisory lock, the
  transaction of one migration and the run over the directory. The lock loop is a
  \<^theory_text>\<open>partial_function\<close>, so that not returning is a value, and is shown to return. The effect of a
  migration body on the database is the parameter \<open>exec\<close>, the digest of \<open>node:crypto\<close> the parameter \<open>H\<close>;
  \<open>mg_fails\<close> gives the error of a failing call. Time is the reading of \<open>Date.now()\<close>, which is taken not to run
  backwards: a round lasts as long as its query and its delay.
  Theorems: every run returns after a bounded number of attempts and gives the lock back; over any sequence
  of runs each version is executed at most once, and its row tells which body was executed.
\<close>

section \<open>Data\<close>

datatype mig_error =
    MigrationLockTimeoutError int int
  | MigrationChecksumMismatchError string string string string
  | QueryError string

datatype mig_step =
    ConnectLock | EnsureTable | EnsureChecksum | ReadDirectory | ReadBody string | ConnectClient string
  | BeginTx string | ClaimVersion string | SelectChecksum string | BackfillChecksum string | CommitTx string
  | RollbackTx string | UnlockAdvisory

datatype mig_log = AcquiredAfterWaiting int | WaitingForLock int int | AppliedFile string

record mig_row =
  mr_version :: string
  mr_checksum :: "string option"

text \<open>\<open>md_table\<close> is \<open>None\<close> before the table exists; a row from before checksums reads as \<open>None\<close>.\<close>

record 's mig_db =
  md_table :: "mig_row list option"
  md_schema :: 's

definition mig_rows :: "'s mig_db \<Rightarrow> mig_row list" where
  "mig_rows db = opt_else (md_table db) []"

definition MIGRATIONS_ADVISORY_LOCK_KEY :: int where "MIGRATIONS_ADVISORY_LOCK_KEY = 728314509"
definition DEFAULT_LOCK_TIMEOUT_MS :: int where "DEFAULT_LOCK_TIMEOUT_MS = 60000"
definition DEFAULT_LOCK_RETRY_DELAY_MS :: int where "DEFAULT_LOCK_RETRY_DELAY_MS = 500"

text \<open>
  One run: its options, the directory (name, whether it is a file), the bodies, and how the calls of the
  run go: the answer and the duration of every attempt to lock, and how late each timer fires.
\<close>

record mig_env =
  mg_lock_key :: "int option"
  mg_lock_timeout :: "int option"
  mg_retry_delay :: "int option"
  mg_entries :: "(string \<times> bool) list"
  mg_body :: "string \<Rightarrow> string"
  mg_try :: "nat \<Rightarrow> string + bool"
  mg_try_ms :: "nat \<Rightarrow> nat"
  mg_late_ms :: "nat \<Rightarrow> nat"
  mg_start :: int
  mg_fails :: "mig_step \<Rightarrow> string option"

definition lock_key :: "mig_env \<Rightarrow> int" where
  "lock_key E = opt_else (mg_lock_key E) MIGRATIONS_ADVISORY_LOCK_KEY"
definition lock_timeout :: "mig_env \<Rightarrow> int" where
  "lock_timeout E = opt_else (mg_lock_timeout E) DEFAULT_LOCK_TIMEOUT_MS"
definition retry_delay :: "mig_env \<Rightarrow> int" where
  "retry_delay E = opt_else (mg_retry_delay E) DEFAULT_LOCK_RETRY_DELAY_MS"

section \<open>Checksums and versions\<close>

fun crlf_to_lf :: "string \<Rightarrow> string" where
  "crlf_to_lf (a # b # s) =
     (if a = char_of (13 :: nat) \<and> b = char_of (10 :: nat) then b # crlf_to_lf s else a # crlf_to_lf (b # s))"
| "crlf_to_lf s = s"

definition computeMigrationChecksum :: "(string \<Rightarrow> string) \<Rightarrow> string \<Rightarrow> string" where
  "computeMigrationChecksum H sql = H (crlf_to_lf sql)"

definition version_number :: "nat \<Rightarrow> string \<Rightarrow> nat" where
  "version_number highest file =
     (let ds = takeWhile is_digit file in if ds = [] then highest else max highest (digits_val ds))"

definition padStart4 :: "string \<Rightarrow> string" where
  "padStart4 s = replicate (4 - length s) (CHR ''0'') @ s"

definition nextFreeVersion :: "string list \<Rightarrow> string" where
  "nextFreeVersion files =
     padStart4 (dec (foldl version_number 0 files + 1)) @ ''_<describe_your_change>.sql''"

definition listMigrationFiles :: "(string \<times> bool) list \<Rightarrow> string list" where
  "listMigrationFiles entries = sort (map fst (filter (\<lambda>(n, isFile). isFile \<and> suffix ''.sql'' n) entries))"

section \<open>The advisory lock\<close>

text \<open>A timer asked for less than 1 or more than 2147483647 milliseconds is set to 1.\<close>

definition timer_ms :: "int \<Rightarrow> int" where
  "timer_ms ms = (if ms < 1 \<or> 2147483647 < ms then 1 else ms)"

partial_function (option) lock_loop ::
  "mig_env \<Rightarrow> int \<Rightarrow> nat \<Rightarrow> int \<Rightarrow> bool \<Rightarrow> mig_log list \<Rightarrow> (nat \<times> mig_log list \<times> (mig_error + unit)) option" where
  "lock_loop E deadline k now waiting log =
     (case mg_try E k of
        Inl m \<Rightarrow> Some (Suc k, log, Inl (QueryError m))
      | Inr locked \<Rightarrow>
          (if locked then Some (Suc k, (if waiting then log @ [AcquiredAfterWaiting (lock_key E)] else log), Inr ())
           else
             (let log' = (if waiting then log else log @ [WaitingForLock (lock_key E) (lock_timeout E)]);
                  now' = now + int (mg_try_ms E k)
              in if deadline \<le> now'
                 then Some (Suc k, log', Inl (MigrationLockTimeoutError (lock_key E) (lock_timeout E)))
                 else lock_loop E deadline (Suc k) (now' + timer_ms (retry_delay E) + int (mg_late_ms E k)) True log')))"

definition acquireAdvisoryLock :: "mig_env \<Rightarrow> (nat \<times> mig_log list \<times> (mig_error + unit)) option" where
  "acquireAdvisoryLock E = lock_loop E (mg_start E + lock_timeout E) 0 (mg_start E) False []"

section \<open>One migration\<close>

definition ensureMigrationsTable :: "mig_env \<Rightarrow> 's mig_db \<Rightarrow> 's mig_db \<times> (mig_error + unit)" where
  "ensureMigrationsTable E db =
     (case mg_fails E EnsureTable of
        Some m \<Rightarrow> (db, Inl (QueryError m))
      | None \<Rightarrow> (db\<lparr>md_table := Some (mig_rows db)\<rparr>,
                 case mg_fails E EnsureChecksum of Some m \<Rightarrow> Inl (QueryError m) | None \<Rightarrow> Inr ()))"

text \<open>\<open>INSERT .. ON CONFLICT (version) DO NOTHING\<close>, and the backfill of a missing checksum.\<close>

definition claim_version :: "string \<Rightarrow> string \<Rightarrow> 's mig_db \<Rightarrow> 's mig_db" where
  "claim_version file checksum db =
     db\<lparr>md_table := Some (mig_rows db @ [\<lparr>mr_version = file, mr_checksum = Some checksum\<rparr>])\<rparr>"

definition backfill_row :: "string \<Rightarrow> mig_row \<Rightarrow> mig_row" where
  "backfill_row checksum r = r\<lparr>mr_checksum := Some checksum\<rparr>"

definition backfill_version :: "string \<Rightarrow> string \<Rightarrow> 's mig_db \<Rightarrow> 's mig_db" where
  "backfill_version file checksum db =
     db\<lparr>md_table := Some (sql_update (\<lambda>r. mr_version r = file \<and> mr_checksum r = None) (backfill_row checksum) (mig_rows db))\<rparr>"

definition commit_tx :: "mig_env \<Rightarrow> string \<Rightarrow> 's mig_db \<Rightarrow> bool \<Rightarrow> mig_error + 's mig_db \<times> bool" where
  "commit_tx E file db applied =
     (case mg_fails E (CommitTx file) of Some m \<Rightarrow> Inl (QueryError m) | None \<Rightarrow> Inr (db, applied))"

definition recorded_version ::
  "mig_env \<Rightarrow> string list \<Rightarrow> string \<Rightarrow> string \<Rightarrow> mig_row \<Rightarrow> 's mig_db \<Rightarrow> mig_error + 's mig_db \<times> bool" where
  "recorded_version E files file checksum row db =
     (case mg_fails E (SelectChecksum file) of
        Some m \<Rightarrow> Inl (QueryError m)
      | None \<Rightarrow>
          (case mr_checksum row of
             None \<Rightarrow> (case mg_fails E (BackfillChecksum file) of
                        Some m \<Rightarrow> Inl (QueryError m)
                      | None \<Rightarrow> commit_tx E file (backfill_version file checksum db) False)
           | Some stored \<Rightarrow>
               if stored \<noteq> checksum
               then Inl (MigrationChecksumMismatchError file stored checksum (nextFreeVersion files))
               else commit_tx E file db False))"

definition migration_body ::
  "(string \<Rightarrow> 's \<Rightarrow> string + 's) \<Rightarrow> mig_env \<Rightarrow> string list \<Rightarrow> string \<Rightarrow> string \<Rightarrow> string \<Rightarrow> 's mig_db \<Rightarrow>
   mig_error + 's mig_db \<times> bool" where
  "migration_body exec E files file sql checksum db =
     (case mg_fails E (ClaimVersion file) of
        Some m \<Rightarrow> Inl (QueryError m)
      | None \<Rightarrow>
          (case row_by mr_version file (mig_rows db) of
             Some row \<Rightarrow> recorded_version E files file checksum row db
           | None \<Rightarrow>
               (case exec sql (md_schema db) of
                  Inl m \<Rightarrow> Inl (QueryError m)
                | Inr s \<Rightarrow> commit_tx E file ((claim_version file checksum db)\<lparr>md_schema := s\<rparr>) True)))"

text \<open>The error of a failed \<open>ROLLBACK\<close> replaces the first one; the transaction is undone in both cases.\<close>

definition applyMigration ::
  "(string \<Rightarrow> 's \<Rightarrow> string + 's) \<Rightarrow> mig_env \<Rightarrow> string list \<Rightarrow> string \<Rightarrow> string \<Rightarrow> string \<Rightarrow> 's mig_db \<Rightarrow>
   's mig_db \<times> (mig_error + bool)" where
  "applyMigration exec E files file sql checksum db =
     (case mg_fails E (BeginTx file) of
        Some m \<Rightarrow> (db, Inl (QueryError m))
      | None \<Rightarrow>
          (case migration_body exec E files file sql checksum db of
             Inr (db', applied) \<Rightarrow> (db', Inr applied)
           | Inl e \<Rightarrow> (db, Inl (case mg_fails E (RollbackTx file) of Some m \<Rightarrow> QueryError m | None \<Rightarrow> e))))"

section \<open>The run\<close>

definition migrate_file ::
  "(string \<Rightarrow> string) \<Rightarrow> (string \<Rightarrow> 's \<Rightarrow> string + 's) \<Rightarrow> mig_env \<Rightarrow> string list \<Rightarrow> string \<Rightarrow> 's mig_db \<Rightarrow>
   's mig_db \<times> (mig_error + bool)" where
  "migrate_file H exec E files file db =
     (case coalesce (mg_fails E (ReadBody file)) (mg_fails E (ConnectClient file)) of
        Some m \<Rightarrow> (db, Inl (QueryError m))
      | None \<Rightarrow> applyMigration exec E files file (mg_body E file) (computeMigrationChecksum H (mg_body E file)) db)"

fun migrate_files ::
  "(string \<Rightarrow> string) \<Rightarrow> (string \<Rightarrow> 's \<Rightarrow> string + 's) \<Rightarrow> mig_env \<Rightarrow> string list \<Rightarrow> string list \<Rightarrow> string list \<Rightarrow> 's mig_db \<Rightarrow>
   's mig_db \<times> string list \<times> (mig_error + unit)" where
  "migrate_files H exec E files [] applied db = (db, applied, Inr ())"
| "migrate_files H exec E files (file # rest) applied db =
     (case migrate_file H exec E files file db of
        (db', Inl e) \<Rightarrow> (db', applied, Inl e)
      | (db', Inr new) \<Rightarrow> migrate_files H exec E files rest (if new then applied @ [file] else applied) db')"

definition locked_run ::
  "(string \<Rightarrow> string) \<Rightarrow> (string \<Rightarrow> 's \<Rightarrow> string + 's) \<Rightarrow> mig_env \<Rightarrow> 's mig_db \<Rightarrow>
   's mig_db \<times> string list \<times> (mig_error + unit)" where
  "locked_run H exec E db =
     (case ensureMigrationsTable E db of
        (db1, Inl e) \<Rightarrow> (db1, [], Inl e)
      | (db1, Inr _) \<Rightarrow>
          (case mg_fails E ReadDirectory of
             Some m \<Rightarrow> (db1, [], Inl (QueryError m))
           | None \<Rightarrow> (let files = listMigrationFiles (mg_entries E) in migrate_files H exec E files files [] db1)))"

record 's mig_run =
  mr_db :: "'s mig_db"
  mr_attempts :: nat
  mr_log :: "mig_log list"
  mr_locked :: bool
  mr_result :: "mig_error + string list"

text \<open>\<open>mr_locked\<close>: the session still holds the advisory lock after the run. An error of the unlock replaces the result.\<close>

definition applyMigrations ::
  "(string \<Rightarrow> string) \<Rightarrow> (string \<Rightarrow> 's \<Rightarrow> string + 's) \<Rightarrow> mig_env \<Rightarrow> 's mig_db \<Rightarrow> 's mig_run option" where
  "applyMigrations H exec E db =
     (case mg_fails E ConnectLock of
        Some m \<Rightarrow> Some \<lparr>mr_db = db, mr_attempts = 0, mr_log = [], mr_locked = False, mr_result = Inl (QueryError m)\<rparr>
      | None \<Rightarrow>
          (case acquireAdvisoryLock E of
             None \<Rightarrow> None
           | Some (k, log, Inl e) \<Rightarrow>
               Some \<lparr>mr_db = db, mr_attempts = k, mr_log = log, mr_locked = False, mr_result = Inl e\<rparr>
           | Some (k, log, Inr _) \<Rightarrow>
               (case locked_run H exec E db of
                  (db', applied, r) \<Rightarrow>
                    Some \<lparr>mr_db = db', mr_attempts = k, mr_log = log @ map AppliedFile applied,
                          mr_locked = (mg_fails E UnlockAdvisory \<noteq> None),
                          mr_result = (case mg_fails E UnlockAdvisory of
                                         Some m \<Rightarrow> Inl (QueryError m)
                                       | None \<Rightarrow> (case r of Inl e \<Rightarrow> Inl e | Inr _ \<Rightarrow> Inr applied))\<rparr>)))"


section \<open>Every run returns\<close>

lemma timer_ms_pos: "0 < timer_ms ms"
  by (simp add: timer_ms_def)

lemma lock_loop_returns:
  assumes "deadline - now \<le> int n * timer_ms (retry_delay E)"
  shows "\<exists>k' l r. lock_loop E deadline k now w log = Some (k', l, r) \<and> k' \<le> k + n + 1"
  using assms
proof (induction n arbitrary: k now w log)
  case 0
  then have "deadline \<le> now + int (mg_try_ms E k)" by simp
  then show ?case by (subst lock_loop.simps) (auto simp: Let_def split: sum.splits)
next
  case (Suc n)
  let ?now = "now + int (mg_try_ms E k) + timer_ms (retry_delay E) + int (mg_late_ms E k)"
  have "deadline - ?now \<le> int n * timer_ms (retry_delay E)"
    using Suc.prems by (simp add: algebra_simps)
  from Suc.IH [OF this] have
    "\<exists>k' l r. lock_loop E deadline (Suc k) ?now True log' = Some (k', l, r) \<and> k' \<le> Suc k + n + 1" for log' .
  then show ?case by (subst lock_loop.simps) (auto simp: Let_def split: sum.splits)
qed

lemma lock_loop_outcome:
  assumes "lock_loop E deadline k now w log = Some (k', l, r)"
  shows "k < k' \<and> (\<forall>j. k \<le> j \<and> j < k' - 1 \<longrightarrow> mg_try E j = Inr False) \<and>
     mg_try E (k' - 1) = (case r of Inr _ \<Rightarrow> Inr True | Inl (QueryError m) \<Rightarrow> Inl m | Inl _ \<Rightarrow> Inr False)"
proof -
  have "case y of (k', l, r) \<Rightarrow> k < k' \<and> (\<forall>j. k \<le> j \<and> j < k' - 1 \<longrightarrow> mg_try E j = Inr False) \<and>
     mg_try E (k' - 1) = (case r of Inr _ \<Rightarrow> Inr True | Inl (QueryError m) \<Rightarrow> Inl m | Inl _ \<Rightarrow> Inr False)"
    if "lock_loop E deadline k now w log = Some y" for y
  proof (rule lock_loop.raw_induct [where P = "\<lambda>E deadline k now w log y. case y of (k', l, r) \<Rightarrow>
           k < k' \<and> (\<forall>j. k \<le> j \<and> j < k' - 1 \<longrightarrow> mg_try E j = Inr False) \<and>
           mg_try E (k' - 1) = (case r of Inr _ \<Rightarrow> Inr True | Inl (QueryError m) \<Rightarrow> Inl m | Inl _ \<Rightarrow> Inr False)",
         OF _ that], goal_cases)
    case (1 lock_loop E deadline k now w log y)
    show ?case
    proof (cases "mg_try E k")
      case (Inl m)
      with 1(2) show ?thesis by auto
    next
      case (Inr locked)
      then show ?thesis
        using 1(2) by (cases y) (auto simp: Let_def Suc_le_eq le_less [of k] split: if_splits dest!: 1(1))
    qed
  qed
  from this [OF assms] show ?thesis by simp
qed

lemma acquire_returns:
  "\<exists>k l r. acquireAdvisoryLock E = Some (k, l, r) \<and>
     k \<le> nat ((lock_timeout E + timer_ms (retry_delay E) - 1) div timer_ms (retry_delay E)) + 1"
proof -
  let ?d = "timer_ms (retry_delay E)"
  let ?n = "nat ((lock_timeout E + ?d - 1) div ?d)"
  have "lock_timeout E \<le> ((lock_timeout E + ?d - 1) div ?d) * ?d"
    using timer_ms_pos [of "retry_delay E"]
    by (smt (verit) minus_mod_eq_div_mult [symmetric] pos_mod_bound)
  also have "\<dots> \<le> int ?n * ?d"
    using timer_ms_pos [of "retry_delay E"] by (intro mult_right_mono) auto
  finally show ?thesis
    using lock_loop_returns [of "mg_start E + lock_timeout E" "mg_start E" ?n E 0 False "[]"]
    by (simp add: acquireAdvisoryLock_def)
qed


lemma migration_run_total: "\<exists>r. applyMigrations H exec E db = Some r"
  using acquire_returns [of E] by (auto simp: applyMigrations_def split: option.splits sum.splits prod.splits)

definition lock_timed_out :: "mig_error + 'a \<Rightarrow> bool" where
  "lock_timed_out r \<longleftrightarrow> (\<exists>key ms. r = Inl (MigrationLockTimeoutError key ms))"

lemma body_not_timed_out: "\<not> lock_timed_out (migration_body exec E files f sql c db)"
  by (auto simp: lock_timed_out_def migration_body_def recorded_version_def commit_tx_def split: option.splits sum.splits)

lemma file_not_timed_out: "\<not> lock_timed_out (snd (migrate_file H exec E files f db))"
  using body_not_timed_out [of exec E files f "mg_body E f" "computeMigrationChecksum H (mg_body E f)" db]
  by (auto simp: lock_timed_out_def migrate_file_def applyMigration_def split: option.splits sum.splits)

lemma files_not_timed_out: "\<not> lock_timed_out (snd (snd (migrate_files H exec E files fs ap db)))"
proof (induction fs arbitrary: ap db)
  case (Cons f fs)
  then show ?case
    using file_not_timed_out [of H exec E files f db]
    by (auto simp: lock_timed_out_def split: prod.splits sum.splits)
qed (simp add: lock_timed_out_def)

lemma run_not_timed_out: "\<not> lock_timed_out (snd (snd (locked_run H exec E db)))"
  using files_not_timed_out [of H exec E "listMigrationFiles (mg_entries E)" "listMigrationFiles (mg_entries E)" "[]"
          "db\<lparr>md_table := Some (mig_rows db)\<rparr>"]
  by (auto simp: lock_timed_out_def locked_run_def ensureMigrationsTable_def Let_def split: option.splits sum.splits prod.splits)

text \<open>
  C33: A run of the migrations always returns, after a number of attempts to lock that is bounded by its timeout
  and its retry delay, and unless the unlock itself fails it does not keep the lock. A run that times out was
  refused by every attempt and changed nothing; a run whose first attempt succeeds does not time out.\<close>

theorem migration_run_returns:
  "\<exists>r. applyMigrations H exec E db = Some r \<and>
     mr_attempts r \<le> nat ((lock_timeout E + timer_ms (retry_delay E) - 1) div timer_ms (retry_delay E)) + 1 \<and>
     (mg_fails E UnlockAdvisory = None \<longrightarrow> \<not> mr_locked r) \<and>
     (lock_timed_out (mr_result r) \<longrightarrow>
        mr_db r = db \<and> 0 < mr_attempts r \<and> (\<forall>k < mr_attempts r. mg_try E k = Inr False)) \<and>
     ((\<exists>k < mr_attempts r. mg_try E k = Inr True) \<longrightarrow> mr_db r = fst (locked_run H exec E db))"
proof (cases "mg_fails E ConnectLock")
  case None
  obtain k l r where a: "acquireAdvisoryLock E = Some (k, l, r)"
    and k: "k \<le> nat ((lock_timeout E + timer_ms (retry_delay E) - 1) div timer_ms (retry_delay E)) + 1"
    using acquire_returns by blast
  have out: "0 < k \<and> (\<forall>j. 0 \<le> j \<and> j < k - 1 \<longrightarrow> mg_try E j = Inr False) \<and>
      mg_try E (k - 1) = (case r of Inr _ \<Rightarrow> Inr True | Inl (QueryError m) \<Rightarrow> Inl m | Inl _ \<Rightarrow> Inr False)"
    using lock_loop_outcome [of E _ 0] a by (simp add: acquireAdvisoryLock_def)
  have split: "j < k \<Longrightarrow> j < k - 1 \<or> j = k - 1" for j by linarith
  obtain db' ap q where run: "locked_run H exec E db = (db', ap, q)" by (metis surj_pair)
  show ?thesis
  proof (cases r)
    case (Inl e)
    then show ?thesis
      using None a k out by (auto simp: applyMigrations_def lock_timed_out_def split: mig_error.splits dest!: split)
  next
    case (Inr u)
    then show ?thesis
      using None a k run run_not_timed_out [of H exec E db]
      by (auto simp: applyMigrations_def lock_timed_out_def split: option.splits sum.splits)
  qed
qed (simp add: applyMigrations_def lock_timed_out_def)

text \<open>A directory with two bodies (and a stray file and folder); another process holds the lock for one attempt.\<close>

definition demo_migrations :: mig_env where
  "demo_migrations =
     \<lparr>mg_lock_key = None, mg_lock_timeout = Some 1000, mg_retry_delay = Some 300,
      mg_entries = [(''0002_b.sql'', True), (''README.md'', True), (''0001_a.sql'', True), (''old.sql'', False)],
      mg_body = (\<lambda>f. if f = ''0001_a.sql'' then ''A'' else ''B''),
      mg_try = (\<lambda>k. Inr (k = 1)), mg_try_ms = (\<lambda>k. 5), mg_late_ms = (\<lambda>k. 0), mg_start = 0, mg_fails = Map.empty\<rparr>"

definition demo_migration_exec :: "string \<Rightarrow> string \<Rightarrow> string + string" where
  "demo_migration_exec sql s = Inr (s @ sql)"


lemma demo_migrations_locked:
  "acquireAdvisoryLock demo_migrations = Some (2, [WaitingForLock 728314509 1000, AcquiredAfterWaiting 728314509], Inr ())"
  by (simp add: acquireAdvisoryLock_def lock_loop.simps demo_migrations_def lock_timeout_def retry_delay_def lock_key_def
        timer_ms_def MIGRATIONS_ADVISORY_LOCK_KEY_def numeral_2_eq_2)

theorem migration_run_returns_witness:
  "\<exists>r. applyMigrations id demo_migration_exec demo_migrations \<lparr>md_table = None, md_schema = ''''\<rparr> = Some r \<and>
     mr_attempts r \<le> 5 \<and> \<not> mr_locked r \<and> 
     mr_db r = fst (locked_run id demo_migration_exec demo_migrations \<lparr>md_table = None, md_schema = ''''\<rparr>)"
proof -
  obtain r where r: "applyMigrations id demo_migration_exec demo_migrations \<lparr>md_table = None, md_schema = ''''\<rparr> = Some r"
    and "mr_attempts r \<le> nat ((lock_timeout demo_migrations + timer_ms (retry_delay demo_migrations) - 1)
            div timer_ms (retry_delay demo_migrations)) + 1"
    and "mg_fails demo_migrations UnlockAdvisory = None \<longrightarrow> \<not> mr_locked r"
    and "(\<exists>k < mr_attempts r. mg_try demo_migrations k = Inr True) \<longrightarrow>
           mr_db r = fst (locked_run id demo_migration_exec demo_migrations \<lparr>md_table = None, md_schema = ''''\<rparr>)"
    using migration_run_returns [of id demo_migration_exec demo_migrations "\<lparr>md_table = None, md_schema = ''''\<rparr>"]
    by (elim exE conjE) (rule that)
  moreover have "mr_attempts r = 2"
    using r by (auto simp: applyMigrations_def demo_migrations_locked split: option.splits prod.splits) (simp_all add: demo_migrations_def)
  ultimately show ?thesis
    by (auto simp: demo_migrations_def lock_timeout_def retry_delay_def timer_ms_def)
qed

section \<open>Each version once\<close>

text \<open>
  What a sequence of runs did, told by the versions and bodies it executed, in order: the schema is the
  result of exactly these bodies, the rows of before keep their place, their version and their checksum, and
  one row per body follows.
\<close>

fun run_bodies :: "(string \<Rightarrow> 's \<Rightarrow> string + 's) \<Rightarrow> string list \<Rightarrow> 's \<Rightarrow> 's option" where
  "run_bodies exec [] s = Some s"
| "run_bodies exec (b # bs) s = (case exec b s of Inl _ \<Rightarrow> None | Inr s' \<Rightarrow> run_bodies exec bs s')"

definition row_kept :: "mig_row \<Rightarrow> mig_row \<Rightarrow> bool" where
  "row_kept r r' \<longleftrightarrow> mr_version r' = mr_version r \<and> (mr_checksum r \<noteq> None \<longrightarrow> mr_checksum r' = mr_checksum r)"

definition row_of :: "(string \<Rightarrow> string) \<Rightarrow> string \<times> string \<Rightarrow> mig_row \<Rightarrow> bool" where
  "row_of H vb r \<longleftrightarrow> r = \<lparr>mr_version = fst vb, mr_checksum = Some (computeMigrationChecksum H (snd vb))\<rparr>"

definition executed ::
  "(string \<Rightarrow> string) \<Rightarrow> (string \<Rightarrow> 's \<Rightarrow> string + 's) \<Rightarrow> mig_env set \<Rightarrow> (string \<times> string) list \<Rightarrow> 's mig_db \<Rightarrow> 's mig_db \<Rightarrow> bool" where
  "executed H exec Es bodies db db' \<longleftrightarrow>
     run_bodies exec (map snd bodies) (md_schema db) = Some (md_schema db') \<and>
     (\<exists>old new. mig_rows db' = old @ new \<and> list_all2 row_kept (mig_rows db) old \<and> list_all2 (row_of H) bodies new) \<and>
     (distinct (map mr_version (mig_rows db)) \<longrightarrow> distinct (map mr_version (mig_rows db'))) \<and>
     (\<forall>(v, b) \<in> set bodies. \<exists>E \<in> Es. b = mg_body E v \<and> v \<in> set (listMigrationFiles (mg_entries E)))"

lemma run_bodies_append: "run_bodies exec (bs @ cs) s = (case run_bodies exec bs s of None \<Rightarrow> None | Some s' \<Rightarrow> run_bodies exec cs s')"
  by (induction bs arbitrary: s) (auto split: sum.splits)

lemma row_kept_refl [simp]: "row_kept r r"
  by (simp add: row_kept_def)

lemma rows_kept_refl [simp]: "list_all2 row_kept rs rs"
  by (simp add: list_all2_refl)

lemma kept_trans: "list_all2 row_kept a b \<Longrightarrow> list_all2 row_kept b c \<Longrightarrow> list_all2 row_kept a c"
  by (rule list_all2_trans [of row_kept row_kept row_kept]) (auto simp: row_kept_def)

lemma row_of_kept: "list_all2 (row_of H) bodies rs \<Longrightarrow> list_all2 row_kept rs rs' \<Longrightarrow> list_all2 (row_of H) bodies rs'"
proof (rule list_all2_trans [of "row_of H" row_kept "row_of H"])
  show "row_of H vb r \<Longrightarrow> row_kept r r' \<Longrightarrow> row_of H vb r'" for vb r r'
    by (cases r') (auto simp: row_of_def row_kept_def)
qed auto

lemma executed_refl: "mig_rows db' = mig_rows db \<Longrightarrow> md_schema db' = md_schema db \<Longrightarrow> executed H exec Es [] db db'"
  by (simp add: executed_def)

lemma executed_trans:
  assumes "executed H exec Es b1 db db1" and "executed H exec Es b2 db1 db2"
  shows "executed H exec Es (b1 @ b2) db db2"
proof -
  obtain old new where 1: "mig_rows db1 = old @ new" "list_all2 row_kept (mig_rows db) old" "list_all2 (row_of H) b1 new"
    using assms(1) unfolding executed_def by blast
  obtain old' new' where 2: "mig_rows db2 = old' @ new'" "list_all2 row_kept (old @ new) old'" "list_all2 (row_of H) b2 new'"
    using assms(2) 1(1) unfolding executed_def by metis
  obtain o2 n2 where 3: "old' = o2 @ n2" "list_all2 row_kept old o2" "list_all2 row_kept new n2"
    using 2(2) by (auto simp: list_all2_append1)
  have "mig_rows db2 = o2 @ (n2 @ new')" "list_all2 row_kept (mig_rows db) o2" "list_all2 (row_of H) (b1 @ b2) (n2 @ new')"
    using 1 2 3 kept_trans row_of_kept by (auto intro!: list_all2_appendI)
  with assms show ?thesis
    unfolding executed_def by (auto simp: run_bodies_append)
qed

lemma executed_mono: "executed H exec Es b db db' \<Longrightarrow> Es \<subseteq> Fs \<Longrightarrow> executed H exec Fs b db db'"
  unfolding executed_def by blast


lemma executed_ensure: "executed H exec Es [] db (fst (ensureMigrationsTable E db))"
  by (rule executed_refl) (auto simp: ensureMigrationsTable_def mig_rows_def split: option.splits)

lemma executed_backfill: "executed H exec Es [] db (backfill_version file c db)"
proof -
  let ?rows = "sql_update (\<lambda>r. mr_version r = file \<and> mr_checksum r = None) (backfill_row c) (mig_rows db)"
  have "list_all2 row_kept rs (sql_update (\<lambda>r. mr_version r = file \<and> mr_checksum r = None) (backfill_row c) rs)" for rs
    by (induction rs) (auto simp: row_simps row_kept_def backfill_row_def)
  moreover have "map mr_version (sql_update (\<lambda>r. mr_version r = file \<and> mr_checksum r = None) (backfill_row c) rs)
      = map mr_version rs" for rs
    by (induction rs) (auto simp: row_simps backfill_row_def)
  ultimately show ?thesis
    by (auto simp: executed_def backfill_version_def mig_rows_def [of "db\<lparr>md_table := Some _\<rparr>"])
qed

lemma executed_claim:
  assumes "row_by mr_version file (mig_rows db) = None" and "exec (mg_body E file) (md_schema db) = Inr s"
    and "E \<in> Es" and "file \<in> set (listMigrationFiles (mg_entries E))"
  shows "executed H exec Es [(file, mg_body E file)] db
           ((claim_version file (computeMigrationChecksum H (mg_body E file)) db)\<lparr>md_schema := s\<rparr>)"
proof -
  have "mig_rows ((claim_version file c db)\<lparr>md_schema := s\<rparr>) = mig_rows db @ [\<lparr>mr_version = file, mr_checksum = Some c\<rparr>]" for c
    by (simp add: claim_version_def mig_rows_def [of "db\<lparr>md_table := Some _, md_schema := s\<rparr>"])
  moreover have "list_all2 (row_of H) [(file, b)] [\<lparr>mr_version = file, mr_checksum = Some (computeMigrationChecksum H b)\<rparr>]" for b
    by (simp add: row_of_def)
  moreover have "file \<notin> mr_version ` set (mig_rows db)"
    using assms(1) by (simp add: row_by_None_iff)
  ultimately show ?thesis
    using assms(2-4) rows_kept_refl [of "mig_rows db"] unfolding executed_def
    by (intro conjI exI [of _ "mig_rows db"] exI [of _ "[\<lparr>mr_version = file, mr_checksum = Some (computeMigrationChecksum H (mg_body E file))\<rparr>]"])
      auto
qed

lemma executed_body:
  assumes "migration_body exec E files file (mg_body E file) (computeMigrationChecksum H (mg_body E file)) db = Inr (db', new)"
    and "E \<in> Es" and "file \<in> set (listMigrationFiles (mg_entries E))"
  shows "executed H exec Es (if new then [(file, mg_body E file)] else []) db db'"
  using assms executed_claim [OF _ _ assms(2,3)] executed_backfill executed_refl [of db db]
  by (auto simp: migration_body_def recorded_version_def commit_tx_def split: option.splits sum.splits if_splits)

lemma executed_file:
  assumes "E \<in> Es" and "file \<in> set (listMigrationFiles (mg_entries E))"
  shows "\<exists>bodies. executed H exec Es bodies db (fst (migrate_file H exec E files file db)) \<and>
           map fst bodies = (if snd (migrate_file H exec E files file db) = Inr True then [file] else [])"
proof (cases "\<exists>db' new. migrate_file H exec E files file db = (db', Inr new)")
  case True
  then obtain db' new where m: "migrate_file H exec E files file db = (db', Inr new)" by blast
  then have "migration_body exec E files file (mg_body E file) (computeMigrationChecksum H (mg_body E file)) db = Inr (db', new)"
    by (auto simp: migrate_file_def applyMigration_def split: option.splits sum.splits)
  from executed_body [OF this assms] m show ?thesis
    by (intro exI [of _ "if new then [(file, mg_body E file)] else []"]) simp
next
  case False
  then have "fst (migrate_file H exec E files file db) = db \<and> snd (migrate_file H exec E files file db) \<noteq> Inr True"
    by (auto simp: migrate_file_def applyMigration_def split: option.splits sum.splits)
  then show ?thesis
    by (intro exI [of _ "[]"]) (simp add: executed_refl)
qed

lemma executed_files:
  assumes "E \<in> Es" and "set fs \<subseteq> set (listMigrationFiles (mg_entries E))"
  shows "\<exists>bodies. executed H exec Es bodies db (fst (migrate_files H exec E files fs ap db)) \<and>
           ap @ map fst bodies = fst (snd (migrate_files H exec E files fs ap db))"
  using assms(2)
proof (induction fs arbitrary: ap db)
  case Nil
  then show ?case by (intro exI [of _ "[]"]) (simp add: executed_refl)
next
  case (Cons f fs)
  obtain db1 r where m: "migrate_file H exec E files f db = (db1, r)" by (metis surj_pair)
  from executed_file [OF assms(1), of f H exec db files] Cons.prems m
  obtain b1 where b1: "executed H exec Es b1 db db1" "map fst b1 = (if r = Inr True then [f] else [])" by auto
  show ?case
  proof (cases r)
    case (Inl e)
    with b1 m show ?thesis by (intro exI [of _ b1]) auto
  next
    case (Inr new)
    let ?ap = "if new then ap @ [f] else ap"
    from Cons.prems have "set fs \<subseteq> set (listMigrationFiles (mg_entries E))" by simp
    from Cons.IH [OF this, of db1 ?ap] obtain b2 where b2: "executed H exec Es b2 db1 (fst (migrate_files H exec E files fs ?ap db1))"
      "?ap @ map fst b2 = fst (snd (migrate_files H exec E files fs ?ap db1))"
      by blast
    have step: "migrate_files H exec E files (f # fs) ap db = migrate_files H exec E files fs ?ap db1"
      by (simp add: m Inr)
    have "ap @ map fst (b1 @ b2) = ?ap @ map fst b2"
      using b1(2) Inr by simp
    with executed_trans [OF b1(1) b2(1)] b2(2) show ?thesis
      unfolding step by metis
  qed
qed

lemma executed_run:
  assumes "E \<in> Es"
  shows "\<exists>bodies. executed H exec Es bodies db (fst (locked_run H exec E db)) \<and>
           map fst bodies = fst (snd (locked_run H exec E db))"
proof -
  obtain db1 r where e: "ensureMigrationsTable E db = (db1, r)" by (metis surj_pair)
  have 1: "executed H exec Es [] db db1" using executed_ensure [of H exec Es db E] e by simp
  let ?fs = "listMigrationFiles (mg_entries E)"
  obtain b where b: "executed H exec Es b db1 (fst (migrate_files H exec E ?fs ?fs [] db1))"
    "map fst b = fst (snd (migrate_files H exec E ?fs ?fs [] db1))"
    using executed_files [OF assms order_refl, of H exec db1 ?fs "[]"] by auto
  have "(\<exists>q. locked_run H exec E db = (db1, [], q)) \<or>
        locked_run H exec E db = migrate_files H exec E ?fs ?fs [] db1"
    by (simp add: locked_run_def e Let_def split: sum.splits option.splits)
  then show ?thesis
  proof
    assume "\<exists>q. locked_run H exec E db = (db1, [], q)"
    then obtain q where "locked_run H exec E db = (db1, [], q)" ..
    with 1 show ?thesis by (intro exI [of _ "[]"]) simp
  next
    assume "locked_run H exec E db = migrate_files H exec E ?fs ?fs [] db1"
    with executed_trans [OF 1 b(1)] b(2) show ?thesis by auto
  qed
qed


fun run_all ::
  "(string \<Rightarrow> string) \<Rightarrow> (string \<Rightarrow> 's \<Rightarrow> string + 's) \<Rightarrow> mig_env list \<Rightarrow> 's mig_db \<Rightarrow> 's mig_db \<times> string list" where
  "run_all H exec [] db = (db, [])"
| "run_all H exec (E # Es) db =
     (case applyMigrations H exec E db of
        None \<Rightarrow> (db, [])
      | Some r \<Rightarrow> (case run_all H exec Es (mr_db r) of
                    (db', reported) \<Rightarrow> (db', (case mr_result r of Inl _ \<Rightarrow> [] | Inr fs \<Rightarrow> fs) @ reported)))"

lemma executed_apply:
  assumes "applyMigrations H exec E db = Some r"
  shows "\<exists>bodies. executed H exec {E} bodies db (mr_db r) \<and> (mr_result r = Inr fs \<longrightarrow> map fst bodies = fs)"
proof -
  have none: ?thesis if "mr_db r = db" "mr_result r = Inl e" for e
    using that by (intro exI [of _ "[]"]) (simp add: executed_refl)
  obtain db' ap q where run: "locked_run H exec E db = (db', ap, q)" by (metis surj_pair)
  obtain b where "executed H exec {E} b db db'" "map fst b = ap"
    using executed_run [of E "{E}" H exec db] run by auto
  moreover obtain k l a where "acquireAdvisoryLock E = Some (k, l, a)" using acquire_returns by blast
  ultimately show ?thesis
    using assms none run
    by (auto simp: applyMigrations_def split: option.splits sum.splits)
qed

text \<open>
  C34: Over any sequence of runs, whatever calls fail and however the directory changes between them, the database
  is the result of bodies executed once each: their versions are distinct and were not recorded before, each
  comes from the directory of one of the runs, the rows of before stay in place with their checksum, and one
  row per executed body follows, in order, with the checksum of that body.\<close>

theorem migrations_execute_once:
  assumes "distinct (map mr_version (mig_rows db))" and "run_all H exec Es db = (db', reported)"
  shows "\<exists>bodies old. run_bodies exec (map snd bodies) (md_schema db) = Some (md_schema db') \<and>
     mig_rows db' = old @ map (\<lambda>(v, b). \<lparr>mr_version = v, mr_checksum = Some (computeMigrationChecksum H b)\<rparr>) bodies \<and>
     list_all2 row_kept (mig_rows db) old \<and> distinct (map mr_version old @ map fst bodies) \<and>
     (\<forall>(v, b) \<in> set bodies. \<exists>E \<in> set Es. b = mg_body E v \<and> v \<in> set (listMigrationFiles (mg_entries E))) \<and>
     subseq reported (map fst bodies)"
proof -
  have "\<exists>bodies. executed H exec (set Es) bodies db db' \<and> subseq reported (map fst bodies)"
    using assms(2)
  proof (induction Es arbitrary: db reported)
    case Nil
    then show ?case by (intro exI [of _ "[]"]) (auto simp: executed_refl)
  next
    case (Cons E Es)
    obtain r where r: "applyMigrations H exec E db = Some r" using migration_run_total by blast
    obtain rep where rep: "run_all H exec Es (mr_db r) = (db', rep)"
      "reported = (case mr_result r of Inl _ \<Rightarrow> [] | Inr fs \<Rightarrow> fs) @ rep"
      using Cons.prems r by (auto split: prod.splits)
    obtain b2 where b2: "executed H exec (set Es) b2 (mr_db r) db'" "subseq rep (map fst b2)"
      using Cons.IH [OF rep(1)] by blast
    obtain b1 where b1: "executed H exec {E} b1 db (mr_db r)" "\<forall>fs. mr_result r = Inr fs \<longrightarrow> map fst b1 = fs"
      using executed_apply [OF r, of "projr (mr_result r)"] by (metis sum.sel(2))
    have "executed H exec (set (E # Es)) (b1 @ b2) db db'"
      using executed_trans [OF executed_mono [OF b1(1)] executed_mono [OF b2(1)]] by auto
    moreover have "subseq (case mr_result r of Inl _ \<Rightarrow> [] | Inr fs \<Rightarrow> fs) (map fst b1)"
      using b1(2) by (auto split: sum.splits)
    ultimately show ?case
      using rep(2) b2(2) by (intro exI [of _ "b1 @ b2"]) (auto intro: list_emb_append_mono)
  qed
  then obtain bodies old new where b: "executed H exec (set Es) bodies db db'" "subseq reported (map fst bodies)"
    and on: "mig_rows db' = old @ new" "list_all2 row_kept (mig_rows db) old" "list_all2 (row_of H) bodies new"
    unfolding executed_def by blast
  have new: "new = map (\<lambda>(v, b). \<lparr>mr_version = v, mr_checksum = Some (computeMigrationChecksum H b)\<rparr>) bodies"
    using on(3) by (induction rule: list_all2_induct) (auto simp: row_of_def)
  have vs: "map mr_version new = map fst bodies"
    unfolding new by (induction bodies) auto
  have "distinct (map mr_version (mig_rows db'))"
    using b(1) assms(1) unfolding executed_def by blast
  then have "distinct (map mr_version old @ map fst bodies)"
    by (simp add: on(1) vs)
  moreover have "run_bodies exec (map snd bodies) (md_schema db) = Some (md_schema db')"
    "\<forall>(v, b) \<in> set bodies. \<exists>E \<in> set Es. b = mg_body E v \<and> v \<in> set (listMigrationFiles (mg_entries E))"
    using b(1) unfolding executed_def by blast+
  ultimately show ?thesis
    using b(2) on(1,2) unfolding new by blast
qed


definition demo_migration_db :: "string mig_db" where
  "demo_migration_db = \<lparr>md_table = Some [\<lparr>mr_version = ''0001_a.sql'', mr_checksum = None\<rparr>], md_schema = ''A''\<rparr>"

theorem migrations_execute_once_witness:
  "\<exists>bodies old. run_bodies demo_migration_exec (map snd bodies) (md_schema demo_migration_db) =
       Some (md_schema (fst (run_all id demo_migration_exec [demo_migrations, demo_migrations] demo_migration_db))) \<and>
     list_all2 row_kept (mig_rows demo_migration_db) old \<and> distinct (map mr_version old @ map fst bodies) \<and>
     subseq (snd (run_all id demo_migration_exec [demo_migrations, demo_migrations] demo_migration_db)) (map fst bodies)"
proof -
  have "distinct (map mr_version (mig_rows demo_migration_db))"
    by (simp add: demo_migration_db_def mig_rows_def)
  from migrations_execute_once [OF this prod.collapse [symmetric]] show ?thesis by blast
qed

end
