(* ===== verification/Process_Guards.thy ===== *)
theory Process_Guards imports Migrations Auth begin

text \<open>
  The life of a process: the guards of \<open>src/main/bootstrap-guards.ts\<close> (a deadline for the shutdown, fatal
  errors), and the two command-line entry points \<open>src/scripts/migrate.ts\<close> and \<open>src/scripts/create-api-key.ts\<close>. Time is in
  milliseconds; timers are those of the migration runner.
  Lemmas: the first signal or fatal error sets the deadline for good and the process is gone when it has
  passed; a deadline beyond the range of timers fires at once; the arguments of the command line.
\<close>

section \<open>Shutdown\<close>

definition DEFAULT_SHUTDOWN_TIMEOUT_MS :: rat where "DEFAULT_SHUTDOWN_TIMEOUT_MS = 30000"

definition positive_finite :: "jsnum \<Rightarrow> rat option" where
  "positive_finite n = (case n of Fin q \<Rightarrow> if 0 < q then Some q else None | _ \<Rightarrow> None)"

text \<open>\<open>Number(undefined)\<close> is NaN.\<close>

definition resolveShutdownTimeoutMs :: "jsnum option \<Rightarrow> (string \<Rightarrow> string option) \<Rightarrow> rat" where
  "resolveShutdownTimeoutMs configured env =
     opt_else (coalesce (case configured of Some n \<Rightarrow> positive_finite n | None \<Rightarrow> None)
                        (case env ''SHUTDOWN_TIMEOUT_MS'' of Some s \<Rightarrow> positive_finite (js_Number s) | None \<Rightarrow> None))
       DEFAULT_SHUTDOWN_TIMEOUT_MS"

record process =
  pr_shutting :: bool
  pr_deadline :: "int option"
  pr_exit_code :: nat
  pr_closing :: nat
  pr_exited :: bool

datatype process_event = OsSignal | FatalError | CloseRejected | TimerDue

definition armShutdownDeadline :: "rat \<Rightarrow> int \<Rightarrow> process \<Rightarrow> process" where
  "armShutdownDeadline timeout now p =
     (if pr_shutting p then p else p\<lparr>pr_shutting := True, pr_deadline := Some (now + timer_ms \<lfloor>timeout\<rfloor>)\<rparr>)"

definition closeAfterFatal :: "rat \<Rightarrow> int \<Rightarrow> process \<Rightarrow> process" where
  "closeAfterFatal timeout now p =
     (armShutdownDeadline timeout now (p\<lparr>pr_exit_code := 1\<rparr>))\<lparr>pr_closing := Suc (pr_closing p)\<rparr>"

definition process_exit :: "process \<Rightarrow> process" where
  "process_exit p = p\<lparr>pr_exit_code := 1, pr_exited := True\<rparr>"

definition guard_event :: "rat \<Rightarrow> int \<times> process_event \<Rightarrow> process \<Rightarrow> process" where
  "guard_event timeout = (\<lambda>(now, e) p.
     if pr_exited p then p
     else (case e of
             OsSignal \<Rightarrow> armShutdownDeadline timeout now p
           | FatalError \<Rightarrow> closeAfterFatal timeout now p
           | CloseRejected \<Rightarrow> if 0 < pr_closing p then process_exit p else p
           | TimerDue \<Rightarrow> (case pr_deadline p of Some d \<Rightarrow> if d \<le> now then process_exit p else p | None \<Rightarrow> p)))"

definition fresh_process :: process where
  "fresh_process = \<lparr>pr_shutting = False, pr_deadline = None, pr_exit_code = 0, pr_closing = 0, pr_exited = False\<rparr>"

definition handleBootstrapFailure :: "process \<Rightarrow> process" where
  "handleBootstrapFailure p = p\<lparr>pr_exit_code := 1\<rparr>"

lemmas guard_simps = guard_event_def armShutdownDeadline_def closeAfterFatal_def process_exit_def

lemma deadline_stays:
  assumes "pr_shutting p" and "pr_deadline p = Some d"
  shows "pr_shutting (guard_event timeout e p) \<and> pr_deadline (guard_event timeout e p) = Some d"
  using assms by (cases e) (auto simp: guard_simps split: process_event.splits)

lemma deadline_stays_run:
  assumes "pr_shutting p" and "pr_deadline p = Some d"
  shows "pr_deadline (fold (guard_event timeout) es p) = Some d"
  using assms by (induction es arbitrary: p) (auto simp: deadline_stays)

lemma exited_stays: "pr_exited p \<Longrightarrow> fold (guard_event timeout) es p = p"
  by (induction es) (auto simp: guard_event_def split: prod.splits)

text \<open>Once a signal or a fatal error came, a timer event at or after its deadline finds the process gone.\<close>

lemma shutdown_deadline_holds:
  assumes "e = OsSignal \<or> e = FatalError" and "now + timer_ms \<lfloor>timeout\<rfloor> \<le> later"
    and "\<not> pr_shutting p" and "\<not> pr_exited p"
  shows "pr_exited (guard_event timeout (later, TimerDue) (fold (guard_event timeout) es (guard_event timeout (now, e) p)))"
proof -
  let ?p = "guard_event timeout (now, e) p"
  have "pr_shutting ?p" "pr_deadline ?p = Some (now + timer_ms \<lfloor>timeout\<rfloor>)"
    using assms by (auto simp: guard_simps)
  from deadline_stays_run [OF this, of timeout es] assms(2) show ?thesis
    by (auto simp: guard_simps)
qed

text \<open>
  The resolved timeout has no upper bound, and a timer beyond 2147483647 ms fires after one: with a longer
  \<open>SHUTDOWN_TIMEOUT_MS\<close> the process is killed at once instead of draining.
\<close>

lemma huge_timeout_kills_at_once:
  assumes "configured = Some (Fin 2147483648)"
  shows "pr_exited (fold (guard_event (resolveShutdownTimeoutMs configured env)) [(0, OsSignal), (1, TimerDue)] fresh_process)"
  using assms
  by (simp add: resolveShutdownTimeoutMs_def positive_finite_def guard_simps fresh_process_def timer_ms_def)

section \<open>The command line\<close>

definition cli_usage :: string where "cli_usage = ''Usage: npm run apikey:create -- --tenant <tenant-id> [--label <label>]''"

fun cli_args :: "string list \<Rightarrow> string option \<Rightarrow> string option \<Rightarrow> string + string option \<times> string option" where
  "cli_args [] tenantId label = Inr (tenantId, label)"
| "cli_args (arg # rest) tenantId label =
     (if arg = ''--tenant'' \<or> arg = ''-t'' then
        (case rest of [] \<Rightarrow> Inr (None, label) | v # rest' \<Rightarrow> cli_args rest' (Some v) label)
      else if arg = ''--label'' \<or> arg = ''-l'' then
        (case rest of [] \<Rightarrow> Inr (tenantId, None) | v # rest' \<Rightarrow> cli_args rest' tenantId (Some v))
      else if prefix ''--tenant='' arg then cli_args rest (Some (drop 9 arg)) label
      else if prefix ''--label='' arg then cli_args rest tenantId (Some (drop 8 arg))
      else Inl (''Unrecognized argument \"'' @ arg @ ''\". '' @ cli_usage))"

definition parseCliArgs :: "string list \<Rightarrow> string + string \<times> string option" where
  "parseCliArgs argv =
     (case cli_args argv None None of
        Inl e \<Rightarrow> Inl e
      | Inr (tenantId, label) \<Rightarrow>
          (let t = opt_else tenantId '''' in
           if js_trim t = '''' \<or> prefix ''-'' t then Inl (''Missing required --tenant argument. '' @ cli_usage)
           else Inr (js_trim t, case label of Some l \<Rightarrow> if js_trim l \<noteq> '''' then Some (js_trim l) else None | None \<Rightarrow> None)))"

lemma parsed_tenant: "parseCliArgs argv = Inr (t, label) \<Longrightarrow> t \<noteq> '''' \<and> js_trim t = t"
  by (auto simp: parseCliArgs_def Let_def js_trim_idem split: sum.splits if_splits)

text \<open>
  The run of \<open>migrate.ts\<close>: the migrations, then the bootstrap key when one is configured, over the table of keys; the
  number is the exit code of the process.
\<close>

definition migrate_run ::
  "(string \<Rightarrow> string) \<Rightarrow> (string \<Rightarrow> 's \<Rightarrow> string + 's) \<Rightarrow> mig_env \<Rightarrow> nat \<Rightarrow> (string \<times> string) option \<Rightarrow>
   's mig_db \<Rightarrow> key_db \<Rightarrow> ('s mig_run \<times> key_db \<times> nat) option" where
  "migrate_run H exec E now bootstrap db keys =
     (case applyMigrations H exec E db of
        None \<Rightarrow> None
      | Some r \<Rightarrow>
          Some (r,
            case mr_result r of
              Inl e \<Rightarrow> (keys, 1)
            | Inr applied \<Rightarrow>
                (case bootstrap of
                   None \<Rightarrow> (keys, 0)
                 | Some (key, tenant) \<Rightarrow> (fst (seedBootstrapApiKey H now key tenant (Some ''bootstrap'') keys), 0))))"

text \<open>Running it again seeds no second key.\<close>

lemma seed_idempotent:
  "fst (seedBootstrapApiKey H now' key t' label' (fst (seedBootstrapApiKey H now key t label keys)))
     = fst (seedBootstrapApiKey H now key t label keys)"
  by (auto simp: seedBootstrapApiKey_def Let_def key_row_of_def filter_empty_conv)

lemma migrate_run_returns: "\<exists>r. migrate_run H exec E now bootstrap db keys = Some r"
  using migration_run_total [of H exec E db] by (auto simp: migrate_run_def)

end
