(* ===== verification/Env_Config.thy ===== *)
theory Env_Config imports Rate_Limit Process_Guards begin

text \<open>
  The environment of a process: the schema \<open>src/shared/config/env.schema.ts\<close>, whose fields are tables over a few
  kinds, and the configuration record \<open>configuration.ts\<close> made from it. What the schema library checks itself (a
  number with a lower bound, a URL, a mail address) and the length of base64 key material are parameters;
  the preprocessing, the refinements and the defaults are those of the file.
  Lemmas: a production process has authentication on; an accepted provider is one the service knows; the
  accepted limits are those the guards use.
\<close>

record zod =
  z_int :: "int \<Rightarrow> string \<Rightarrow> int option"
  z_url :: "string \<Rightarrow> bool"
  z_email :: "string \<Rightarrow> bool"
  z_base64_length :: "string \<Rightarrow> nat"

datatype env_value = EAbsent | EInt int | EStr string | EBool bool

section \<open>Kinds of fields\<close>

text \<open>A kind reads the raw value (\<open>None\<close>: the variable is not set); its result is \<open>None\<close> when there is an issue.\<close>

type_synonym env_kind = "string option \<Rightarrow> env_value option"

definition TRUE_VALUES :: "string list" where "TRUE_VALUES = [''1'', ''true'', ''yes'', ''on'']"
definition FALSE_VALUES :: "string list" where "FALSE_VALUES = [''0'', ''false'', ''no'', ''off'']"

definition blank_to_undefined :: "string option \<Rightarrow> string option" where
  "blank_to_undefined v = (case v of Some s \<Rightarrow> if js_trim s = '''' then None else Some s | None \<Rightarrow> None)"

definition optional_field :: "(string \<Rightarrow> string option) \<Rightarrow> env_kind" where
  "optional_field check v =
     (case blank_to_undefined v of None \<Rightarrow> Some EAbsent | Some s \<Rightarrow> map_option EStr (check s))"

definition optionalUrl :: "zod \<Rightarrow> env_kind" where
  "optionalUrl Z = optional_field (\<lambda>s. if z_url Z s then Some s else None)"

definition optionalString :: env_kind where
  "optionalString = optional_field (\<lambda>s. if js_trim s \<noteq> '''' then Some (js_trim s) else None)"

definition optionalEmail :: "zod \<Rightarrow> env_kind" where
  "optionalEmail Z = optional_field (\<lambda>s. if z_email Z s then Some s else None)"

definition KNOWN_WEAK_MASTER_KEYS :: "string list" where
  "KNOWN_WEAK_MASTER_KEYS =
     [''change_me'', ''change-me'', ''changeme'', ''password'', ''secret'', ''tenant-secrets-master-key'', ''replace-me'']"

definition MASTER_KEY_MIN_BYTES :: nat where "MASTER_KEY_MIN_BYTES = 32"

definition optionalMasterKey :: "zod \<Rightarrow> env_kind" where
  "optionalMasterKey Z = optional_field (\<lambda>s.
     (let v = js_trim s in
      if v = '''' \<or> js_lower v \<in> set KNOWN_WEAK_MASTER_KEYS \<or> z_base64_length Z v < MASTER_KEY_MIN_BYTES then None else Some v))"

definition featureFlag :: "string \<Rightarrow> env_value option" where
  "featureFlag s =
     (let normalized = js_lower (js_trim s) in
      if normalized \<in> set TRUE_VALUES then Some (EBool True)
      else if normalized \<in> set FALSE_VALUES then Some (EBool False) else None)"

definition with_default :: "env_value \<Rightarrow> (string \<Rightarrow> env_value option) \<Rightarrow> env_kind" where
  "with_default d check v = (case v of None \<Rightarrow> Some d | Some s \<Rightarrow> check s)"

definition int_field :: "zod \<Rightarrow> int \<Rightarrow> int \<Rightarrow> env_kind" where
  "int_field Z minimum d = with_default (EInt d) (\<lambda>s. map_option EInt (z_int Z minimum s))"

definition enum_field :: "string list \<Rightarrow> string \<Rightarrow> env_kind" where
  "enum_field vs d = with_default (EStr d) (\<lambda>s. if s \<in> set vs then Some (EStr s) else None)"

definition required_string :: env_kind where
  "required_string v = (case v of Some s \<Rightarrow> if s \<noteq> '''' then Some (EStr s) else None | None \<Rightarrow> None)"

definition trimmed_string :: "string \<Rightarrow> env_kind" where
  "trimmed_string d = with_default (EStr d) (\<lambda>s. if js_trim s \<noteq> '''' then Some (EStr (js_trim s)) else None)"

definition url_field :: "zod \<Rightarrow> string \<Rightarrow> env_kind" where
  "url_field Z d = with_default (EStr d) (\<lambda>s. if z_url Z s then Some (EStr s) else None)"

definition AUTH_PROVIDERS :: "string list" where "AUTH_PROVIDERS = [''api_key'', ''clerk'', ''clerk_api_key'']"

definition auth_provider_field :: env_kind where
  "auth_provider_field = with_default (EStr ''clerk_api_key'')
     (\<lambda>s. let v = js_lower (js_trim s) in if v \<in> set AUTH_PROVIDERS then Some (EStr v) else None)"

section \<open>The schema\<close>

definition baseEnvSchema :: "zod \<Rightarrow> (string \<times> env_kind) list" where
  "baseEnvSchema Z =
     [(''NODE_ENV'', enum_field [''development'', ''test'', ''production''] ''development''),
      (''PORT'', int_field Z 1 3000),
      (''DATABASE_URL'', required_string),
      (''REDIS_URL'', required_string),
      (''WEBHOOK_NOTIFIER_URL'', optionalUrl Z),
      (''WEBHOOK_NOTIFIER_TIMEOUT_MS'', int_field Z 1 5000),
      (''RESEND_API_KEY'', optionalString),
      (''RESEND_FROM_EMAIL'', optionalEmail Z),
      (''RESEND_DAILY_LIMIT'', int_field Z 0 100),
      (''TELEGRAM_BOT_TOKEN'', optionalString),
      (''TENANT_SECRETS_MASTER_KEY'', optionalMasterKey Z),
      (''TELEGRAM_API_URL'', url_field Z ''https://api.telegram.org''),
      (''SCHEDULER_TICK_MS'', int_field Z 1 15000),
      (''SCHEDULER_BATCH_SIZE'', int_field Z 1 100),
      (''WORKER_CONCURRENCY'', int_field Z 1 5),
      (''FETCH_TIMEOUT_MS'', int_field Z 1 10000),
      (''LOG_LEVEL'', enum_field [''fatal'', ''error'', ''warn'', ''info'', ''debug'', ''trace''] ''info''),
      (''SHUTDOWN_TIMEOUT_MS'', int_field Z 1 30000),
      (''SCHEDULER_STUCK_FEED_THRESHOLD_SECONDS'', int_field Z 1 300),
      (''RATE_LIMIT_REQUESTS_PER_SECOND'', int_field Z 1 2),
      (''RATE_LIMIT_MAX_BACKOFF_MS'', int_field Z 1 60000),
      (''RATE_LIMIT_BASE_BACKOFF_MS'', int_field Z 1 1000),
      (''RATE_LIMIT_TTL_SECONDS'', int_field Z 1 60),
      (''RATE_LIMIT_MAX_REQUESTS'', int_field Z 0 300),
      (''RATE_LIMIT_WRITE_MAX_REQUESTS'', int_field Z 0 30),
      (''MAX_FEEDS_PER_TENANT'', int_field Z 0 500),
      (''WORKER_METRICS_PORT'', int_field Z 1 3001),
      (''WORKER_METRICS_BIND'', trimmed_string ''0.0.0.0''),
      (''METRICS_AUTH_TOKEN'', optionalString),
      (''CORS_ORIGINS'', optionalString),
      (''ENABLE_SWAGGER'', with_default EAbsent featureFlag),
      (''ALLOW_PRIVATE_FEED_HOSTS'', with_default (EBool False) featureFlag),
      (''FEED_FETCH_MAX_BYTES'', int_field Z 1 (5 * 1024 * 1024)),
      (''OPML_UPLOAD_MAX_BYTES'', int_field Z 1 (10 * 1024 * 1024)),
      (''OPML_INITIAL_JITTER_MAX_SECONDS'', int_field Z 0 120),
      (''AGENT_INTERFACE_V1'', with_default (EBool True) featureFlag),
      (''TUI_ENABLED'', with_default (EBool True) featureFlag),
      (''ENABLE_AUTH'', with_default (EBool False) featureFlag),
      (''AUTH_PROVIDER'', auth_provider_field),
      (''BOOTSTRAP_API_KEY'', optionalString),
      (''BOOTSTRAP_API_KEY_TENANT_ID'', trimmed_string ''legacy''),
      (''CLERK_SECRET_KEY'', optionalString),
      (''CLERK_PUBLISHABLE_KEY'', optionalString),
      (''CLERK_API_URL'', url_field Z ''https://api.clerk.com'')]"

type_synonym env_record = "string \<Rightarrow> env_value"

definition parsed_env :: "zod \<Rightarrow> (string \<Rightarrow> string option) \<Rightarrow> env_record" where
  "parsed_env Z raw name =
     (case map_of (baseEnvSchema Z) name of Some k \<Rightarrow> opt_else (k (raw name)) EAbsent | None \<Rightarrow> EAbsent)"

text \<open>The refinement of the whole: authentication may not be off in production.\<close>

definition auth_issue :: "env_record \<Rightarrow> bool" where
  "auth_issue env \<longleftrightarrow> env ''NODE_ENV'' = EStr ''production'' \<and> env ''ENABLE_AUTH'' = EBool False"

definition validateEnv :: "zod \<Rightarrow> (string \<Rightarrow> string option) \<Rightarrow> env_record option" where
  "validateEnv Z raw =
     (if list_ex (\<lambda>(name, k). k (raw name) = None) (baseEnvSchema Z) then None
      else if auth_issue (parsed_env Z raw) then None
      else Some (parsed_env Z raw))"

section \<open>The configuration\<close>

definition e_int :: "env_value \<Rightarrow> int" where "e_int v = (case v of EInt i \<Rightarrow> i | _ \<Rightarrow> 0)"
definition e_str :: "env_value \<Rightarrow> string" where "e_str v = (case v of EStr s \<Rightarrow> s | _ \<Rightarrow> '''')"
definition e_bool :: "env_value \<Rightarrow> bool" where "e_bool v = (case v of EBool b \<Rightarrow> b | _ \<Rightarrow> False)"
definition e_opt :: "env_value \<Rightarrow> string option" where "e_opt v = (case v of EStr s \<Rightarrow> Some s | _ \<Rightarrow> None)"

record app_configuration =
  cf_nodeEnv :: string
  cf_port :: int
  cf_databaseUrl :: string
  cf_redisUrl :: string
  cf_webhookNotifierUrl :: "string option"
  cf_webhookNotifierTimeoutMs :: int
  cf_resendApiKey :: "string option"
  cf_resendFromEmail :: "string option"
  cf_resendDailyLimit :: int
  cf_telegramBotToken :: "string option"
  cf_tenantSecretsMasterKey :: "string option"
  cf_telegramApiUrl :: string
  cf_schedulerTickMs :: int
  cf_schedulerBatchSize :: int
  cf_schedulerStuckFeedThresholdSeconds :: int
  cf_workerConcurrency :: int
  cf_fetchTimeoutMs :: int
  cf_logLevel :: string
  cf_shutdownTimeoutMs :: int
  cf_rateLimitRequestsPerSecond :: int
  cf_rateLimitMaxBackoffMs :: int
  cf_rateLimitBaseBackoffMs :: int
  cf_rateLimitTtlSeconds :: int
  cf_rateLimitMaxRequests :: int
  cf_rateLimitWriteMaxRequests :: int
  cf_maxFeedsPerTenant :: int
  cf_workerMetricsPort :: int
  cf_workerMetricsBind :: string
  cf_metricsAuthToken :: "string option"
  cf_corsOrigins :: "string list"
  cf_enableSwagger :: bool
  cf_allowPrivateFeedHosts :: bool
  cf_feedFetchMaxBytes :: int
  cf_opmlUploadMaxBytes :: int
  cf_opmlInitialJitterMaxSeconds :: int
  cf_agentInterfaceV1 :: bool
  cf_tuiEnabled :: bool
  cf_enableAuth :: bool
  cf_authProvider :: string
  cf_bootstrapApiKey :: "string option"
  cf_bootstrapApiKeyTenantId :: string
  cf_clerkSecretKey :: "string option"
  cf_clerkPublishableKey :: "string option"
  cf_clerkApiUrl :: string

definition cors_origins :: "string option \<Rightarrow> string list" where
  "cors_origins v = filter (\<lambda>origin. origin \<noteq> '''') (map js_trim (js_split (CHR '','') (opt_else v '''')))"

definition configuration :: "env_record \<Rightarrow> app_configuration" where
  "configuration env =
     \<lparr>cf_nodeEnv = e_str (env ''NODE_ENV''), cf_port = e_int (env ''PORT''), cf_databaseUrl = e_str (env ''DATABASE_URL''),
      cf_redisUrl = e_str (env ''REDIS_URL''), cf_webhookNotifierUrl = e_opt (env ''WEBHOOK_NOTIFIER_URL''),
      cf_webhookNotifierTimeoutMs = e_int (env ''WEBHOOK_NOTIFIER_TIMEOUT_MS''), cf_resendApiKey = e_opt (env ''RESEND_API_KEY''),
      cf_resendFromEmail = e_opt (env ''RESEND_FROM_EMAIL''), cf_resendDailyLimit = e_int (env ''RESEND_DAILY_LIMIT''),
      cf_telegramBotToken = e_opt (env ''TELEGRAM_BOT_TOKEN''), cf_tenantSecretsMasterKey = e_opt (env ''TENANT_SECRETS_MASTER_KEY''),
      cf_telegramApiUrl = e_str (env ''TELEGRAM_API_URL''), cf_schedulerTickMs = e_int (env ''SCHEDULER_TICK_MS''),
      cf_schedulerBatchSize = e_int (env ''SCHEDULER_BATCH_SIZE''),
      cf_schedulerStuckFeedThresholdSeconds = e_int (env ''SCHEDULER_STUCK_FEED_THRESHOLD_SECONDS''),
      cf_workerConcurrency = e_int (env ''WORKER_CONCURRENCY''), cf_fetchTimeoutMs = e_int (env ''FETCH_TIMEOUT_MS''),
      cf_logLevel = e_str (env ''LOG_LEVEL''), cf_shutdownTimeoutMs = e_int (env ''SHUTDOWN_TIMEOUT_MS''),
      cf_rateLimitRequestsPerSecond = e_int (env ''RATE_LIMIT_REQUESTS_PER_SECOND''),
      cf_rateLimitMaxBackoffMs = e_int (env ''RATE_LIMIT_MAX_BACKOFF_MS''),
      cf_rateLimitBaseBackoffMs = e_int (env ''RATE_LIMIT_BASE_BACKOFF_MS''),
      cf_rateLimitTtlSeconds = e_int (env ''RATE_LIMIT_TTL_SECONDS''), cf_rateLimitMaxRequests = e_int (env ''RATE_LIMIT_MAX_REQUESTS''),
      cf_rateLimitWriteMaxRequests = e_int (env ''RATE_LIMIT_WRITE_MAX_REQUESTS''),
      cf_maxFeedsPerTenant = e_int (env ''MAX_FEEDS_PER_TENANT''), cf_workerMetricsPort = e_int (env ''WORKER_METRICS_PORT''),
      cf_workerMetricsBind = e_str (env ''WORKER_METRICS_BIND''), cf_metricsAuthToken = e_opt (env ''METRICS_AUTH_TOKEN''),
      cf_corsOrigins = cors_origins (e_opt (env ''CORS_ORIGINS'')),
      cf_enableSwagger = (case env ''ENABLE_SWAGGER'' of EBool b \<Rightarrow> b | _ \<Rightarrow> env ''NODE_ENV'' \<noteq> EStr ''production''),
      cf_allowPrivateFeedHosts = e_bool (env ''ALLOW_PRIVATE_FEED_HOSTS''), cf_feedFetchMaxBytes = e_int (env ''FEED_FETCH_MAX_BYTES''),
      cf_opmlUploadMaxBytes = e_int (env ''OPML_UPLOAD_MAX_BYTES''),
      cf_opmlInitialJitterMaxSeconds = e_int (env ''OPML_INITIAL_JITTER_MAX_SECONDS''),
      cf_agentInterfaceV1 = e_bool (env ''AGENT_INTERFACE_V1''), cf_tuiEnabled = e_bool (env ''TUI_ENABLED''),
      cf_enableAuth = e_bool (env ''ENABLE_AUTH''), cf_authProvider = e_str (env ''AUTH_PROVIDER''),
      cf_bootstrapApiKey = e_opt (env ''BOOTSTRAP_API_KEY''), cf_bootstrapApiKeyTenantId = e_str (env ''BOOTSTRAP_API_KEY_TENANT_ID''),
      cf_clerkSecretKey = e_opt (env ''CLERK_SECRET_KEY''), cf_clerkPublishableKey = e_opt (env ''CLERK_PUBLISHABLE_KEY''),
      cf_clerkApiUrl = e_str (env ''CLERK_API_URL'')\<rparr>"


section \<open>What a started process may rely on\<close>

lemma validated_env:
  assumes "validateEnv Z raw = Some env"
  shows "env = parsed_env Z raw" and "\<not> auth_issue env" and "\<forall>(name, k) \<in> set (baseEnvSchema Z). k (raw name) \<noteq> None"
  using assms by (auto simp: validateEnv_def list_ex_iff split: if_splits)

lemma production_requires_auth:
  assumes "validateEnv Z raw = Some env" and "env ''NODE_ENV'' = EStr ''production''"
  shows "cf_enableAuth (configuration env)"
proof -
  note v = validated_env [OF assms(1)]
  have "(''ENABLE_AUTH'', with_default (EBool False) featureFlag) \<in> set (baseEnvSchema Z)"
    by (simp add: baseEnvSchema_def)
  with v(3) have ok: "with_default (EBool False) featureFlag (raw ''ENABLE_AUTH'') \<noteq> None" by blast
  have "map_of (baseEnvSchema Z) ''ENABLE_AUTH'' = Some (with_default (EBool False) featureFlag)"
    by (simp add: baseEnvSchema_def)
  with ok v(1) obtain b where "env ''ENABLE_AUTH'' = EBool b"
    by (auto simp: parsed_env_def with_default_def featureFlag_def Let_def split: option.splits if_splits)
  with v(2) assms(2) show ?thesis
    by (auto simp: auth_issue_def configuration_def e_bool_def)
qed

text \<open>An accepted provider is one the authentication service starts with.\<close>

lemma accepted_provider_starts:
  assumes "validateEnv Z raw = Some env"
  shows "auth_onModuleInit (E\<lparr>authProvider := cf_authProvider (configuration env)\<rparr>)"
proof -
  note v = validated_env [OF assms(1)]
  have "(''AUTH_PROVIDER'', auth_provider_field) \<in> set (baseEnvSchema Z)"
    by (simp add: baseEnvSchema_def)
  with v(3) have ok: "auth_provider_field (raw ''AUTH_PROVIDER'') \<noteq> None" by blast
  have "map_of (baseEnvSchema Z) ''AUTH_PROVIDER'' = Some auth_provider_field"
    by (simp add: baseEnvSchema_def)
  with ok v(1) obtain p where p: "env ''AUTH_PROVIDER'' = EStr p" "p \<in> set AUTH_PROVIDERS"
    by (auto simp: parsed_env_def auth_provider_field_def with_default_def AUTH_PROVIDERS_def Let_def split: option.splits if_splits)
  have "\<forall>q \<in> set AUTH_PROVIDERS. js_lower (js_trim q) \<in> set KNOWN_AUTH_PROVIDERS"
    by code_simp
  with p show ?thesis
    by (simp add: auth_onModuleInit_def normalizedProvider_def configuration_def e_str_def)
qed

text \<open>
  A variable that is set but empty counts as 0 for the fields that admit 0 (\<open>Number('')\<close> is 0): the limit is
  off, where the guard's own reading of the environment takes a blank value as not set.
\<close>

lemma blank_limit_disables:
  assumes "z_int Z 0 '''' = Some 0" and "raw ''RATE_LIMIT_MAX_REQUESTS'' = Some ''''"
  shows "cf_rateLimitMaxRequests (configuration (parsed_env Z raw)) = 0"
    and "resolveLimit raw None ''RATE_LIMIT_MAX_REQUESTS'' 300 = 300"
proof -
  have "map_of (baseEnvSchema Z) ''RATE_LIMIT_MAX_REQUESTS'' = Some (int_field Z 0 300)"
    by (simp add: baseEnvSchema_def)
  with assms show "cf_rateLimitMaxRequests (configuration (parsed_env Z raw)) = 0"
    by (simp add: configuration_def parsed_env_def int_field_def with_default_def e_int_def)
  show "resolveLimit raw None ''RATE_LIMIT_MAX_REQUESTS'' 300 = 300"
    using assms(2) by (simp add: resolveLimit_def readIntEnv_def js_trim_def)
qed

end
