(* ===== verification/Fetch_Failure.thy ===== *)
theory Fetch_Failure imports Feed_Store begin

text \<open>
  What a failed fetch means for its feed: \<open>detectFeedFailureCategory\<close>, \<open>classifyFeedFailure\<close> and the two
  backoffs of \<open>src/modules/ingestion/application/process-feed-job.use-case.ts\<close>. \<open>draw\<close> is the value of
  \<open>Math.random()\<close>, at least 0 and below 1. All numbers are integers but the factor 0.15, whose products with
  integers up to 21600 have the same floor in double precision and over the rationals.
  Theorems: the bounds of the next check, and which failed feeds are ever fetched again on their own.
\<close>

section \<open>Categories\<close>

datatype failure_category =
  TerminalNotFound | TerminalInvalidFeed | TerminalInvalidXml | AutoPausedDns | AutoPausedBlocked | Transient

definition AUTO_PAUSED_ERROR_PREFIX :: string where "AUTO_PAUSED_ERROR_PREFIX = ''auto-paused:''"
definition DNS_AUTO_PAUSE_DELAY_SECONDS :: nat where "DNS_AUTO_PAUSE_DELAY_SECONDS = 12 * 60 * 60"
definition BLOCKED_AUTO_PAUSE_DELAY_SECONDS :: nat where "BLOCKED_AUTO_PAUSE_DELAY_SECONDS = 14 * 60 * 60"

definition isDnsResolutionFailure :: "string \<Rightarrow> bool" where
  "isDnsResolutionFailure m \<longleftrightarrow>
     js_includes m ''could not resolve host'' \<or> js_includes m ''enotfound'' \<or> js_includes m ''eai_again''"

definition detectFeedFailureCategory :: "string \<Rightarrow> nat \<Rightarrow> failure_category" where
  "detectFeedFailureCategory message errorCount =
     (let normalized = js_lower message;
          http404 = js_includes normalized ''status 404'';
          http410 = js_includes normalized ''status 410'';
          unsupported = js_includes normalized ''feed not recognized as rss'';
          hardXml = (js_includes normalized ''unable to parse xml'' \<or> js_includes normalized ''invalid character in''
                     \<or> js_includes normalized ''attribute without value'');
          unsafeTarget = (js_includes normalized ''unsafe_host'' \<or> js_includes normalized ''unsafe_protocol''
                     \<or> js_includes normalized ''feed_url_host_not_allowed'');
          oversizedBody = js_includes normalized ''feed_body_too_large'';
          repeatedlyForbidden = (js_includes normalized ''status 403'' \<and> 5 \<le> errorCount);
          dnsResolutionFailure = (isDnsResolutionFailure normalized \<and> 3 \<le> errorCount)
      in if http404 \<or> http410 then TerminalNotFound
         else if unsupported \<or> unsafeTarget \<or> oversizedBody then TerminalInvalidFeed
         else if hardXml then TerminalInvalidXml
         else if repeatedlyForbidden then AutoPausedBlocked
         else if dnsResolutionFailure then AutoPausedDns
         else Transient)"

section \<open>Backoff\<close>

definition computeErrorBackoffSeconds :: "rat \<Rightarrow> nat \<Rightarrow> nat \<Rightarrow> nat" where
  "computeErrorBackoffSeconds draw pollIntervalSeconds errorCount =
     (let cappedErrors = max 1 (min errorCount 6);
          exponential = pollIntervalSeconds * 2 ^ (cappedErrors - 1);
          capped = min exponential (6 * 60 * 60);
          jitter = nat \<lfloor>draw * of_nat (min (15 * 60) (max 1 (capped * 15 div 100)))\<rfloor>
      in capped + jitter)"

definition computeAutoPauseBackoffSeconds :: "rat \<Rightarrow> nat \<Rightarrow> nat" where
  "computeAutoPauseBackoffSeconds draw baseDelaySeconds = baseDelaySeconds + nat \<lfloor>draw * 30 * 60\<rfloor>"

record feed_failure =
  ff_category :: failure_category
  ff_status :: feed_status
  nextCheckInSeconds :: nat
  ff_last_error :: string
  shouldRethrow :: bool

definition classifyFeedFailure :: "rat \<Rightarrow> string \<Rightarrow> nat \<Rightarrow> nat \<Rightarrow> feed_failure" where
  "classifyFeedFailure draw message errorCount pollIntervalSeconds =
     (let category = detectFeedFailureCategory message errorCount in
      if category = AutoPausedDns then
        \<lparr>ff_category = category, ff_status = FdPaused,
         nextCheckInSeconds = computeAutoPauseBackoffSeconds draw DNS_AUTO_PAUSE_DELAY_SECONDS,
         ff_last_error = AUTO_PAUSED_ERROR_PREFIX @ '' '' @ message, shouldRethrow = False\<rparr>
      else if category = AutoPausedBlocked then
        \<lparr>ff_category = category, ff_status = FdPaused,
         nextCheckInSeconds = computeAutoPauseBackoffSeconds draw BLOCKED_AUTO_PAUSE_DELAY_SECONDS,
         ff_last_error = AUTO_PAUSED_ERROR_PREFIX @ '' '' @ message, shouldRethrow = False\<rparr>
      else if category \<noteq> Transient then
        \<lparr>ff_category = category, ff_status = FdPaused,
         nextCheckInSeconds = computeErrorBackoffSeconds draw pollIntervalSeconds errorCount,
         ff_last_error = message, shouldRethrow = False\<rparr>
      else
        \<lparr>ff_category = category, ff_status = FdError,
         nextCheckInSeconds = computeErrorBackoffSeconds draw pollIntervalSeconds errorCount,
         ff_last_error = message, shouldRethrow = True\<rparr>)"

text \<open>The report of a failure: no validators and no response time, so that the stored ones are kept.\<close>

definition failure_report :: "msec \<Rightarrow> feed_failure \<Rightarrow> nat \<Rightarrow> nat \<Rightarrow> fetch_report" where
  "failure_report now c feedId nextErrorCount =
     \<lparr>fr_feed = feedId, fr_etag = None, fr_last_modified = None, fr_status = ff_status c, fr_errors = nextErrorCount,
      fr_last_error = Some (ff_last_error c), fr_avg_ms = None, fr_next_check = Some (now + nextCheckInSeconds c * 1000)\<rparr>"

section \<open>Bounds\<close>

lemma jitter_below: "0 \<le> draw \<Longrightarrow> draw < 1 \<Longrightarrow> 0 < n \<Longrightarrow> nat \<lfloor>draw * of_nat n\<rfloor> < n"
proof -
  assume "0 \<le> draw" "draw < 1" "0 < n"
  then have "draw * of_nat n < of_nat n" by simp
  then have "\<lfloor>draw * of_nat n\<rfloor> < int n" by (simp add: floor_less_iff)
  with \<open>0 < n\<close> show ?thesis by linarith
qed

text \<open>The backoff without its jitter.\<close>

definition base_backoff :: "nat \<Rightarrow> nat \<Rightarrow> nat" where
  "base_backoff poll k = min (poll * 2 ^ (min (k - 1) 5)) 21600"

lemma capped_errors: "max 1 (min k 6) - 1 = min (k - 1) (5 :: nat)"
  by (cases "k \<le> 6"; cases "1 \<le> k") auto

lemma error_backoff_bounds:
  assumes "0 \<le> draw" and "draw < 1"
  shows "base_backoff poll k \<le> computeErrorBackoffSeconds draw poll k
    \<and> computeErrorBackoffSeconds draw poll k < base_backoff poll k + min 900 (max 1 (base_backoff poll k * 15 div 100))"
proof -
  have e: "computeErrorBackoffSeconds draw poll k = base_backoff poll k
      + nat \<lfloor>draw * of_nat (min 900 (max 1 (base_backoff poll k * 15 div 100)))\<rfloor>"
    unfolding computeErrorBackoffSeconds_def Let_def capped_errors base_backoff_def by simp
  show ?thesis
    unfolding e using jitter_below [OF assms, of "min 900 (max 1 (base_backoff poll k * 15 div 100))"] by linarith
qed

lemma base_backoff_mono: "j \<le> k \<Longrightarrow> base_backoff poll j \<le> base_backoff poll k"
proof -
  assume "j \<le> k"
  then have "(2 :: nat) ^ min (j - 1) 5 \<le> 2 ^ min (k - 1) 5" by (intro power_increasing) auto
  then have "poll * 2 ^ min (j - 1) 5 \<le> poll * 2 ^ min (k - 1) 5" by (rule mult_le_mono2)
  then show ?thesis unfolding base_backoff_def by (rule min.mono) simp
qed

lemma auto_pause_bounds:
  assumes "0 \<le> draw" and "draw < 1"
  shows "b \<le> computeAutoPauseBackoffSeconds draw b \<and> computeAutoPauseBackoffSeconds draw b < b + 1800"
  using jitter_below [OF assms, of 1800] by (simp add: computeAutoPauseBackoffSeconds_def ac_simps)

definition terminal :: "failure_category \<Rightarrow> bool" where
  "terminal c \<longleftrightarrow> c \<in> {TerminalNotFound, TerminalInvalidFeed, TerminalInvalidXml}"

definition auto_paused_category :: "failure_category \<Rightarrow> bool" where
  "auto_paused_category c \<longleftrightarrow> c \<in> {AutoPausedDns, AutoPausedBlocked}"

lemma like_auto_paused: "sql_like (cps AUTO_PAUSED_ERROR_PATTERN) (cps e) \<longleftrightarrow> prefix AUTO_PAUSED_ERROR_PREFIX e"
proof -
  have p: "cps AUTO_PAUSED_ERROR_PATTERN = cps AUTO_PAUSED_ERROR_PREFIX @ [37]" by code_simp
  have "plain (cps AUTO_PAUSED_ERROR_PREFIX)" by code_simp
  then have "sql_like (cps AUTO_PAUSED_ERROR_PATTERN) (cps e) \<longleftrightarrow> prefix (cps AUTO_PAUSED_ERROR_PREFIX) (cps e)"
    unfolding p by (rule sql_like_prefix)
  also have "\<dots> \<longleftrightarrow> prefix AUTO_PAUSED_ERROR_PREFIX e"
    by (auto simp: prefix_def map_eq_append_conv dest!: map_injective [OF _ inj_of_char])
  finally show ?thesis .
qed

section \<open>Properties\<close>

text \<open>
  C22: After a failed fetch the feed is no longer claimed, and the next check follows the category: the backoff
  doubles with each consecutive error up to six hours and 15 minutes, an auto-pause lasts between its delay
  and half an hour more. Exactly the feeds whose failure is not terminal become due again on their own, and
  exactly the transient failures are thrown again.
\<close>

theorem failed_feed_next_check:
  assumes "0 \<le> draw" and "draw < 1" and "\<not> prefix AUTO_PAUSED_ERROR_PREFIX message"
    and "c = classifyFeedFailure draw message k (fd_poll f)"
    and "row = report_row now (failure_report now c (fd_id f) k) f"
  shows "fd_claimed row = None
    \<and> (\<forall>t. due_feed t row = (\<not> terminal (ff_category c) \<and> now + nextCheckInSeconds c * 1000 \<le> t))
    \<and> (if ff_category c = AutoPausedDns then 43200 \<le> nextCheckInSeconds c \<and> nextCheckInSeconds c < 45000
       else if ff_category c = AutoPausedBlocked then 50400 \<le> nextCheckInSeconds c \<and> nextCheckInSeconds c < 52200
       else base_backoff (fd_poll f) k \<le> nextCheckInSeconds c
          \<and> nextCheckInSeconds c < base_backoff (fd_poll f) k + max 1 (base_backoff (fd_poll f) k * 15 div 100)
          \<and> nextCheckInSeconds c < 22500)
    \<and> shouldRethrow c = (ff_category c = Transient)"
proof -
  let ?k = "detectFeedFailureCategory message k"
  have cat: "ff_category c = ?k" "shouldRethrow c = (?k = Transient)"
    by (simp_all add: assms(4) classifyFeedFailure_def Let_def)
  have status: "ff_status c = (if ?k = Transient then FdError else FdPaused)"
    by (simp add: assms(4) classifyFeedFailure_def Let_def)
  have err: "prefix AUTO_PAUSED_ERROR_PREFIX (ff_last_error c) = auto_paused_category ?k"
    using assms(3) by (auto simp: assms(4) classifyFeedFailure_def Let_def auto_paused_category_def)
  have row: "fd_status row = ff_status c" "fd_last_error row = Some (ff_last_error c)" "fd_claimed row = None"
    "fd_next_check row = now + nextCheckInSeconds c * 1000"
    by (simp_all add: assms(5) report_row_def failure_report_def)
  have due: "due_feed t row = (\<not> terminal (ff_category c) \<and> now + nextCheckInSeconds c * 1000 \<le> t)" for t
    unfolding due_feed_def auto_paused_def row status cat
    using err by (cases ?k) (auto simp: like_auto_paused terminal_def auto_paused_category_def)
  have below: "base_backoff (fd_poll f) k \<le> 21600" by (simp add: base_backoff_def)
  have next_in: "nextCheckInSeconds c = (if ?k = AutoPausedDns then computeAutoPauseBackoffSeconds draw 43200
      else if ?k = AutoPausedBlocked then computeAutoPauseBackoffSeconds draw 50400
      else computeErrorBackoffSeconds draw (fd_poll f) k)"
    by (simp add: assms(4) classifyFeedFailure_def Let_def DNS_AUTO_PAUSE_DELAY_SECONDS_def BLOCKED_AUTO_PAUSE_DELAY_SECONDS_def)
  show ?thesis
    unfolding cat(1) next_in [unfolded if_distrib]
    using due row(3) cat below error_backoff_bounds [OF assms(1,2), of "fd_poll f" k] next_in
      auto_pause_bounds [OF assms(1,2), of 43200] auto_pause_bounds [OF assms(1,2), of 50400]
    by (auto split: if_splits)
qed

definition idle_feed :: feed where
  "idle_feed = \<lparr>fd_id = 7, fd_tenant = ''acme'', fd_url = ''https://news.example/feed'', fd_status = FdActive, fd_etag = None,
     fd_last_modified = None, fd_last_checked = None, fd_next_check = 0, fd_poll = 1800, fd_errors = 2, fd_last_error = None,
     fd_avg_ms = None, fd_avg_items = None, fd_created = 0, fd_updated = 0, fd_claimed = Some 5, fd_url_hash = None\<rparr>"

lemma dns_failure_category:
  "detectFeedFailureCategory ''getaddrinfo ENOTFOUND news.example'' 3 = AutoPausedDns"
  "\<not> prefix AUTO_PAUSED_ERROR_PREFIX ''getaddrinfo ENOTFOUND news.example''"
  by code_simp+

lemma failed_feed_next_check_witness:
  "\<exists>c row. c = classifyFeedFailure (1 / 2) ''getaddrinfo ENOTFOUND news.example'' 3 (fd_poll idle_feed)
     \<and> row = report_row 100 (failure_report 100 c (fd_id idle_feed) 3) idle_feed
     \<and> ff_category c = AutoPausedDns \<and> 43200 \<le> nextCheckInSeconds c
     \<and> due_feed (100 + nextCheckInSeconds c * 1000) row"
proof -
  define c where "c = classifyFeedFailure (1 / 2) ''getaddrinfo ENOTFOUND news.example'' 3 (fd_poll idle_feed)"
  define row where "row = report_row 100 (failure_report 100 c (fd_id idle_feed) 3) idle_feed"
  have cat: "ff_category c = AutoPausedDns"
    by (simp add: c_def classifyFeedFailure_def Let_def dns_failure_category(1))
  have d: "(0 :: rat) \<le> 1 / 2" "(1 / 2 :: rat) < 1" by simp_all
  note r = failed_feed_next_check [OF d dns_failure_category(2) c_def row_def]
  have "43200 \<le> nextCheckInSeconds c" "due_feed (100 + nextCheckInSeconds c * 1000) row"
    using r cat by (simp_all add: terminal_def)
  with cat c_def row_def show ?thesis by blast
qed

text \<open>
  The messages of the fetcher hold the URL of the feed, and the category is read from the whole message: a
  feed whose URL holds one of the phrases is paused for good by any error that names the URL.
\<close>

lemma includes_middle: "js_includes (a @ m @ b) m"
  by (auto simp: js_includes_def sublist_def)

lemma url_text_decides_category:
  assumes "url = a @ ''unsafe_host'' @ b" and "js_lower a = a" and "js_lower b = b"
    and "\<not> js_includes (js_lower (''Rate limited (429) for '' @ url @ '', retry after 5'')) ''status 404''"
    and "\<not> js_includes (js_lower (''Rate limited (429) for '' @ url @ '', retry after 5'')) ''status 410''"
  shows "detectFeedFailureCategory (''Rate limited (429) for '' @ url @ '', retry after 5'') k = TerminalInvalidFeed"
proof -
  have "js_lower (''Rate limited (429) for '' @ url @ '', retry after 5'')
      = (js_lower ''Rate limited (429) for '' @ a) @ ''unsafe_host'' @ (b @ js_lower '', retry after 5'')"
    using assms(1-3) by (simp add: js_lower_def js_lower_char_def Let_def)
  then have "js_includes (js_lower (''Rate limited (429) for '' @ url @ '', retry after 5'')) ''unsafe_host''"
    by (simp only: includes_middle)
  then show ?thesis using assms(4,5) by (simp add: detectFeedFailureCategory_def Let_def)
qed

end
