(* ===== verification/Ingestion.thy ===== *)
theory Ingestion imports Entry_Store Fetch_Failure Alert_Delivery begin

text \<open>
  The feed job: \<open>src/modules/ingestion/application/process-feed-job.use-case.ts\<close> over the feeds, entries, rules
  and alerts tables. Parameters are the port \<open>FeedFetcherPort\<close>, the parser of \<open>rss-parser\<close>, the reading and
  printing of dates, SHA-256 and the Unicode tables; the clock is read once. Each database call may fail:
  \<open>g_fails\<close> gives the error message of the call at a step, if it fails. \<open>BEGIN\<close> and \<open>COMMIT\<close> bracket the
  transaction; a rollback restores the tables and keeps the sequences advanced. Metrics and logging are left out.
  Theorems: a run commits as a whole or leaves articles and alerts alone and reports the failure; what it
  stores refines the abstract operation on rule sets; fetching the same items again changes nothing.
\<close>

section \<open>Calls in sequence\<close>

definition and_then :: "('s \<Rightarrow> 's \<times> ('e + 'a)) \<Rightarrow> ('a \<Rightarrow> 's \<Rightarrow> 's \<times> ('e + 'b)) \<Rightarrow> 's \<Rightarrow> 's \<times> ('e + 'b)" where
  "and_then m k s = (case m s of (s', Inl e) \<Rightarrow> (s', Inl e) | (s', Inr x) \<Rightarrow> k x s')"

text \<open>A call that fails with the message \<open>failure\<close>, or acts.\<close>

definition call :: "'e option \<Rightarrow> ('s \<Rightarrow> 's \<times> 'a) \<Rightarrow> 's \<Rightarrow> 's \<times> ('e + 'a)" where
  "call failure act s = (case failure of Some m \<Rightarrow> (s, Inl m) | None \<Rightarrow> (case act s of (s', x) \<Rightarrow> (s', Inr x)))"

lemma and_then_cases:
  assumes "and_then m k s = (s', r)"
  obtains (stop) e where "m s = (s', Inl e)" "r = Inl e"
  | (go) s1 x where "m s = (s1, Inr x)" "k x s1 = (s', r)"
  using assms by (auto simp: and_then_def split: prod.splits sum.splits)

lemma call_cases:
  assumes "call failure act s = (s', r)"
  obtains (fails) m where "failure = Some m" "s' = s" "r = Inl m"
  | (acts) x where "failure = None" "act s = (s', x)" "r = Inr x"
  using assms by (auto simp: call_def split: option.splits prod.splits)

section \<open>The port and the items\<close>

record fetch_result =
  statusCode :: nat
  fetch_body :: ustr
  resp_etag :: "string option"
  resp_last_modified :: "string option"
  durationMs :: nat
  resp_final_url :: "string option"
  retryAfterSeconds :: "nat option"

record fetch_options =
  fo_etag :: "string option"
  fo_last_modified :: "string option"
  fo_timeout :: nat

type_synonym 'n feed_fetcher = "string \<Rightarrow> fetch_options \<Rightarrow> 'n \<Rightarrow> 'n \<times> (string + fetch_result)"

text \<open>
  What the parser gives for \<open>guid\<close>: nothing, a string, another primitive (with its \<open>String\<close> form), an object
  with a field \<open>_\<close> (which holds a string or not), something else.
\<close>

datatype raw_guid = GuidMissing | GuidText string | GuidPrimitive string | GuidNode "string option" | GuidOther

fun normalizeRawGuid :: "raw_guid \<Rightarrow> string option" where
  "normalizeRawGuid (GuidText s) = Some s"
| "normalizeRawGuid GuidMissing = None"
| "normalizeRawGuid (GuidPrimitive s) = Some s"
| "normalizeRawGuid (GuidNode t) = t"
| "normalizeRawGuid GuidOther = None"

record feed_item =
  it_title :: "ustr option"
  it_link :: "string option"
  it_guid :: raw_guid
  it_snippet :: "ustr option"
  it_content :: "ustr option"
  it_iso_date :: "string option"
  it_pub_date :: "string option"

datatype db_step =
    SchemaCheck | ReadFeed | LogNotModified | ReportNotModified | Connect | BeginTx | InsertEntry nat | ReadRules
  | StoreAlerts | LogSuccess | ReportSuccess | CommitTx | RollbackTx | QueueAlert nat | LogFailure | ReportFailure

record 'n ingest_env =
  g_fetch :: "'n feed_fetcher"
  g_timeout :: nat
  g_parse :: "ustr \<Rightarrow> string + feed_item list"
  g_date :: "string \<Rightarrow> msec option"
  g_iso :: "msec \<Rightarrow> string"
  g_sha256 :: "string \<Rightarrow> string"
  g_unicode :: unicode
  g_parseURL :: "string \<Rightarrow> url option"
  g_notifier_enabled :: bool
  g_now :: msec
  g_random :: rat
  g_fails :: "db_step \<Rightarrow> string option"

text \<open>\<open>Date\<close> values are milliseconds; the string of the code is their ISO form.\<close>

definition normalizePublishedAt :: "(string \<Rightarrow> msec option) \<Rightarrow> string option \<Rightarrow> msec option" where
  "normalizePublishedAt date v = (case v of None \<Rightarrow> None | Some s \<Rightarrow> if s = '''' then None else date s)"

definition article_hash :: "'n ingest_env \<Rightarrow> string option \<Rightarrow> string option \<Rightarrow> msec option \<Rightarrow> string" where
  "article_hash E link guid publishedAt =
     g_sha256 E (opt_else link '''' @ ''|'' @ opt_else guid '''' @ ''|'' @ opt_else (map_option (g_iso E) publishedAt) '''')"

definition normalize_item :: "'n ingest_env \<Rightarrow> feed_item \<Rightarrow> entry_draft" where
  "normalize_item E item =
     (let guidValue = normalizeRawGuid (it_guid item);
          title = map_option utrim (it_title item);
          link = map_option js_trim (it_link item);
          guid = (case map_option js_trim guidValue of
                    Some g \<Rightarrow> if g \<noteq> '''' then Some g else (case link of Some l \<Rightarrow> if l \<noteq> '''' then Some l else None | None \<Rightarrow> None)
                  | None \<Rightarrow> (case link of Some l \<Rightarrow> if l \<noteq> '''' then Some l else None | None \<Rightarrow> None));
          content = coalesce (map_option utrim (it_snippet item)) (map_option utrim (it_content item));
          publishedAt = normalizePublishedAt (g_date E) (coalesce (it_iso_date item) (it_pub_date item))
      in \<lparr>ed_title = title, ed_link = link, ed_guid = guid, ed_content = content,
          ed_hash = article_hash E link guid publishedAt, ed_published = publishedAt\<rparr>)"

section \<open>The transaction\<close>

record fetch_log =
  fl_feed :: nat
  fl_tenant :: string
  fl_status :: "nat option"
  fl_ms :: "nat option"
  fl_error :: bool
  fl_message :: "string option"

record 'n ingest_state =
  i_feeds :: feed_db
  i_store :: alert_db
  i_logs :: "fetch_log list"
  i_queue :: "delivery_job list"
  i_cache :: pattern_cache
  i_net :: 'n

definition recordFetchLog ::
  "feed_view \<Rightarrow> nat option \<Rightarrow> nat option \<Rightarrow> bool \<Rightarrow> string option \<Rightarrow> 'n ingest_state \<Rightarrow> 'n ingest_state \<times> unit" where
  "recordFetchLog f code ms err message s =
     (s\<lparr>i_logs := i_logs s @ [\<lparr>fl_feed = fd_id f, fl_tenant = fd_tenant f, fl_status = code, fl_ms = ms, fl_error = err,
        fl_message = message\<rparr>]\<rparr>, ())"

definition report :: "msec \<Rightarrow> fetch_report \<Rightarrow> 'n ingest_state \<Rightarrow> 'n ingest_state \<times> unit" where
  "report now r s = (s\<lparr>i_feeds := updateAfterFetch now r (i_feeds s)\<rparr>, ())"

definition success_report :: "msec \<Rightarrow> feed_view \<Rightarrow> fetch_result \<Rightarrow> fetch_report" where
  "success_report now f resp =
     \<lparr>fr_feed = fd_id f, fr_etag = resp_etag resp, fr_last_modified = resp_last_modified resp, fr_status = FdActive,
      fr_errors = 0, fr_last_error = None, fr_avg_ms = Some (durationMs resp), fr_next_check = Some (now + fd_poll f * 1000)\<rparr>"

text \<open>The loop of \<open>insertMany\<close> stops at the first insert that fails.\<close>

definition insert_step ::
  "'n ingest_env \<Rightarrow> feed_view \<Rightarrow> entry_draft list \<Rightarrow> 'n ingest_state \<Rightarrow> 'n ingest_state \<times> (string + stored_entry list)" where
  "insert_step E f drafts s =
     (case find (\<lambda>k. g_fails E (InsertEntry k) \<noteq> None) [0..<length drafts] of
        Some k \<Rightarrow> (s\<lparr>i_store := fst (insertMany (g_unicode E) (g_now E) (fd_tenant f) (fd_id f) (take k drafts) (i_store s))\<rparr>,
                   Inl (the (g_fails E (InsertEntry k))))
      | None \<Rightarrow> (case insertMany (g_unicode E) (g_now E) (fd_tenant f) (fd_id f) drafts (i_store s) of
                   (db, made) \<Rightarrow> (s\<lparr>i_store := db\<rparr>, Inr made)))"

fun matching_rules :: "unicode \<Rightarrow> ustr \<Rightarrow> rule list \<Rightarrow> pattern_cache \<Rightarrow> pattern_cache \<times> nat list" where
  "matching_rules U haystack [] cache = (cache, [])"
| "matching_rules U haystack (r # rs) cache =
     (case ruleMatchesNormalizedText U haystack r cache of
        (cache1, b) \<Rightarrow>
          (case matching_rules U haystack rs cache1 of
             (cache2, ids) \<Rightarrow> (cache2, if b then rule_id r # ids else ids)))"

fun collect_matches ::
  "unicode \<Rightarrow> rule list \<Rightarrow> stored_entry list \<Rightarrow> pattern_cache \<Rightarrow> pattern_cache \<times> (nat \<times> nat list) list" where
  "collect_matches U activeRules [] cache = (cache, [])"
| "collect_matches U activeRules (e # es) cache =
     (case matching_rules U (normalizeSearchText U (opt_else (se_title e) [] @ [32] @ opt_else (se_content e) [])) activeRules cache of
        (cache1, ids) \<Rightarrow>
          (case collect_matches U activeRules es cache1 of
             (cache2, m) \<Rightarrow> (cache2, if ids \<noteq> [] then (se_id e, ids) # m else m)))"

definition match_step ::
  "'n ingest_env \<Rightarrow> rule list \<Rightarrow> stored_entry list \<Rightarrow> 'n ingest_state \<Rightarrow> 'n ingest_state \<times> (string + (nat \<times> nat list) list)" where
  "match_step E activeRules inserted s =
     (case collect_matches (g_unicode E) activeRules inserted (i_cache s) of
        (cache, m) \<Rightarrow> (s\<lparr>i_cache := cache\<rparr>, Inr m))"

definition sql_message :: "sql_error \<Rightarrow> string" where
  "sql_message e =
     (case e of InvalidArrayLiteral s \<Rightarrow> ''malformed array literal: '' @ s
      | CannotAffectRowTwice \<Rightarrow> ''ON CONFLICT DO UPDATE command cannot affect row a second time'')"

definition alerts_step ::
  "'n ingest_env \<Rightarrow> (nat \<times> nat list) list \<Rightarrow> 'n ingest_state \<Rightarrow> 'n ingest_state \<times> (string + upsert_outcome)" where
  "alerts_step E matchesByEntry s =
     (case g_fails E StoreAlerts of
        Some m \<Rightarrow> (s, Inl m)
      | None \<Rightarrow>
          (case createForEntryWithRules (g_parseURL E) (g_now E) matchesByEntry (i_store s) of
             Inl e \<Rightarrow> (s, Inl (sql_message e))
           | Inr (outcome, db) \<Rightarrow> (s\<lparr>i_store := db\<rparr>, Inr outcome)))"

definition transaction_body ::
  "'n ingest_env \<Rightarrow> feed_view \<Rightarrow> fetch_result \<Rightarrow> entry_draft list
   \<Rightarrow> 'n ingest_state \<Rightarrow> 'n ingest_state \<times> (string + (stored_entry list \<times> upsert_outcome))" where
  "transaction_body E f resp drafts =
     and_then (call (g_fails E BeginTx) (\<lambda>s. (s, ()))) (\<lambda>_.
     and_then (insert_step E f drafts) (\<lambda>inserted.
     and_then (call (g_fails E ReadRules) (\<lambda>s. (s, listActive (fd_tenant f) (rules (i_store s))))) (\<lambda>activeRules.
     and_then (match_step E activeRules inserted) (\<lambda>matchesByEntry.
     and_then (alerts_step E matchesByEntry) (\<lambda>outcome.
     and_then (call (g_fails E LogSuccess) (recordFetchLog f (Some (statusCode resp)) (Some (durationMs resp)) False None)) (\<lambda>_.
     and_then (call (g_fails E ReportSuccess) (report (g_now E) (success_report (g_now E) f resp))) (\<lambda>_.
     call (g_fails E CommitTx) (\<lambda>s. (s, (inserted, outcome))))))))))"

text \<open>The tables of \<open>s0\<close> with the sequences and the memory of \<open>s\<close>.\<close>

definition rolled_back :: "'n ingest_state \<Rightarrow> 'n ingest_state \<Rightarrow> 'n ingest_state" where
  "rolled_back s0 s =
     s\<lparr>i_feeds := i_feeds s0, i_logs := i_logs s0,
       i_store := (i_store s0)\<lparr>next_entry := next_entry (i_store s), next_alert := next_alert (i_store s)\<rparr>\<rparr>"

definition in_transaction ::
  "'n ingest_env \<Rightarrow> ('n ingest_state \<Rightarrow> 'n ingest_state \<times> (string + 'a)) \<Rightarrow> 'n ingest_state \<Rightarrow> 'n ingest_state \<times> (string + 'a)" where
  "in_transaction E body s =
     (case body s of
        (s', Inr x) \<Rightarrow> (s', Inr x)
      | (s', Inl m) \<Rightarrow> (rolled_back s s', Inl (opt_else (g_fails E RollbackTx) m)))"

section \<open>The job\<close>

text \<open>An alert whose delivery fails to queue is skipped.\<close>

fun deliverAlerts :: "'n ingest_env \<Rightarrow> nat list \<Rightarrow> 'n ingest_state \<Rightarrow> 'n ingest_state" where
  "deliverAlerts E [] s = s"
| "deliverAlerts E (i # is) s =
     deliverAlerts E is
       (case g_fails E (QueueAlert i) of
          Some m \<Rightarrow> s
        | None \<Rightarrow>
            (case DeliverAlert_execute (g_notifier_enabled E) (g_now E) i FromIngestion None (i_store s, i_queue s) of
               ((db, q), r) \<Rightarrow> s\<lparr>i_store := db, i_queue := q\<rparr>))"

record job_result =
  insertedEntries :: nat
  createdAlerts :: nat
  jr_status :: nat

definition store_items ::
  "'n ingest_env \<Rightarrow> feed_view \<Rightarrow> fetch_result \<Rightarrow> feed_item list \<Rightarrow> 'n ingest_state \<Rightarrow> 'n ingest_state \<times> (string + job_result)" where
  "store_items E f resp items =
     and_then (call (g_fails E Connect) (\<lambda>s. (s, ()))) (\<lambda>_.
     and_then (in_transaction E (transaction_body E f resp (map (normalize_item E) items))) (\<lambda>(inserted, outcome) s.
       (deliverAlerts E (map created_id (created outcome)) s,
        Inr \<lparr>insertedEntries = length inserted, createdAlerts = length (created outcome), jr_status = statusCode resp\<rparr>)))"

definition feed_attempt ::
  "'n ingest_env \<Rightarrow> feed_view \<Rightarrow> 'n ingest_state \<Rightarrow> 'n ingest_state \<times> (string + job_result)" where
  "feed_attempt E f s =
     (case g_fetch E (fd_url f) \<lparr>fo_etag = fd_etag f, fo_last_modified = fd_last_modified f, fo_timeout = g_timeout E\<rparr> (i_net s) of
        (net, Inl m) \<Rightarrow> (s\<lparr>i_net := net\<rparr>, Inl m)
      | (net, Inr resp) \<Rightarrow>
          (let s = s\<lparr>i_net := net\<rparr> in
           if statusCode resp = 304 then
             and_then (call (g_fails E LogNotModified)
                         (recordFetchLog f (Some (statusCode resp)) (Some (durationMs resp)) False None)) (\<lambda>_.
             and_then (call (g_fails E ReportNotModified) (report (g_now E) (success_report (g_now E) f resp))) (\<lambda>_ s.
               (s, Inr \<lparr>insertedEntries = 0, createdAlerts = 0, jr_status = statusCode resp\<rparr>))) s
           else if 400 \<le> statusCode resp then (s, Inl (''Feed fetch failed with status '' @ dec (statusCode resp)))
           else (case g_parse E (fetch_body resp) of
                   Inl m \<Rightarrow> (s, Inl m)
                 | Inr items \<Rightarrow> store_items E f resp items s)))"

definition handle_failure ::
  "'n ingest_env \<Rightarrow> feed_view \<Rightarrow> string \<Rightarrow> 'n ingest_state \<Rightarrow> 'n ingest_state \<times> (string + job_result)" where
  "handle_failure E f message =
     (let nextErrorCount = fd_errors f + 1;
          classification = classifyFeedFailure (g_random E) message nextErrorCount (fd_poll f)
      in and_then (call (g_fails E LogFailure) (recordFetchLog f None None True (Some message))) (\<lambda>_.
         and_then (call (g_fails E ReportFailure)
                     (report (g_now E) (failure_report (g_now E) classification (fd_id f) nextErrorCount))) (\<lambda>_ s.
           if \<not> shouldRethrow classification
           then (s, Inr \<lparr>insertedEntries = 0, createdAlerts = 0, jr_status = 0\<rparr>)
           else (s, Inl message))))"

definition ProcessFeedJob_execute ::
  "'n ingest_env \<Rightarrow> nat \<Rightarrow> 'n ingest_state \<Rightarrow> 'n ingest_state \<times> (string + job_result)" where
  "ProcessFeedJob_execute E feedId =
     and_then (call (g_fails E SchemaCheck) (\<lambda>s. (s, ()))) (\<lambda>_.
     and_then (call (g_fails E ReadFeed) (\<lambda>s. (s, feed_for_worker feedId (i_feeds s)))) (\<lambda>found s.
       case found of
         None \<Rightarrow> (s, Inl ''feed_not_found'')
       | Some f \<Rightarrow> (case feed_attempt E f s of
                     (s', Inr r) \<Rightarrow> (s', Inr r)
                   | (s', Inl message) \<Rightarrow> handle_failure E f message s')))"

section \<open>What a run leaves\<close>

text \<open>The tables of articles and alerts, and the delivery queue, are as they were.\<close>

definition same_articles :: "'n ingest_state \<Rightarrow> 'n ingest_state \<Rightarrow> bool" where
  "same_articles s s' \<longleftrightarrow> entries (i_store s') = entries (i_store s) \<and> alerts (i_store s') = alerts (i_store s)
     \<and> digest_items (i_store s') = digest_items (i_store s) \<and> rules (i_store s') = rules (i_store s) \<and> i_queue s' = i_queue s"

text \<open>What a committed transaction did: the two writes, the log and the report.\<close>

definition stored :: "'n ingest_env \<Rightarrow> feed_view \<Rightarrow> fetch_result \<Rightarrow> entry_draft list \<Rightarrow> 'n ingest_state
    \<Rightarrow> stored_entry list \<Rightarrow> upsert_outcome \<Rightarrow> 'n ingest_state \<Rightarrow> bool" where
  "stored E f resp drafts s inserted outcome s' \<longleftrightarrow>
     (\<exists>db1 cache m db2.
        insertMany (g_unicode E) (g_now E) (fd_tenant f) (fd_id f) drafts (i_store s) = (db1, inserted)
        \<and> collect_matches (g_unicode E) (listActive (fd_tenant f) (rules db1)) inserted (i_cache s) = (cache, m)
        \<and> createForEntryWithRules (g_parseURL E) (g_now E) m db1 = Inr (outcome, db2)
        \<and> s' = s\<lparr>i_feeds := updateAfterFetch (g_now E) (success_report (g_now E) f resp) (i_feeds s), i_store := db2,
              i_logs := i_logs s @ [\<lparr>fl_feed = fd_id f, fl_tenant = fd_tenant f, fl_status = Some (statusCode resp),
                fl_ms = Some (durationMs resp), fl_error = False, fl_message = None\<rparr>], i_cache := cache\<rparr>)"

lemma transaction_commits:
  assumes "transaction_body E f resp drafts s = (s', Inr (inserted, outcome))"
  shows "stored E f resp drafts s inserted outcome s'"
  using assms
  unfolding transaction_body_def insert_step_def match_step_def alerts_step_def recordFetchLog_def report_def stored_def
  by (auto simp: and_then_def call_def split: prod.splits sum.splits option.splits)

lemma transaction_keeps_queue:
  assumes "transaction_body E f resp drafts s = (s', r)"
  shows "i_queue s' = i_queue s \<and> i_net s' = i_net s"
  using assms
  unfolding transaction_body_def insert_step_def match_step_def alerts_step_def recordFetchLog_def report_def
  by (auto simp: and_then_def call_def split: prod.splits sum.splits option.splits)

lemma in_transaction_cases:
  assumes "in_transaction E (transaction_body E f resp drafts) s = (s', r)"
  obtains (commit) inserted outcome where "r = Inr (inserted, outcome)" "stored E f resp drafts s inserted outcome s'"
      "transaction_body E f resp drafts s = (s', Inr (inserted, outcome))"
  | (abort) m where "r = Inl m" "same_articles s s'" "i_feeds s' = i_feeds s" "i_logs s' = i_logs s"
proof (cases "transaction_body E f resp drafts s")
  case (Pair s1 r1)
  show thesis
  proof (cases r1)
    case (Inl m)
    have "same_articles s (rolled_back s s1)"
      using transaction_keeps_queue [OF Pair] by (simp add: same_articles_def rolled_back_def)
    with Inl Pair assms abort show thesis by (auto simp: in_transaction_def rolled_back_def)
  next
    case (Inr x)
    obtain inserted outcome where x: "x = (inserted, outcome)" by fastforce
    with Inr Pair assms have "s' = s1" "r = Inr (inserted, outcome)" by (auto simp: in_transaction_def)
    with Inr Pair x commit transaction_commits show thesis by blast
  qed
qed

text \<open>Delivery changes the states of alerts and the queue only.\<close>

lemma deliver_keeps:
  assumes "DeliverAlert_execute en now i FromIngestion None (db, q) = ((db', q'), r)"
  shows "entries db' = entries db \<and> length (alerts db') = length (alerts db) \<and> digest_items db' = digest_items db
    \<and> rules db' = rules db \<and> alert_rules db' k = alert_rules db k \<and> length q' \<le> length q + 1"
proof -
  have upd: "entries (update_alert i g db) = entries db \<and> length (alerts (update_alert i g db)) = length (alerts db)
      \<and> digest_items (update_alert i g db) = digest_items db \<and> rules (update_alert i g db) = rules db
      \<and> alert_rules (update_alert i g db) k = alert_rules db k"
    if g: "\<And>a. alert_key (g a) = alert_key a" "\<And>a. matched_rules (g a) = matched_rules a" for g
  proof -
    have "row_by alert_key k (sql_update p g (alerts db))
        = map_option (\<lambda>r. if p r then g r else r) (row_by alert_key k (alerts db))" for p
      using g(1) by (intro keyed_update.row_by_update) (simp add: keyed_update_def)
    then show ?thesis using g by (auto simp: update_alert_def row_simps alert_rules_def split: option.splits)
  qed
  have "\<And>a. alert_key (queued_row now a) = alert_key a" "\<And>a. matched_rules (queued_row now a) = matched_rules a"
    "\<And>a. alert_key (disabled_row now a) = alert_key a" "\<And>a. matched_rules (disabled_row now a) = matched_rules a"
    by (simp_all add: alert_key_def queued_row_def disabled_row_def)
  then have u: "entries (update_alert i h db) = entries db \<and> length (alerts (update_alert i h db)) = length (alerts db)
      \<and> digest_items (update_alert i h db) = digest_items db \<and> rules (update_alert i h db) = rules db
      \<and> alert_rules (update_alert i h db) k = alert_rules db k" if "h \<in> {queued_row now, disabled_row now}" for h
    using upd that by blast
  show ?thesis
    using assms u [of "queued_row now"] u [of "disabled_row now"]
    unfolding DeliverAlert_execute_def deliver_found_def markDeliveryDisabled_def markDeliveryQueued_def
    by (auto split: option.splits if_splits)
qed

lemma deliverAlerts_keeps:
  "entries (i_store (deliverAlerts E is s)) = entries (i_store s)
     \<and> length (alerts (i_store (deliverAlerts E is s))) = length (alerts (i_store s))
     \<and> rules (i_store (deliverAlerts E is s)) = rules (i_store s)
     \<and> alert_rules (i_store (deliverAlerts E is s)) k = alert_rules (i_store s) k
     \<and> length (i_queue (deliverAlerts E is s)) \<le> length (i_queue s) + length is
     \<and> i_feeds (deliverAlerts E is s) = i_feeds s \<and> i_logs (deliverAlerts E is s) = i_logs s"
proof (induction "is" arbitrary: s)
  case (Cons i "is")
  let ?s1 = "case g_fails E (QueueAlert i) of Some m \<Rightarrow> s
    | None \<Rightarrow> (case DeliverAlert_execute (g_notifier_enabled E) (g_now E) i FromIngestion None (i_store s, i_queue s) of
               ((db, q), r) \<Rightarrow> s\<lparr>i_store := db, i_queue := q\<rparr>)"
  have "entries (i_store ?s1) = entries (i_store s) \<and> length (alerts (i_store ?s1)) = length (alerts (i_store s))
     \<and> rules (i_store ?s1) = rules (i_store s) \<and> alert_rules (i_store ?s1) k = alert_rules (i_store s) k
     \<and> length (i_queue ?s1) \<le> length (i_queue s) + 1 \<and> i_feeds ?s1 = i_feeds s \<and> i_logs ?s1 = i_logs s"
    using deliver_keeps [of "g_notifier_enabled E" "g_now E" i "i_store s" "i_queue s" _ _ _ k]
    by (auto split: option.splits prod.splits)
  with Cons.IH [of ?s1] show ?case by simp
qed simp

lemma store_items_cases:
  assumes "store_items E f resp items s = (s', r)"
  obtains (committed) s1 inserted outcome where
      "stored E f resp (map (normalize_item E) items) s inserted outcome s1"
      "s' = deliverAlerts E (map created_id (created outcome)) s1"
      "r = Inr \<lparr>insertedEntries = length inserted, createdAlerts = length (created outcome), jr_status = statusCode resp\<rparr>"
  | (aborted) m where "r = Inl m" "same_articles s s'" "i_feeds s' = i_feeds s" "i_logs s' = i_logs s"
  using assms unfolding store_items_def
proof (cases rule: and_then_cases)
  case (stop e)
  then have "s' = s" by (auto elim!: call_cases)
  then show thesis using stop(2) aborted by (simp add: same_articles_def)
next
  case (go s1 x)
  have s1: "s1 = s" using go(1) by (auto elim!: call_cases)
  from go(2) [unfolded s1] show thesis
  proof (cases rule: and_then_cases)
    case (stop e)
    from stop(1) show thesis
    proof (cases rule: in_transaction_cases)
      case (abort m)
      with stop(2) aborted show thesis by blast
    qed simp
  next
    case (go s2 y)
    from go(1) show thesis
    proof (cases rule: in_transaction_cases)
      case (commit inserted outcome)
      with go(2) committed show thesis by auto
    qed simp
  qed
qed

lemma feed_attempt_cases:
  assumes "feed_attempt E f s = (s', r)"
  obtains (committed) net resp items s1 inserted outcome where
      "g_parse E (fetch_body resp) = Inr items"
      "stored E f resp (map (normalize_item E) items) (s\<lparr>i_net := net\<rparr>) inserted outcome s1"
      "s' = deliverAlerts E (map created_id (created outcome)) s1"
      "r = Inr \<lparr>insertedEntries = length inserted, createdAlerts = length (created outcome), jr_status = statusCode resp\<rparr>"
  | (not_modified) resp where "r = Inr \<lparr>insertedEntries = 0, createdAlerts = 0, jr_status = 304\<rparr>" "same_articles s s'"
      "i_feeds s' = updateAfterFetch (g_now E) (success_report (g_now E) f resp) (i_feeds s)" "prefix (i_logs s) (i_logs s')"
      "i_logs s' \<noteq> i_logs s"
  | (failed) m where "r = Inl m" "same_articles s s'" "i_feeds s' = i_feeds s" "prefix (i_logs s) (i_logs s')"
proof -
  obtain net fr where fetch: "g_fetch E (fd_url f) \<lparr>fo_etag = fd_etag f, fo_last_modified = fd_last_modified f,
      fo_timeout = g_timeout E\<rparr> (i_net s) = (net, fr)" by fastforce
  show thesis
  proof (cases fr)
    case (Inl m)
    with assms fetch failed show thesis by (auto simp: feed_attempt_def same_articles_def)
  next
    case (Inr resp)
    note run = assms [unfolded feed_attempt_def fetch Inr, simplified, unfolded Let_def]
    consider "statusCode resp = 304" | "statusCode resp \<noteq> 304" "400 \<le> statusCode resp" | "\<not> 400 \<le> statusCode resp" "statusCode resp \<noteq> 304"
      by blast
    then show thesis
    proof cases
      case 1
      with run not_modified [of resp] failed show thesis
        by (auto simp: same_articles_def recordFetchLog_def report_def elim!: and_then_cases call_cases)
    next
      case 2
      with run failed show thesis by (auto simp: same_articles_def)
    next
      case 3
      show thesis
      proof (cases "g_parse E (fetch_body resp)")
        case (Inl m)
        with run 3 failed show thesis by (auto simp: same_articles_def)
      next
        case (Inr items)
        with run 3 have "store_items E f resp items (s\<lparr>i_net := net\<rparr>) = (s', r)" by simp
        then show thesis
        proof (cases rule: store_items_cases)
          case (committed s1 inserted outcome)
          with Inr that(1) show thesis by blast
        next
          case (aborted m)
          with failed show thesis by (auto simp: same_articles_def)
        qed
      qed
    qed
  qed
qed

lemma handle_failure_result:
  assumes "handle_failure E f m s = (s', r)"
  shows "same_articles s s' \<and> prefix (i_logs s) (i_logs s')
    \<and> (case r of Inl _ \<Rightarrow> True | Inr res \<Rightarrow> insertedEntries res = 0 \<and> createdAlerts res = 0)
    \<and> (g_fails E LogFailure = None \<longrightarrow> g_fails E ReportFailure = None \<longrightarrow>
         i_logs s' \<noteq> i_logs s
         \<and> i_feeds s' = updateAfterFetch (g_now E) (failure_report (g_now E)
             (classifyFeedFailure (g_random E) m (fd_errors f + 1) (fd_poll f)) (fd_id f) (fd_errors f + 1)) (i_feeds s))"
  using assms unfolding handle_failure_def Let_def
  by (auto simp: same_articles_def recordFetchLog_def report_def elim!: and_then_cases call_cases split: if_splits)

lemma execute_cases:
  assumes "ProcessFeedJob_execute E i s = (s', r)"
  obtains (early) m where "s' = s" "r = Inl m"
      "g_fails E SchemaCheck \<noteq> None \<or> g_fails E ReadFeed \<noteq> None \<or> row_by fd_id i (feeds (i_feeds s)) = None"
  | (finished) f res where "row_by fd_id i (feeds (i_feeds s)) = Some f" "feed_attempt E (mapFeed f) s = (s', Inr res)" "r = Inr res"
  | (failure) f m s1 where "row_by fd_id i (feeds (i_feeds s)) = Some f" "feed_attempt E (mapFeed f) s = (s1, Inl m)"
      "handle_failure E (mapFeed f) m s1 = (s', r)"
proof (cases "g_fails E SchemaCheck = None \<and> g_fails E ReadFeed = None")
  case True
  show thesis
  proof (cases "row_by fd_id i (feeds (i_feeds s))")
    case None
    with True assms early show thesis
      by (auto simp: ProcessFeedJob_execute_def and_then_def call_def feed_for_worker_def)
  next
    case (Some f)
    with True assms that(2,3) show thesis
      by (auto simp: ProcessFeedJob_execute_def and_then_def call_def feed_for_worker_def split: prod.splits sum.splits)
  qed
next
  case False
  with assms early show thesis
    by (auto simp: ProcessFeedJob_execute_def and_then_def call_def split: option.splits)
qed

lemma deliverAlerts_feeds [simp]:
  "i_feeds (deliverAlerts E is s) = i_feeds s" "i_logs (deliverAlerts E is s) = i_logs s"
  "entries (i_store (deliverAlerts E is s)) = entries (i_store s)"
  "length (alerts (i_store (deliverAlerts E is s))) = length (alerts (i_store s))"
  using deliverAlerts_keeps by blast+

section \<open>Counts\<close>

text \<open>A committed run, over tables that satisfy their constraints.\<close>

lemma stored_effect:
  assumes st: "stored E f resp drafts s inserted outcome s'" and "alerts_ok (i_store s)" and "entries_ok (i_store s)"
    and "\<forall>e \<in> set (entries (i_store s)). unit_separator \<notin> set (entry_tenant e)" and "unit_separator \<notin> set (fd_tenant f)"
  shows "alerts_ok (i_store s') \<and> entries_ok (i_store s')
    \<and> (\<exists>new. entries (i_store s') = entries (i_store s) @ new \<and> inserted = map mapEntry new
         \<and> (\<forall>e \<in> set new. entry_tenant e = fd_tenant f \<and> entry_feed e = fd_id f \<and> next_entry (i_store s) \<le> entry_id e
              \<and> (\<exists>d \<in> set drafts. e = new_entry (g_unicode E) (entry_id e) (g_now E) (fd_tenant f) (fd_id f) d))
         \<and> (\<forall>k. alert_rules (i_store s') k = alert_rules (i_store s) k \<union>
              (\<Union>e \<in> {e \<in> set (entries (i_store s')). link_key (g_parseURL E) e = k}.
                 matched_by (snd (collect_matches (g_unicode E) (listActive (fd_tenant f) (rules (i_store s)))
                   inserted (i_cache s))) e)))
    \<and> length (alerts (i_store s')) = length (alerts (i_store s)) + length (created outcome)
    \<and> i_queue s' = i_queue s
    \<and> i_feeds s' = updateAfterFetch (g_now E) (success_report (g_now E) f resp) (i_feeds s)
    \<and> rules (i_store s') = rules (i_store s)
    \<and> (\<forall>d \<in> set drafts. list_ex (entry_conflict (fd_id f) d) (entries (i_store s')))"
proof -
  from st obtain db1 cache m db2 where
    ins: "insertMany (g_unicode E) (g_now E) (fd_tenant f) (fd_id f) drafts (i_store s) = (db1, inserted)"
    and m: "collect_matches (g_unicode E) (listActive (fd_tenant f) (rules db1)) inserted (i_cache s) = (cache, m)"
    and cr: "createForEntryWithRules (g_parseURL E) (g_now E) m db1 = Inr (outcome, db2)"
    and s': "i_store s' = db2" "i_queue s' = i_queue s"
      "i_feeds s' = updateAfterFetch (g_now E) (success_report (g_now E) f resp) (i_feeds s)"
    by (auto simp: stored_def)
  note r = insertMany_result [OF ins assms(3)]
  then obtain new where new: "entries db1 = entries (i_store s) @ new" "inserted = map mapEntry new"
    "\<forall>e \<in> set new. entry_tenant e = fd_tenant f \<and> entry_feed e = fd_id f \<and> next_entry (i_store s) \<le> entry_id e
       \<and> (\<exists>d \<in> set drafts. e = new_entry (g_unicode E) (entry_id e) (g_now E) (fd_tenant f) (fd_id f) d)"
    by blast
  have tabs: "alerts db1 = alerts (i_store s)" "next_alert db1 = next_alert (i_store s)" "rules db1 = rules (i_store s)"
    using r by (simp_all add: same_alert_tables_def)
  then have ok1: "alerts_ok db1" and rules1: "alert_rules db1 k = alert_rules (i_store s) k" for k
    using assms(2) by (simp_all add: alerts_ok_def alert_rules_def)
  have free: "\<forall>e \<in> set (entries db1). unit_separator \<notin> set (entry_tenant e)"
    using new assms(4,5) by auto
  from createForEntryWithRules_spec [OF ok1 free, of "g_parseURL E" "g_now E" m] cr
  have c: "alerts_ok db2" "same_rest db1 db2"
    "map returned_alert (alerts db2) = map returned_alert (alerts db1) @ created outcome"
    "\<forall>k. alert_rules db2 k =
          alert_rules db1 k \<union> (\<Union>e \<in> {e \<in> set (entries db1). link_key (g_parseURL E) e = k}. matched_by m e)"
    by auto
  have e2: "entries db2 = entries db1" "next_entry db2 = next_entry db1" "rules db2 = rules db1"
    using c(2) by (simp_all add: same_rest_def)
  have "entries_ok db1" using r by blast
  then have "entries_ok db2" using e2 by (simp add: entries_ok_def)
  moreover have "length (alerts db2) = length (alerts (i_store s)) + length (created outcome)"
    using arg_cong [OF c(3), of length] tabs(1) by simp
  ultimately show ?thesis
    using c(1,4) new r e2 tabs rules1 m s' by (intro conjI exI [of _ new]) simp_all
qed

text \<open>
  C23: Whatever fails on the way, a run that fails leaves articles, alerts and the delivery queue as they were; a
  run that returns added exactly as many articles and alerts as it reports, keeps every earlier article, and
  queued at most one delivery for each new alert.
\<close>

theorem job_counts_are_exact:
  assumes "ProcessFeedJob_execute E i s = (s', r)" and "alerts_ok (i_store s)" and "entries_ok (i_store s)"
    and "\<forall>e \<in> set (entries (i_store s)). unit_separator \<notin> set (entry_tenant e)"
    and "\<forall>f \<in> set (feeds (i_feeds s)). unit_separator \<notin> set (fd_tenant f)"
  shows "case r of
      Inl m \<Rightarrow> same_articles s s'
    | Inr res \<Rightarrow> (\<exists>new. entries (i_store s') = entries (i_store s) @ new \<and> length new = insertedEntries res)
        \<and> length (alerts (i_store s')) = length (alerts (i_store s)) + createdAlerts res
        \<and> length (i_queue s') \<le> length (i_queue s) + createdAlerts res"
  using assms(1)
proof (cases rule: execute_cases)
  case (early m)
  then show ?thesis by (simp add: same_articles_def)
next
  case (failure f m s1)
  from failure(2) have "same_articles s s1" by (cases rule: feed_attempt_cases) auto
  with handle_failure_result [OF failure(3)] show ?thesis
    by (auto simp: same_articles_def split: sum.splits)
next
  case (finished f res)
  then have tenant: "unit_separator \<notin> set (fd_tenant (mapFeed f))" using row_by_SomeD assms(5) by fastforce
  from finished(2) show ?thesis
  proof (cases rule: feed_attempt_cases)
    case (committed net resp items s1 inserted outcome)
    have pre: "alerts_ok (i_store (s\<lparr>i_net := net\<rparr>))" "entries_ok (i_store (s\<lparr>i_net := net\<rparr>))"
      "\<forall>e \<in> set (entries (i_store (s\<lparr>i_net := net\<rparr>))). unit_separator \<notin> set (entry_tenant e)"
      using assms(2-4) by simp_all
    note eff = stored_effect [OF committed(2) pre tenant]
    have "length (i_queue s') \<le> length (i_queue s1) + length (created outcome)"
      using deliverAlerts_keeps [of E "map created_id (created outcome)" s1] committed(3) by simp
    then show ?thesis using eff committed(3,4) finished(3) by auto
  qed (use finished in \<open>simp_all add: same_articles_def\<close>)
qed

section \<open>Every run gives the feed back\<close>

lemma next_check_bound:
  assumes "0 \<le> draw" and "draw < 1"
  shows "nextCheckInSeconds (classifyFeedFailure draw m k poll) < 52200"
proof -
  have "base_backoff poll k \<le> 21600" by (simp add: base_backoff_def)
  then show ?thesis
    using error_backoff_bounds [OF assms, of poll k] auto_pause_bounds [OF assms, of 43200] auto_pause_bounds [OF assms, of 50400]
    by (auto simp: classifyFeedFailure_def Let_def DNS_AUTO_PAUSE_DELAY_SECONDS_def BLOCKED_AUTO_PAUSE_DELAY_SECONDS_def)
qed

lemma report_fields [simp]:
  "fr_feed (success_report now f resp) = fd_id f" "fr_next_check (success_report now f resp) = Some (now + fd_poll f * 1000)"
  "fr_feed (failure_report now c i k) = i" "fr_next_check (failure_report now c i k) = Some (now + nextCheckInSeconds c * 1000)"
  by (simp_all add: success_report_def failure_report_def)

lemma row_after_report:
  "row_by fd_id j (feeds (updateAfterFetch now r db)) =
     (if j = fr_feed r then map_option (report_row now r) (row_by fd_id j (feeds db)) else row_by fd_id j (feeds db))"
  by (simp add: updateAfterFetch_def reported_row.row_by_update_key)

text \<open>
  C24: When the feed can be read and a failure can be recorded, every run of its job ends with the feed
  unclaimed and its next check at most the longer of its poll interval and 14.5 hours ahead, whatever the
  fetch, the parser and the transaction do; it writes a log and touches no other feed.
\<close>

theorem every_run_releases_the_claim:
  assumes "ProcessFeedJob_execute E i s = (s', r)" and "row_by fd_id i (feeds (i_feeds s)) = Some f"
    and "\<forall>x \<in> {SchemaCheck, ReadFeed, LogFailure, ReportFailure}. g_fails E x = None"
    and "0 \<le> g_random E" and "g_random E < 1"
  shows "(\<exists>f'. row_by fd_id i (feeds (i_feeds s')) = Some f' \<and> fd_claimed f' = None
      \<and> fd_next_check f' \<le> g_now E + max (fd_poll f) 52200 * 1000)
    \<and> (\<forall>j. j \<noteq> i \<longrightarrow> row_by fd_id j (feeds (i_feeds s')) = row_by fd_id j (feeds (i_feeds s)))
    \<and> prefix (i_logs s) (i_logs s') \<and> i_logs s' \<noteq> i_logs s"
proof -
  have id: "fd_id f = i" using row_by_SomeD [OF assms(2)] by simp
  have rep: ?thesis
    if "i_feeds s' = updateAfterFetch (g_now E) rp (i_feeds s)" "fr_feed rp = i"
      "fr_next_check rp = Some (g_now E + n * 1000)" "n \<le> max (fd_poll f) 52200"
      "prefix (i_logs s) (i_logs s')" "i_logs s' \<noteq> i_logs s" for rp n
    using that assms(2) unfolding that(1) row_after_report by (simp add: report_row_def)
  from assms(1) show ?thesis
  proof (cases rule: execute_cases)
    case (early m)
    then show ?thesis using assms(2,3) by simp
  next
    case (finished f0 res)
    then have f0: "f0 = f" using assms(2) by simp
    from finished(2) show ?thesis
    proof (cases rule: feed_attempt_cases)
      case (committed net resp items s1 inserted outcome)
      then have "i_feeds s' = updateAfterFetch (g_now E) (success_report (g_now E) (mapFeed f) resp) (i_feeds s)"
        "prefix (i_logs s) (i_logs s')" "i_logs s' \<noteq> i_logs s"
        by (auto simp: stored_def f0)
      then show ?thesis by (intro rep [where n = "fd_poll f" and rp = "success_report (g_now E) (mapFeed f) resp"]) (simp_all add: id)
    next
      case (not_modified resp)
      then show ?thesis unfolding f0 by (intro rep [where n = "fd_poll f" and rp = "success_report (g_now E) (mapFeed f) resp"]) (simp_all add: id)
    next
      case (failed m)
      then show ?thesis by simp
    qed
  next
    case (failure f0 m s1)
    then have f0: "f0 = f" using assms(2) by simp
    from failure(2) have s1: "i_feeds s1 = i_feeds s" "prefix (i_logs s) (i_logs s1)"
      by (cases rule: feed_attempt_cases, auto)+
    let ?c = "classifyFeedFailure (g_random E) m (fd_errors f + 1) (fd_poll f)"
    have h: "prefix (i_logs s1) (i_logs s') \<and> i_logs s' \<noteq> i_logs s1
        \<and> i_feeds s' = updateAfterFetch (g_now E) (failure_report (g_now E) ?c i (fd_errors f + 1)) (i_feeds s1)"
      using handle_failure_result [OF failure(3)] assms(3) by (simp add: f0 id)
    have "nextCheckInSeconds ?c \<le> max (fd_poll f) 52200"
      using next_check_bound [OF assms(4,5), of m "fd_errors f + 1" "fd_poll f"] by linarith
    moreover have "prefix (i_logs s) (i_logs s')" "i_logs s' \<noteq> i_logs s"
      using h s1(2) by (auto dest: prefix_order.trans prefix_order.antisym)
    ultimately show ?thesis
      using h s1(1) by (intro rep [where n = "nextCheckInSeconds ?c" and rp = "failure_report (g_now E) ?c i (fd_errors f + 1)"]) simp_all
  qed
qed

section \<open>What a run adds to the alerts\<close>

lemma matching_rules_sound:
  "cache_ok c \<Longrightarrow> cache_ok (fst (matching_rules U hay rs c))
     \<and> snd (matching_rules U hay rs c) = map rule_id (filter (rule_holds U hay) rs)"
proof (induction rs arbitrary: c)
  case (Cons r rs)
  from ruleMatches_sound [OF Cons.prems, of U hay r] Cons.IH [of "fst (ruleMatchesNormalizedText U hay r c)"]
  show ?case by (auto split: prod.splits)
qed simp

lemma collect_matches_sound:
  "cache_ok c \<Longrightarrow> distinct (map se_id es) \<Longrightarrow>
     cache_ok (fst (collect_matches U rs es c))
     \<and> (\<forall>i. map_of (snd (collect_matches U rs es c)) i =
          (case find (\<lambda>e. se_id e = i) es of
             None \<Rightarrow> None
           | Some e \<Rightarrow> (let ids = map rule_id (filter (rule_holds U (search_document U (se_title e) (se_content e))) rs)
                        in if ids = [] then None else Some ids)))"
proof (induction es arbitrary: c)
  case (Cons e es)
  let ?hay = "normalizeSearchText U (opt_else (se_title e) [] @ [32] @ opt_else (se_content e) [])"
  obtain c1 ids where m: "matching_rules U ?hay rs c = (c1, ids)" by fastforce
  then have 1: "cache_ok c1" "ids = map rule_id (filter (rule_holds U ?hay) rs)"
    using matching_rules_sound [OF Cons.prems(1), of U ?hay rs] by simp_all
  have absent: "find (\<lambda>x. se_id x = se_id e) es = None" using Cons.prems(2) by (simp add: find_None_iff) (metis image_eqI)
  obtain c2 mm where c: "collect_matches U rs es c1 = (c2, mm)" by fastforce
  from Cons.IH [OF 1(1)] Cons.prems(2) c
  have ih: "cache_ok c2" "\<forall>i. map_of mm i =
          (case find (\<lambda>e. se_id e = i) es of
             None \<Rightarrow> None
           | Some e \<Rightarrow> (let ids = map rule_id (filter (rule_holds U (search_document U (se_title e) (se_content e))) rs)
                        in if ids = [] then None else Some ids))" by simp_all
  have run: "collect_matches U rs (e # es) c = (c2, if ids \<noteq> [] then (se_id e, ids) # mm else mm)"
    using m c by simp
  have hay: "?hay = search_document U (se_title e) (se_content e)" by (simp add: search_document_def)
  show ?case
    unfolding run using ih absent 1(2) unfolding hay by (auto simp: Let_def)
qed simp

text \<open>The rules of a tenant an article satisfies.\<close>

definition article_rules :: "unicode \<Rightarrow> alert_db \<Rightarrow> entry \<Rightarrow> nat set" where
  "article_rules U db e =
     rule_id ` {r \<in> set (rules db). rule_tenant r = entry_tenant e \<and> rule_active r
                  \<and> rule_holds U (normalized_search_document e) r}"

lemma matched_by_new:
  assumes "cache_ok c" and ok: "distinct (map entry_id (old @ new))"
    and docs: "\<forall>e \<in> set new. entry_tenant e = t \<and> normalized_search_document e = search_document U (entry_title e) (entry_content e)"
    and "e \<in> set (old @ new)"
  shows "matched_by (snd (collect_matches U (listActive t (rules db)) (map mapEntry new) c)) e
    = (if e \<in> set new then article_rules U db e else {})"
proof -
  have ids: "map se_id (map mapEntry new) = map entry_id new" by (simp add: mapEntry_def)
  have "distinct (map se_id (map mapEntry new))" unfolding ids using ok by simp
  note cm = collect_matches_sound [OF assms(1) this, of U "listActive t (rules db)"]
  have active: "set (listActive t (rules db)) = {r \<in> set (rules db). rule_tenant r = t \<and> rule_active r}"
    by (simp add: listActive_def)
  show ?thesis
  proof (cases "e \<in> set new")
    case True
    have inj: "x = e" if "x \<in> set new" "entry_id x = entry_id e" for x
      using that ok True by (auto simp: distinct_map inj_on_def)
    have "find (\<lambda>x. se_id x = entry_id e) (map mapEntry new) = Some (mapEntry e)"
    proof -
      have "find (\<lambda>x. se_id x = entry_id e) (map mapEntry new) \<noteq> None"
        using True by (auto simp: find_None_iff mapEntry_def)
      then obtain y where y: "find (\<lambda>x. se_id x = entry_id e) (map mapEntry new) = Some y" by blast
      then have "y \<in> mapEntry ` set new" "se_id y = entry_id e" by (auto dest!: find_SomeD)
      then obtain x where x: "x \<in> set new" "y = mapEntry x" "entry_id x = entry_id e" by (auto simp: mapEntry_def)
      then have "x = e" using inj by blast
      with x y show ?thesis by simp
    qed
    then have m: "map_of (snd (collect_matches U (listActive t (rules db)) (map mapEntry new) c)) (entry_id e)
        = (let ids = map rule_id (filter (rule_holds U (search_document U (entry_title e) (entry_content e))) (listActive t (rules db)))
           in if ids = [] then None else Some ids)"
      using cm by (simp add: mapEntry_def)
    have doc: "normalized_search_document e = search_document U (entry_title e) (entry_content e)" "entry_tenant e = t"
      using docs True by simp_all
    have "matched_by (snd (collect_matches U (listActive t (rules db)) (map mapEntry new) c)) e
        = rule_id ` set (filter (rule_holds U (search_document U (entry_title e) (entry_content e))) (listActive t (rules db)))"
      unfolding matched_by_def m by (auto simp: Let_def filter_empty_conv)
    also have "\<dots> = article_rules U db e"
      by (auto simp: article_rules_def doc active)
    finally show ?thesis using True by simp
  next
    case False
    then have "e \<in> set old" using assms(4) by simp
    then have "entry_id e \<notin> entry_id ` set new" using ok by auto
    then have "find (\<lambda>x. se_id x = entry_id e) (map mapEntry new) = None"
      by (simp add: find_None_iff mapEntry_def) (metis image_eqI)
    then show ?thesis using cm False by (simp add: matched_by_def)
  qed
qed

text \<open>
  The abstract operation: the alerts of a tenant are, for each article link, a set of rules; new articles add
  the rules they satisfy.
\<close>

type_synonym alert_sets = "string \<times> string \<Rightarrow> nat set"

definition notice_articles ::
  "(string \<Rightarrow> url option) \<Rightarrow> (entry \<Rightarrow> nat set) \<Rightarrow> entry list \<Rightarrow> alert_sets \<Rightarrow> alert_sets" where
  "notice_articles parseURL satisfied new A k =
     A k \<union> (\<Union>e \<in> {e \<in> set new. link_key parseURL e = k}. satisfied e)"

definition new_articles :: "'n ingest_state \<Rightarrow> 'n ingest_state \<Rightarrow> entry list" where
  "new_articles s s' = drop (length (entries (i_store s))) (entries (i_store s'))"

lemma same_articles_notice:
  "same_articles s s' \<Longrightarrow> new_articles s s' = [] \<and> alert_rules (i_store s') = alert_rules (i_store s)"
  by (auto simp: same_articles_def new_articles_def alert_rules_def)

lemma new_entry_document:
  "normalized_search_document (new_entry U i now t f d)
     = search_document U (entry_title (new_entry U i now t f d)) (entry_content (new_entry U i now t f d))"
  by (simp add: new_entry_def)

lemma stored_refines:
  assumes st: "stored E f resp drafts s inserted outcome s'" and "alerts_ok (i_store s)" and "entries_ok (i_store s)"
    and "\<forall>e \<in> set (entries (i_store s)). unit_separator \<notin> set (entry_tenant e)" and "unit_separator \<notin> set (fd_tenant f)"
    and "cache_ok (i_cache s)"
  shows "alert_rules (i_store s') =
    notice_articles (g_parseURL E) (article_rules (g_unicode E) (i_store s)) (new_articles s s') (alert_rules (i_store s))"
proof
  fix k
  note eff = stored_effect [OF assms(1-5)]
  from conjunct1 [OF conjunct2 [OF conjunct2 [OF eff]]]
  obtain new where new: "entries (i_store s') = entries (i_store s) @ new" "inserted = map mapEntry new"
    "\<forall>e \<in> set new. entry_tenant e = fd_tenant f \<and> entry_feed e = fd_id f \<and> next_entry (i_store s) \<le> entry_id e
       \<and> (\<exists>d \<in> set drafts. e = new_entry (g_unicode E) (entry_id e) (g_now E) (fd_tenant f) (fd_id f) d)"
    and "\<forall>k. alert_rules (i_store s') k = alert_rules (i_store s) k \<union>
       (\<Union>e \<in> {e \<in> set (entries (i_store s')). link_key (g_parseURL E) e = k}.
          matched_by (snd (collect_matches (g_unicode E) (listActive (fd_tenant f) (rules (i_store s)))
            inserted (i_cache s))) e)"
    by (elim exE conjE)
  then have at_k: "alert_rules (i_store s') k = alert_rules (i_store s) k \<union>
       (\<Union>e \<in> {e \<in> set (entries (i_store s')). link_key (g_parseURL E) e = k}.
          matched_by (snd (collect_matches (g_unicode E) (listActive (fd_tenant f) (rules (i_store s)))
            inserted (i_cache s))) e)" by (elim allE)
  have docs: "\<forall>e \<in> set new. entry_tenant e = fd_tenant f
      \<and> normalized_search_document e = search_document (g_unicode E) (entry_title e) (entry_content e)"
  proof
    fix e assume "e \<in> set new"
    from bspec [OF new(3) this] obtain d where d: "entry_tenant e = fd_tenant f"
      "e = new_entry (g_unicode E) (entry_id e) (g_now E) (fd_tenant f) (fd_id f) d" by (elim conjE bexE)
    define n where "n = entry_id e"
    note e = d [folded n_def]
    show "entry_tenant e = fd_tenant f
      \<and> normalized_search_document e = search_document (g_unicode E) (entry_title e) (entry_content e)"
      using e(1) by (simp only: e(2) new_entry_document)
  qed
  have "entries_ok (i_store s')" using eff by blast
  then have "distinct (map entry_id (entries (i_store s) @ new))" unfolding new(1) [symmetric] entries_ok_def by blast
  note m = matched_by_new [OF assms(6) this docs, where db = "i_store s"]
  have "(\<Union>e \<in> {e \<in> set (entries (i_store s')). link_key (g_parseURL E) e = k}.
          matched_by (snd (collect_matches (g_unicode E) (listActive (fd_tenant f) (rules (i_store s)))
            inserted (i_cache s))) e)
      = (\<Union>e \<in> {e \<in> set (entries (i_store s) @ new). link_key (g_parseURL E) e = k}.
          if e \<in> set new then article_rules (g_unicode E) (i_store s) e else {})"
    unfolding new(1,2) using m by (intro SUP_cong) auto
  also have "\<dots> = (\<Union>e \<in> {e \<in> set new. link_key (g_parseURL E) e = k}. article_rules (g_unicode E) (i_store s) e)"
    by auto
  finally show "alert_rules (i_store s') k =
    notice_articles (g_parseURL E) (article_rules (g_unicode E) (i_store s)) (new_articles s s') (alert_rules (i_store s)) k"
    using at_k by (simp add: notice_articles_def new_articles_def new(1))
qed

text \<open>
  C25: A feed job implements the abstract operation: whatever its outcome, the rule sets of the alerts are those
  from before, extended by what the articles it added satisfy among the active rules of their tenant.
\<close>

theorem ingestion_refines_matching:
  assumes "ProcessFeedJob_execute E i s = (s', r)" and "alerts_ok (i_store s)" and "entries_ok (i_store s)"
    and "\<forall>e \<in> set (entries (i_store s)). unit_separator \<notin> set (entry_tenant e)"
    and "\<forall>f \<in> set (feeds (i_feeds s)). unit_separator \<notin> set (fd_tenant f)" and "cache_ok (i_cache s)"
  shows "alert_rules (i_store s') =
    notice_articles (g_parseURL E) (article_rules (g_unicode E) (i_store s)) (new_articles s s') (alert_rules (i_store s))"
proof -
  have none: ?thesis if "same_articles s s'"
    using same_articles_notice [OF that] by (simp add: notice_articles_def fun_eq_iff)
  from assms(1) show ?thesis
  proof (cases rule: execute_cases)
    case (early m)
    then show ?thesis by (intro none) (simp add: same_articles_def)
  next
    case (failure f m s1)
    from failure(2) have "same_articles s s1" by (cases rule: feed_attempt_cases) auto
    with handle_failure_result [OF failure(3)] have "same_articles s s'" by (auto simp: same_articles_def)
    then show ?thesis by (rule none)
  next
    case (finished f res)
    then have tenant: "unit_separator \<notin> set (fd_tenant (mapFeed f))" using row_by_SomeD assms(5) by fastforce
    from finished(2) show ?thesis
    proof (cases rule: feed_attempt_cases)
      case (committed net resp items s1 inserted outcome)
      have same: "i_store (s\<lparr>i_net := net\<rparr>) = i_store s" "i_cache (s\<lparr>i_net := net\<rparr>) = i_cache s" by simp_all
      note ref = stored_refines [OF committed(2), unfolded same, OF assms(2-4) tenant assms(6)]
      have "alert_rules (i_store s') = alert_rules (i_store s1)" "new_articles s s' = new_articles (s\<lparr>i_net := net\<rparr>) s1"
        using deliverAlerts_keeps [of E "map created_id (created outcome)" s1] committed(3)
        by (auto simp: new_articles_def)
      with ref show ?thesis by simp
    qed (use none in simp_all)
  qed
qed

section \<open>Fetching again\<close>

lemma same_article_identity:
  assumes "it_link item' = it_link item" and "it_guid item' = it_guid item"
    and "it_iso_date item' = it_iso_date item" and "it_pub_date item' = it_pub_date item"
  shows "ed_hash (normalize_item E item') = ed_hash (normalize_item E item)"
  using assms by (simp add: normalize_item_def Let_def)

lemma normalize_item_env: "normalize_item (E\<lparr>g_now := t, g_fails := ff, g_random := x, g_fetch := g\<rparr>) item = normalize_item E item"
  by (simp add: normalize_item_def article_hash_def Let_def)

lemma stored_nothing:
  assumes st: "stored E f resp drafts s inserted outcome s'"
    and seen: "\<forall>d \<in> set drafts. list_ex (entry_conflict (fd_id f) d) (entries (i_store s))"
  shows "inserted = [] \<and> created outcome = [] \<and> same_articles s s'"
proof -
  have "insertMany (g_unicode E) (g_now E) (fd_tenant f) (fd_id f) drafts (i_store s)
      = ((i_store s)\<lparr>next_entry := next_entry (i_store s) + length drafts\<rparr>, [])"
    by (rule insertMany_nothing [OF seen])
  then show ?thesis
    using st by (auto simp: stored_def createForEntryWithRules_def same_articles_def)
qed

text \<open>
  C26: Once the items of a document are stored, fetching items with the same link, guid and date again stores no
  article, creates no alert and queues no delivery, even when their titles and texts were revised and
  other articles were stored in between.
\<close>

theorem refetch_creates_nothing:
  assumes "store_items E f resp items s = (s1, Inr res)" and "alerts_ok (i_store s)" and "entries_ok (i_store s)"
    and "\<forall>e \<in> set (entries (i_store s)). unit_separator \<notin> set (entry_tenant e)" and "unit_separator \<notin> set (fd_tenant f)"
    and "prefix (entries (i_store s1)) (entries (i_store s2))"
    and "\<forall>item' \<in> set items'. \<exists>item \<in> set items. it_link item' = it_link item \<and> it_guid item' = it_guid item
           \<and> it_iso_date item' = it_iso_date item \<and> it_pub_date item' = it_pub_date item"
    and "store_items (E\<lparr>g_now := later, g_fails := faults\<rparr>) f' resp' items' s2 = (s3, r)" and "fd_id f' = fd_id f"
  shows "same_articles s2 s3
    \<and> (case r of Inl _ \<Rightarrow> True | Inr res' \<Rightarrow> insertedEntries res' = 0 \<and> createdAlerts res' = 0)"
proof -
  let ?E = "E\<lparr>g_now := later, g_fails := faults\<rparr>"
  obtain sm inserted outcome where st: "stored E f resp (map (normalize_item E) items) s inserted outcome sm"
      "s1 = deliverAlerts E (map created_id (created outcome)) sm"
    using assms(1) by (cases rule: store_items_cases) auto
  have old: "\<forall>d \<in> set (map (normalize_item E) items). list_ex (entry_conflict (fd_id f) d) (entries (i_store s2))"
    using stored_effect [OF st(1) assms(2-5)] st(2) assms(6) by (auto simp: prefix_def)
  have "list_ex (entry_conflict (fd_id f') d') (entries (i_store s2))"
    if d': "d' \<in> set (map (normalize_item ?E) items')" for d'
  proof -
    obtain item' where i': "item' \<in> set items'" "d' = normalize_item ?E item'" using d' by auto
    then obtain item where i: "item \<in> set items" "it_link item' = it_link item" "it_guid item' = it_guid item"
      "it_iso_date item' = it_iso_date item" "it_pub_date item' = it_pub_date item" using assms(7) by blast
    have eq: "normalize_item ?E item' = normalize_item E item'"
      by (simp add: normalize_item_def article_hash_def Let_def)
    have h: "ed_hash d' = ed_hash (normalize_item E item)" "ed_guid d' = ed_guid (normalize_item E item)"
      unfolding i'(2) eq using i(2-5) by (simp_all add: normalize_item_def Let_def)
    have "list_ex (entry_conflict (fd_id f) (normalize_item E item)) (entries (i_store s2))" using old i(1) by simp
    then show ?thesis by (auto simp: list_ex_iff entry_conflict_def h assms(9))
  qed
  then have seen: "\<forall>d \<in> set (map (normalize_item ?E) items'). list_ex (entry_conflict (fd_id f') d) (entries (i_store s2))"
    by blast
  from assms(8) show ?thesis
  proof (cases rule: store_items_cases)
    case (committed s4 ins2 out2)
    from stored_nothing [OF committed(1) seen] committed(2,3) show ?thesis by simp
  next
    case (aborted m)
    then show ?thesis by simp
  qed
qed

section \<open>A run\<close>

definition news_item :: feed_item where
  "news_item = \<lparr>it_title = Some [97], it_link = None, it_guid = GuidNode (Some ''g''), it_snippet = None, it_content = None,
     it_iso_date = None, it_pub_date = None\<rparr>"

definition news_response :: fetch_result where
  "news_response = \<lparr>statusCode = 200, fetch_body = [], resp_etag = Some ''e'', resp_last_modified = None, durationMs = 12,
     resp_final_url = None, retryAfterSeconds = None\<rparr>"

definition news_env :: "unit ingest_env" where
  "news_env = \<lparr>g_fetch = (\<lambda>u opts n. (n, Inr news_response)), g_timeout = 10000, g_parse = (\<lambda>b. Inr [news_item]),
     g_date = (\<lambda>s. None), g_iso = dec, g_sha256 = (\<lambda>s. s),
     g_unicode = \<lparr>nfd = (\<lambda>v. v), lower_case = (\<lambda>v. v), letter_or_digit = (\<lambda>c. 97 \<le> c)\<rparr>, g_parseURL = (\<lambda>s. None),
     g_notifier_enabled = True, g_now = 100, g_random = 1 / 2, g_fails = (\<lambda>x. None)\<rparr>"

definition news_rule :: rule where
  "news_rule = new_rule 1 3 ''acme'' \<lparr>rd_name = ''ai'', rd_include = [[97]], rd_exclude = [], rd_active = True\<rparr>"

definition news_state :: "unit ingest_state" where
  "news_state = \<lparr>i_feeds = \<lparr>feeds = [idle_feed], next_feed = 8\<rparr>,
     i_store = \<lparr>alerts = [], next_alert = 1, digest_items = [], next_item = 1, entries = [], next_entry = 1,
       rules = [news_rule]\<rparr>,
     i_logs = [], i_queue = [], i_cache = [], i_net = ()\<rparr>"

lemma news_state_ok:
  "alerts_ok (i_store news_state)" "entries_ok (i_store news_state)" "cache_ok (i_cache news_state)"
  "\<forall>e \<in> set (entries (i_store news_state)). unit_separator \<notin> set (entry_tenant e)"
  "\<forall>f \<in> set (feeds (i_feeds news_state)). unit_separator \<notin> set (fd_tenant f)"
  "row_by fd_id 7 (feeds (i_feeds news_state)) = Some idle_feed"
  by (simp_all add: news_state_def alerts_ok_def entries_ok_def cache_ok_empty idle_feed_def unit_separator_def row_simps)


lemma news_draft: "normalize_item news_env news_item = \<lparr>ed_title = Some [97], ed_link = None, ed_guid = Some ''g'', ed_content = None,
    ed_hash = ''|g|'', ed_published = None\<rparr>"
  by (simp add: normalize_item_def article_hash_def news_env_def news_item_def js_trim_def drop_end_def js_ws_def
      normalizePublishedAt_def utrim_def js_space_def)

lemma news_text: "normalizeSearchText (g_unicode news_env) [97, 32] = [97]" "normalizeSearchText (g_unicode news_env) [97] = [97]"
  by (simp_all add: normalizeSearchText_def news_env_def combining_mark_def js_space_def utrim_def drop_end_def)

definition news_entry :: entry where
  "news_entry = \<lparr>entry_id = 1, entry_tenant = ''acme'', entry_feed = 7, entry_title = Some [97], entry_link = None,
     entry_guid = Some ''g'', entry_content = None, content_hash = ''|g|'', normalized_search_document = [97],
     published_at = None, fetched_at = 100\<rparr>"

lemma news_insert:
  "insertMany (g_unicode news_env) 100 ''acme'' 7 [normalize_item news_env news_item] (i_store news_state)
     = ((i_store news_state)\<lparr>next_entry := 2, entries := [news_entry]\<rparr>, [mapEntry news_entry])"
  by (simp add: insert_entry_def news_draft news_state_def new_entry_def search_document_def news_text news_entry_def Let_def)

lemma news_rule_holds: "rule_holds (g_unicode news_env) [97] news_rule"
proof -
  have "occurs_whole (g_unicode news_env) [97] [97]" unfolding occurs_whole_def by (intro exI [of _ "[]"]) simp
  then show ?thesis by (simp add: rule_holds_def news_rule_def new_rule_def keyword_holds_def news_text)
qed

lemma news_active: "listActive ''acme'' (rules (i_store news_state)) = [news_rule]" "rule_id news_rule = 1"
  by (simp_all add: listActive_def news_state_def news_rule_def new_rule_def)

lemma news_matches:
  "\<exists>c. collect_matches (g_unicode news_env) [news_rule] [mapEntry news_entry] [] = (c, [(1, [1])])"
proof -
  have "snd (matching_rules (g_unicode news_env) [97] [news_rule] []) = [1]"
    using matching_rules_sound [OF cache_ok_empty, of "g_unicode news_env" "[97]" "[news_rule]"] news_rule_holds
    by (simp add: news_active(2))
  then obtain c where m: "matching_rules (g_unicode news_env) [97] [news_rule] [] = (c, [1])"
    by (cases "matching_rules (g_unicode news_env) [97] [news_rule] []") simp
  have hay: "normalizeSearchText (g_unicode news_env) (opt_else (se_title (mapEntry news_entry)) [] @ [32]
      @ opt_else (se_content (mapEntry news_entry)) []) = [97]" and i: "se_id (mapEntry news_entry) = 1"
    by (simp_all add: mapEntry_def news_entry_def news_text)
  show ?thesis unfolding collect_matches.simps hay m i by simp
qed

lemma news_upsert:
  "map_sum id fst (createForEntryWithRules (\<lambda>s. None) 100 [(1, [1])] ((i_store news_state)\<lparr>next_entry := 2, entries := [news_entry]\<rparr>))
     = Inr \<lparr>created = [\<lparr>created_id = 1, created_entry = 1, created_rule = 1\<rparr>], ruleSetExtended = []\<rparr>"
  by code_simp


lemma news_run:
  "snd (ProcessFeedJob_execute news_env 7 news_state) = Inr \<lparr>insertedEntries = 1, createdAlerts = 1, jr_status = 200\<rparr>"
proof -
  let ?db1 = "(i_store news_state)\<lparr>next_entry := 2, entries := [news_entry]\<rparr>"
  obtain c where c: "collect_matches (g_unicode news_env) [news_rule] [mapEntry news_entry] [] = (c, [(1, [1])])"
    using news_matches by blast
  obtain db2 where u: "createForEntryWithRules (\<lambda>s. None) 100 [(1, [1])] ?db1
      = Inr (\<lparr>created = [\<lparr>created_id = 1, created_entry = 1, created_rule = 1\<rparr>], ruleSetExtended = []\<rparr>, db2)"
    using news_upsert by (cases "createForEntryWithRules (\<lambda>s. None) 100 [(1, [1])] ?db1") auto
  have env: "g_fails news_env x = None" "g_now news_env = 100" "g_parseURL news_env = (\<lambda>s. None)"
    "g_fetch news_env u opts n = (n, Inr news_response)" "g_parse news_env b = Inr [news_item]" "statusCode news_response = 200"
    for x u opts n b
    by (simp_all add: news_env_def news_response_def)
  have st: "feed_for_worker 7 (i_feeds news_state) = Some (mapFeed idle_feed)" "i_cache news_state = []"
      "fd_tenant idle_feed = ''acme''" "fd_id idle_feed = 7"
    by (simp_all add: news_state_def feed_for_worker_def row_simps idle_feed_def)
  show ?thesis
    using news_insert c u
    by (simp add: ProcessFeedJob_execute_def and_then_def call_def env st feed_attempt_def Let_def store_items_def
        in_transaction_def transaction_body_def insert_step_def match_step_def alerts_step_def recordFetchLog_def report_def
        news_active find_None_iff)
qed

lemma job_counts_are_exact_witness:
  "\<exists>s' new. ProcessFeedJob_execute news_env 7 news_state = (s', Inr \<lparr>insertedEntries = 1, createdAlerts = 1, jr_status = 200\<rparr>)
     \<and> entries (i_store s') = entries (i_store news_state) @ new \<and> length new = 1 \<and> length (alerts (i_store s')) = 1
     \<and> length (i_queue s') \<le> 1"
proof -
  obtain s' where e: "ProcessFeedJob_execute news_env 7 news_state = (s', Inr \<lparr>insertedEntries = 1, createdAlerts = 1, jr_status = 200\<rparr>)"
    using news_run by (metis prod.collapse)
  have "alerts (i_store news_state) = []" "i_queue news_state = []" by (simp_all add: news_state_def)
  with job_counts_are_exact [OF e news_state_ok(1,2,4,5)] e show ?thesis by auto
qed

lemma every_run_releases_the_claim_witness:
  "\<exists>s' r f'. ProcessFeedJob_execute (news_env\<lparr>g_fetch := \<lambda>u opts n. (n, Inl ''fetch failed'')\<rparr>) 7 news_state = (s', r)
     \<and> row_by fd_id 7 (feeds (i_feeds s')) = Some f' \<and> fd_claimed idle_feed = Some 5 \<and> fd_claimed f' = None
     \<and> fd_next_check f' \<le> 100 + 52200 * 1000"
proof -
  let ?E = "news_env\<lparr>g_fetch := \<lambda>u opts n. (n, Inl ''fetch failed'')\<rparr>"
  obtain s' r where e: "ProcessFeedJob_execute ?E 7 news_state = (s', r)" by fastforce
  have env: "\<forall>x \<in> {SchemaCheck, ReadFeed, LogFailure, ReportFailure}. g_fails ?E x = None" "0 \<le> g_random ?E" "g_random ?E < 1"
    "g_now ?E = 100"
    by (simp_all add: news_env_def)
  have "fd_poll idle_feed = 1800" "fd_claimed idle_feed = Some 5" by (simp_all add: idle_feed_def)
  with every_run_releases_the_claim [OF e news_state_ok(6) env(1-3)] e env(4) show ?thesis by auto
qed

lemma ingestion_refines_matching_witness:
  "\<exists>s' r. ProcessFeedJob_execute news_env 7 news_state = (s', r)
     \<and> alert_rules (i_store s') = notice_articles (\<lambda>s. None) (article_rules (g_unicode news_env) (i_store news_state))
         (new_articles news_state s') (alert_rules (i_store news_state)) \<and> length (new_articles news_state s') = 1"
proof -
  obtain s' where e: "ProcessFeedJob_execute news_env 7 news_state = (s', Inr \<lparr>insertedEntries = 1, createdAlerts = 1, jr_status = 200\<rparr>)"
    using news_run by (metis prod.collapse)
  obtain new where "entries (i_store s') = entries (i_store news_state) @ new" "length new = 1"
    using job_counts_are_exact_witness e by auto
  then have "length (new_articles news_state s') = 1" by (simp add: new_articles_def)
  moreover have "g_parseURL news_env = (\<lambda>s. None)" by (simp add: news_env_def)
  ultimately show ?thesis
    using ingestion_refines_matching [OF e news_state_ok(1,2,4,5,3)] e by auto
qed

text \<open>The item with another title and another text.\<close>

definition revised_item :: feed_item where
  "revised_item = news_item\<lparr>it_title := Some [98], it_content := Some [97]\<rparr>"

lemma refetch_creates_nothing_witness:
  "\<exists>s1 s3 r. store_items news_env (mapFeed idle_feed) news_response [news_item] news_state
       = (s1, Inr \<lparr>insertedEntries = 1, createdAlerts = 1, jr_status = 200\<rparr>)
     \<and> store_items (news_env\<lparr>g_now := 200, g_fails := \<lambda>x. None\<rparr>) (mapFeed idle_feed) news_response [revised_item] s1 = (s3, r)
     \<and> same_articles s1 s3"
proof -
  let ?E = "news_env\<lparr>g_now := 200, g_fails := \<lambda>x. None\<rparr>"
  obtain s1 r1 where 1: "store_items news_env (mapFeed idle_feed) news_response [news_item] news_state = (s1, r1)" by fastforce
  obtain s3 r where 3: "store_items ?E (mapFeed idle_feed) news_response [revised_item] s1 = (s3, r)" by fastforce
  have env: "g_fails news_env x = None" "g_fetch news_env u opts n = (n, Inr news_response)" "g_parse news_env b = Inr [news_item]"
    "statusCode news_response = 200" for x u opts n b
    by (simp_all add: news_env_def news_response_def)
  have st: "feed_for_worker 7 (i_feeds news_state) = Some (mapFeed idle_feed)" "news_state\<lparr>i_net := ()\<rparr> = news_state"
    by (simp_all add: news_state_def feed_for_worker_def row_simps idle_feed_def)
  have net: "i_net news_state = ()" by simp
  have "feed_attempt news_env (mapFeed idle_feed) news_state = (s1, r1)"
    using 1 by (simp add: feed_attempt_def env st(2) net)
  then have r1: "r1 = Inr \<lparr>insertedEntries = 1, createdAlerts = 1, jr_status = 200\<rparr>"
  proof (cases r1)
    case (Inl m)
    then have "snd (handle_failure news_env (mapFeed idle_feed) m s1)
        = Inr \<lparr>insertedEntries = 1, createdAlerts = 1, jr_status = 200\<rparr>"
      using news_run \<open>feed_attempt news_env (mapFeed idle_feed) news_state = (s1, r1)\<close>
      by (simp add: ProcessFeedJob_execute_def and_then_def call_def env st(1))
    then obtain sf where "handle_failure news_env (mapFeed idle_feed) m s1
        = (sf, Inr \<lparr>insertedEntries = 1, createdAlerts = 1, jr_status = 200\<rparr>)" by (metis prod.collapse)
    from handle_failure_result [OF this] show ?thesis by simp
  next
    case (Inr x)
    then show ?thesis
      using news_run \<open>feed_attempt news_env (mapFeed idle_feed) news_state = (s1, r1)\<close>
      by (simp add: ProcessFeedJob_execute_def and_then_def call_def env st(1))
  qed
  have "\<forall>item' \<in> set [revised_item]. \<exists>item \<in> set [news_item]. it_link item' = it_link item \<and> it_guid item' = it_guid item
           \<and> it_iso_date item' = it_iso_date item \<and> it_pub_date item' = it_pub_date item"
    by (simp add: revised_item_def)
  moreover have "unit_separator \<notin> set (fd_tenant (mapFeed idle_feed))" by (simp add: idle_feed_def unit_separator_def)
  ultimately have "same_articles s1 s3"
    using refetch_creates_nothing [OF 1 [unfolded r1] news_state_ok(1,2,4) _ _ _ 3] by simp
  with 1 3 r1 show ?thesis by blast
qed

end
