(* ===== verification/Feed_Fetcher.thy ===== *)
theory Feed_Fetcher imports Ingestion Safe_Fetch begin

text \<open>
  The HTTP adapter of the fetcher port: \<open>HttpFeedFetcher\<close> and \<open>DomainRateLimiter\<close> of
  \<open>src/modules/ingestion/infrastructure\<close>. The world \<open>'n\<close> is the clock and the network: \<open>h_now\<close> is
  \<open>Date.now()\<close>, \<open>h_sleep\<close> a timer, \<open>h_transport\<close> one request; a timeout is an error of the transport that
  \<open>h_is_abort\<close> recognises. The two maps of the limiter are kept per host name. One caller at a time: the
  awaits of \<open>waitForSlot\<close> are not interleaved here.
  Theorems: the spacing of the requests of one caller; a feed with an unsafe URL is paused for good without
  a request; and the lemmas of the findings on the backoff.
\<close>

section \<open>The limiter\<close>

record limiter_config =
  requestsPerSecond :: nat
  maxBackoffMs :: nat
  baseBackoffMs :: nat

record limiter =
  lastRequestAt :: "string \<Rightarrow> nat option"
  backoffUntil :: "string \<Rightarrow> nat option"

record 'n http_env =
  h_now :: "'n \<Rightarrow> nat"
  h_sleep :: "rat \<Rightarrow> 'n \<Rightarrow> 'n"
  h_transport :: "'n transport"
  h_parse :: "string \<Rightarrow> url option"
  h_resolve :: "string \<Rightarrow> url \<Rightarrow> url option"
  h_decode :: text_decoder
  h_date :: "string \<Rightarrow> int option"
  h_env :: "string \<Rightarrow> string option"
  h_allow_private :: "bool option"
  h_max_bytes :: "int option"
  h_is_abort :: "string \<Rightarrow> bool"
  h_limits :: limiter_config

definition getDomainKey :: "(string \<Rightarrow> url option) \<Rightarrow> string \<Rightarrow> string" where
  "getDomainKey parseURL u = (case parseURL u of Some parsed \<Rightarrow> hostname parsed | None \<Rightarrow> u)"

definition getBackoffRemainingMs :: "string \<Rightarrow> nat \<Rightarrow> limiter \<Rightarrow> nat" where
  "getBackoffRemainingMs domain now L = opt_else (backoffUntil L domain) 0 - now"

definition isBackingOff :: "string \<Rightarrow> nat \<Rightarrow> limiter \<Rightarrow> bool" where
  "isBackingOff domain now L \<longleftrightarrow> now < opt_else (backoffUntil L domain) 0"

definition header_backoff :: "(string \<Rightarrow> int option) \<Rightarrow> nat \<Rightarrow> string option \<Rightarrow> int" where
  "header_backoff date now retryAfterHeader =
     (case retryAfterHeader of
        None \<Rightarrow> 0
      | Some h \<Rightarrow>
          (case js_parseInt h of
             Some seconds \<Rightarrow> seconds * 1000
           | None \<Rightarrow> (case date h of Some retryDate \<Rightarrow> max 0 (retryDate - int now) | None \<Rightarrow> 0)))"

definition applyBackoff ::
  "limiter_config \<Rightarrow> (string \<Rightarrow> int option) \<Rightarrow> string \<Rightarrow> nat \<Rightarrow> string option \<Rightarrow> bool \<Rightarrow> limiter \<Rightarrow> limiter" where
  "applyBackoff C date domain now retryAfterHeader isRetry L =
     (let asked = header_backoff date now retryAfterHeader;
          previousBackoffMs = opt_else (backoffUntil L domain) now - now;
          backoffMs = (if asked = 0 \<and> isRetry
                       then int (min (maxBackoffMs C) (max (baseBackoffMs C) (previousBackoffMs * 2)))
                       else asked)
      in if 0 < backoffMs then L\<lparr>backoffUntil := (backoffUntil L)(domain := Some (now + nat backoffMs))\<rparr> else L)"

definition clearBackoff :: "string \<Rightarrow> limiter \<Rightarrow> limiter" where
  "clearBackoff domain L = L\<lparr>backoffUntil := (backoffUntil L)(domain := None)\<rparr>"

definition min_interval :: "limiter_config \<Rightarrow> rat" where
  "min_interval C = 1000 / of_nat (requestsPerSecond C)"

definition waitForSlot :: "'n http_env \<Rightarrow> string \<Rightarrow> limiter \<times> 'n \<Rightarrow> limiter \<times> 'n" where
  "waitForSlot E domain = (\<lambda>(L, w).
     (let remaining = getBackoffRemainingMs domain (h_now E w) L;
          w1 = (if 0 < remaining then h_sleep E (of_nat remaining) w else w);
          lastRequest = opt_else (lastRequestAt L domain) 0;
          elapsed = (of_nat (h_now E w1) - of_nat lastRequest :: rat);
          minIntervalMs = min_interval (h_limits E);
          w2 = (if elapsed < minIntervalMs then h_sleep E (minIntervalMs - elapsed) w1 else w1)
      in (L\<lparr>lastRequestAt := (lastRequestAt L)(domain := Some (h_now E w2))\<rparr>, w2)))"

definition parseRetryAfter :: "string option \<Rightarrow> string option" where
  "parseRetryAfter value =
     (case value of
        None \<Rightarrow> None
      | Some h \<Rightarrow>
          if h = '''' then None
          else (let trimmed = js_lower (js_trim h) in
                if trimmed \<noteq> '''' \<and> list_all is_digit trimmed then Some trimmed
                else if js_includes trimmed '','' \<or> js_includes trimmed ''gmt'' \<or> js_includes trimmed ''utc''
                then Some (js_trim h) else None))"

definition toRetryAfterSeconds :: "(string \<Rightarrow> int option) \<Rightarrow> nat \<Rightarrow> string option \<Rightarrow> nat option" where
  "toRetryAfterSeconds date now retryAfterHeader =
     (case retryAfterHeader of
        None \<Rightarrow> None
      | Some h \<Rightarrow>
          (case js_parseInt h of
             Some seconds \<Rightarrow> Some (nat seconds)
           | None \<Rightarrow> map_option (\<lambda>retryAt. nat \<lceil>(of_int (retryAt - int now) :: rat) / 1000\<rceil>) (date h)))"

section \<open>The fetcher\<close>

definition THROTTLED_STATUS_CODES :: "nat set" where "THROTTLED_STATUS_CODES = {429, 503}"

definition error_message :: "fetch_error \<Rightarrow> string" where
  "error_message e =
     (case e of
        Unsafe UnsafeProtocolError \<Rightarrow> ''unsafe_protocol''
      | Unsafe UnsafeHostError \<Rightarrow> ''unsafe_host''
      | TooManyRedirectsError n \<Rightarrow> ''too_many_redirects''
      | InvalidRedirectError l \<Rightarrow> ''invalid_redirect_location''
      | BodyTooLargeError n \<Rightarrow> ''feed_body_too_large''
      | TransportError m \<Rightarrow> m)"

definition feed_request_headers :: "fetch_options \<Rightarrow> (string \<times> string) list" where
  "feed_request_headers options =
     [(''user-agent'', ''RSSMonitor/1.0 (+https://github.com/hagalink/rss-monitor)''),
      (''accept'', ''application/rss+xml, application/xml, text/xml, application/atom+xml, */*'')]
     @ (case fo_etag options of None \<Rightarrow> [] | Some e \<Rightarrow> if e = '''' then [] else [(''if-none-match'', e)])
     @ (case fo_last_modified options of None \<Rightarrow> [] | Some d \<Rightarrow> if d = '''' then [] else [(''if-modified-since'', d)])"

text \<open>The \<open>try\<close> block, without its handler.\<close>

definition fetch_guarded ::
  "'n http_env \<Rightarrow> string \<Rightarrow> string \<Rightarrow> fetch_options \<Rightarrow> nat \<Rightarrow> limiter \<times> 'n \<Rightarrow> (limiter \<times> 'n) \<times> (fetch_error + Ingestion.fetch_result)" where
  "fetch_guarded E domain u options startedAt = (\<lambda>(L, w).
     (let allow = resolveAllowPrivateFeedHosts (h_env E) (h_allow_private E);
          init = \<lparr>req_method = None, req_headers = feed_request_headers options, req_body = None, req_redirect = ''follow''\<rparr>
      in case safeFetch (h_transport E) (h_parse E) (h_resolve E) allow None u init w of
           (w1, Inl e) \<Rightarrow> ((L, w1), Inl e)
         | (w1, Inr res) \<Rightarrow>
             (let response = fr_response res;
                  code = status response;
                  retryAfterHeader = parseRetryAfter (header response ''retry-after'');
                  now = h_now E w1
              in if code = 429 \<or> (code \<in> THROTTLED_STATUS_CODES \<and> retryAfterHeader \<noteq> None) then
                   ((applyBackoff (h_limits E) (h_date E) domain now retryAfterHeader (code = 429) L, w1),
                    Inl (TransportError (''Rate limited ('' @ dec code @ '') for '' @ u @ '', retry after ''
                           @ opt_else retryAfterHeader ''exponential backoff'')))
                 else (case (if code = 304 then Inr []
                             else readBodyWithLimit (h_decode E) response
                                    (nat (resolveFeedFetchMaxBytes (h_env E) (h_max_bytes E))) None) of
                         Inl e \<Rightarrow> ((L, w1), Inl e)
                       | Inr body \<Rightarrow>
                           ((L, w1), Inr \<lparr>statusCode = code, fetch_body = body, resp_etag = header response ''etag'',
                              resp_last_modified = header response ''last-modified'', durationMs = now - startedAt,
                              resp_final_url = Some (finalUrl res),
                              retryAfterSeconds = toRetryAfterSeconds (h_date E) now retryAfterHeader\<rparr>)))))"

definition HttpFeedFetcher_fetch :: "'n http_env \<Rightarrow> (limiter \<times> 'n) feed_fetcher" where
  "HttpFeedFetcher_fetch E u options s =
     (case assertSafePublicUrl (h_parse E) (resolveAllowPrivateFeedHosts (h_env E) (h_allow_private E)) (UrlString u) of
        Inl e \<Rightarrow> (s, Inl (error_message (Unsafe e)))
      | Inr _ \<Rightarrow>
          (let domain = getDomainKey (h_parse E) u; s1 = waitForSlot E domain s in
           case fetch_guarded E domain u options (h_now E (snd s1)) s1 of
             (s2, Inr res) \<Rightarrow> (s2, Inr res)
           | ((L, w), Inl e) \<Rightarrow>
               ((case e of TransportError m \<Rightarrow> if h_is_abort E m then clearBackoff domain L else L | _ \<Rightarrow> L, w),
                Inl (error_message e))))"

section \<open>Spacing\<close>

text \<open>What a timer promises: it does not fire early.\<close>

definition timer_ok :: "'n http_env \<Rightarrow> bool" where
  "timer_ok E \<longleftrightarrow> (\<forall>d w. 0 \<le> d \<longrightarrow> of_nat (h_now E w) + d \<le> (of_nat (h_now E (h_sleep E d w)) :: rat))"

lemma timer_okD:
  assumes "timer_ok E" and "0 \<le> d"
  shows "of_nat (h_now E w) + d \<le> (of_nat (h_now E (h_sleep E d w)) :: rat)" and "h_now E w \<le> h_now E (h_sleep E d w)"
proof -
  show 1: "of_nat (h_now E w) + d \<le> (of_nat (h_now E (h_sleep E d w)) :: rat)"
    using assms by (simp add: timer_ok_def)
  then have "(of_nat (h_now E w) :: rat) \<le> of_nat (h_now E (h_sleep E d w))" using assms(2) by linarith
  then show "h_now E w \<le> h_now E (h_sleep E d w)" by simp
qed

text \<open>
  A caller that waits for its slot gets it after the backoff of the host has passed and at least the minimal
  interval after the last request to the host; the slot is recorded, and no other host is touched.
\<close>

theorem slot_is_spaced:
  assumes "timer_ok E" and "waitForSlot E domain (L, w) = (L', w')"
  shows "lastRequestAt L' domain = Some (h_now E w')
    \<and> opt_else (backoffUntil L domain) 0 \<le> h_now E w'
    \<and> of_nat (opt_else (lastRequestAt L domain) 0) + min_interval (h_limits E) \<le> of_nat (h_now E w')
    \<and> (\<forall>d. d \<noteq> domain \<longrightarrow> lastRequestAt L' d = lastRequestAt L d) \<and> backoffUntil L' = backoffUntil L"
proof -
  define remaining where "remaining = getBackoffRemainingMs domain (h_now E w) L"
  define w1 where "w1 = (if 0 < remaining then h_sleep E (of_nat remaining) w else w)"
  define elapsed where "elapsed = (of_nat (h_now E w1) - of_nat (opt_else (lastRequestAt L domain) 0) :: rat)"
  define m where "m = min_interval (h_limits E)"
  have w': "w' = (if elapsed < m then h_sleep E (m - elapsed) w1 else w1)"
    and L': "L' = L\<lparr>lastRequestAt := (lastRequestAt L)(domain := Some (h_now E w'))\<rparr>"
    using assms(2) by (auto simp: waitForSlot_def Let_def remaining_def w1_def elapsed_def m_def)
  have "(of_nat (h_now E w + remaining) :: rat) \<le> of_nat (h_now E w1)"
    using timer_okD(1) [OF assms(1), of "of_nat remaining" w] by (simp add: w1_def)
  then have "h_now E w + remaining \<le> h_now E w1" by (simp only: of_nat_le_iff)
  then have 1: "opt_else (backoffUntil L domain) 0 \<le> h_now E w1"
    by (simp add: remaining_def getBackoffRemainingMs_def)
  have "of_nat (h_now E w1) + (m - elapsed) \<le> (of_nat (h_now E w') :: rat) \<or> m \<le> elapsed \<and> w' = w1"
    using timer_okD(1) [OF assms(1), of "m - elapsed" w1] by (simp add: w')
  then have 2: "of_nat (opt_else (lastRequestAt L domain) 0) + m \<le> (of_nat (h_now E w') :: rat)"
    by (auto simp: elapsed_def)
  have "h_now E w1 \<le> h_now E w'"
    using timer_okD(2) [OF assms(1), of "m - elapsed" w1] by (simp add: w')
  with 1 have "opt_else (backoffUntil L domain) 0 \<le> h_now E w'" by linarith
  with 2 show ?thesis by (simp add: L' m_def)
qed

text \<open>A counting clock whose timers round up.\<close>

definition counting_env :: "nat http_env" where
  "counting_env = \<lparr>h_now = (\<lambda>w. w), h_sleep = (\<lambda>d w. w + nat \<lceil>d\<rceil>), h_transport = (\<lambda>w u i. (w, Inl ''down'')),
     h_parse = (\<lambda>s. None), h_resolve = (\<lambda>s u. None), h_decode = (\<lambda>l b. None), h_date = (\<lambda>s. None), h_env = (\<lambda>s. None),
     h_allow_private = None, h_max_bytes = None, h_is_abort = (\<lambda>m. False),
     h_limits = \<lparr>requestsPerSecond = 2, maxBackoffMs = 60000, baseBackoffMs = 1000\<rparr>\<rparr>"

definition resting_limiter :: limiter where
  "resting_limiter = \<lparr>lastRequestAt = (\<lambda>d. if d = ''a.example'' then Some 900 else None),
     backoffUntil = (\<lambda>d. if d = ''a.example'' then Some 1100 else None)\<rparr>"

lemma counting_timer: "timer_ok counting_env"
proof -
  have "of_nat w + d \<le> (of_nat (w + nat \<lceil>d\<rceil>) :: rat)" if "0 \<le> d" for w :: nat and d :: rat
    using that le_of_int_ceiling [of d] by (simp add: zero_le_ceiling)
  then show ?thesis by (simp add: timer_ok_def counting_env_def)
qed

lemma slot_is_spaced_witness:
  "\<exists>L' w'. waitForSlot counting_env ''a.example'' (resting_limiter, 1000) = (L', w')
     \<and> w' = 1400 \<and> lastRequestAt L' ''a.example'' = Some w' \<and> 1100 \<le> w' \<and> (900 :: rat) + 500 \<le> of_nat w'"
proof -
  obtain L' w' where e: "waitForSlot counting_env ''a.example'' (resting_limiter, 1000) = (L', w')" by fastforce
  have "w' = 1400"
    using e by (simp add: waitForSlot_def counting_env_def resting_limiter_def getBackoffRemainingMs_def min_interval_def Let_def)
  with slot_is_spaced [OF counting_timer e] e show ?thesis
    by (simp add: counting_env_def resting_limiter_def min_interval_def)
qed

section \<open>Backoff\<close>

text \<open>\<open>Retry-After\<close> is obeyed without a bound: the cap applies to the exponential branch only.\<close>

lemma retry_after_is_uncapped:
  assumes "js_parseInt h = Some (int s)" and "0 < s"
  shows "backoffUntil (applyBackoff C date domain now (Some h) isRetry L) domain = Some (now + s * 1000)"
  using assms by (simp add: applyBackoff_def header_backoff_def Let_def nat_mult_distrib)

text \<open>
  A caller that waited out the backoff before its request finds no remaining backoff to double: without a
  \<open>Retry-After\<close> each refusal backs off by the base delay again.
\<close>

lemma backoff_never_doubles:
  assumes "opt_else (backoffUntil L domain) 0 \<le> now" and "0 < baseBackoffMs C" and "baseBackoffMs C \<le> maxBackoffMs C"
  shows "backoffUntil (applyBackoff C date domain now None True L) domain = Some (now + baseBackoffMs C)"
proof -
  have "opt_else (backoffUntil L domain) now - now = 0" using assms(1) by (cases "backoffUntil L domain") simp_all
  with assms(2,3) show ?thesis by (simp add: applyBackoff_def header_backoff_def Let_def)
qed

section \<open>Unsafe feeds\<close>

lemma unsafe_messages:
  "detectFeedFailureCategory ''unsafe_host'' k = TerminalInvalidFeed"
  "detectFeedFailureCategory ''unsafe_protocol'' k = TerminalInvalidFeed"
  "\<not> prefix AUTO_PAUSED_ERROR_PREFIX ''unsafe_host''" "\<not> prefix AUTO_PAUSED_ERROR_PREFIX ''unsafe_protocol''"
proof -
  have l: "js_lower ''unsafe_host'' = ''unsafe_host''" "js_lower ''unsafe_protocol'' = ''unsafe_protocol''" by code_simp+
  have n: "\<not> js_includes ''unsafe_host'' ''status 404''" "\<not> js_includes ''unsafe_host'' ''status 410''"
    "\<not> js_includes ''unsafe_protocol'' ''status 404''" "\<not> js_includes ''unsafe_protocol'' ''status 410''"
    "js_includes ''unsafe_host'' ''unsafe_host''" "js_includes ''unsafe_protocol'' ''unsafe_protocol''"
    by code_simp+
  show "detectFeedFailureCategory ''unsafe_host'' k = TerminalInvalidFeed"
    "detectFeedFailureCategory ''unsafe_protocol'' k = TerminalInvalidFeed"
    using n by (simp_all add: detectFeedFailureCategory_def Let_def l)
  show "\<not> prefix AUTO_PAUSED_ERROR_PREFIX ''unsafe_host''" "\<not> prefix AUTO_PAUSED_ERROR_PREFIX ''unsafe_protocol''"
    by code_simp+
qed

text \<open>
  When the URL of a feed does not pass the SSRF guard, its job sends nothing: the network, the clock and the
  limiter are as before, no article is touched, and the feed is paused and never due again on its own.
\<close>

theorem unsafe_feed_is_paused:
  fixes E :: "'n http_env" and G :: "(limiter \<times> 'n) ingest_env"
  assumes "g_fetch G = HttpFeedFetcher_fetch E"
    and "assertSafePublicUrl (h_parse E) (resolveAllowPrivateFeedHosts (h_env E) (h_allow_private E)) (UrlString (fd_url f)) = Inl e"
    and "row_by fd_id i (feeds (i_feeds s)) = Some f"
    and "\<forall>x \<in> {SchemaCheck, ReadFeed, LogFailure, ReportFailure}. g_fails G x = None"
    and "ProcessFeedJob_execute G i s = (s', r)"
  shows "r = Inr \<lparr>insertedEntries = 0, createdAlerts = 0, jr_status = 0\<rparr> \<and> i_net s' = i_net s \<and> same_articles s s'
    \<and> (\<exists>f'. row_by fd_id i (feeds (i_feeds s')) = Some f' \<and> fd_status f' = FdPaused \<and> (\<forall>t. \<not> due_feed t f'))"
proof -
  let ?m = "error_message (Unsafe e)"
  define c where "c = classifyFeedFailure (g_random G) ?m (Suc (fd_errors f)) (fd_poll f)"
  have id: "fd_id f = i" using row_by_SomeD [OF assms(3)] by simp
  have m: "detectFeedFailureCategory ?m k = TerminalInvalidFeed" "\<not> prefix AUTO_PAUSED_ERROR_PREFIX ?m" for k
    by (cases e; simp add: error_message_def unsafe_messages)+
  then have k: "ff_status c = FdPaused" "ff_last_error c = ?m" "\<not> shouldRethrow c"
    by (simp_all add: c_def classifyFeedFailure_def Let_def)
  have "feed_attempt G (mapFeed f) s = (s, Inl ?m)"
    using assms(1,2) by (simp add: feed_attempt_def HttpFeedFetcher_fetch_def)
  then have run: "(s', r) = handle_failure G (mapFeed f) ?m s"
    using assms(3-5) by (simp add: ProcessFeedJob_execute_def and_then_def call_def feed_for_worker_def)
  have s': "s' = s\<lparr>i_logs := i_logs s @ [\<lparr>fl_feed = i, fl_tenant = fd_tenant f, fl_status = None, fl_ms = None, fl_error = True,
        fl_message = Some ?m\<rparr>],
      i_feeds := updateAfterFetch (g_now G) (failure_report (g_now G) c i (fd_errors f + 1)) (i_feeds s)\<rparr>"
    and r: "r = Inr \<lparr>insertedEntries = 0, createdAlerts = 0, jr_status = 0\<rparr>"
    using run k(3) assms(4)
    by (auto simp: handle_failure_def Let_def and_then_def call_def recordFetchLog_def report_def id c_def)
  have row: "row_by fd_id i (feeds (i_feeds s')) = Some (report_row (g_now G) (failure_report (g_now G) c i (fd_errors f + 1)) f)"
    using assms(3) by (simp add: s' row_after_report)
  have "\<not> due_feed t (report_row (g_now G) (failure_report (g_now G) c i (fd_errors f + 1)) f)" for t
    using m(2) by (simp add: due_feed_def auto_paused_def report_row_def failure_report_def k like_auto_paused)
  then show ?thesis
    using r row by (simp add: s' same_articles_def report_row_def failure_report_def k)
qed

definition inward_feed :: feed where
  "inward_feed = idle_feed\<lparr>fd_url := ''ftp://files.example''\<rparr>"

lemma unsafe_feed_is_paused_witness:
  "\<exists>G s s'. ProcessFeedJob_execute G 7 s = (s', Inr \<lparr>insertedEntries = 0, createdAlerts = 0, jr_status = 0\<rparr>)
     \<and> g_fetch G = HttpFeedFetcher_fetch counting_env \<and> i_net s = (resting_limiter, 1000) \<and> i_net s' = i_net s
     \<and> (\<exists>f'. row_by fd_id 7 (feeds (i_feeds s')) = Some f' \<and> fd_status f' = FdPaused)"
proof -
  define G :: "(limiter \<times> nat) ingest_env" where
    "G = \<lparr>g_fetch = HttpFeedFetcher_fetch counting_env, g_timeout = 10000, g_parse = (\<lambda>b. Inl ''no parser''), g_date = (\<lambda>s. None),
       g_iso = dec, g_sha256 = (\<lambda>s. s), g_unicode = ascii_unicode, g_parseURL = (\<lambda>s. None), g_notifier_enabled = True,
       g_now = 100, g_random = 0, g_fails = (\<lambda>x. None)\<rparr>"
  define s :: "(limiter \<times> nat) ingest_state" where
    "s = \<lparr>i_feeds = \<lparr>feeds = [inward_feed], next_feed = 8\<rparr>,
       i_store = \<lparr>alerts = [], next_alert = 1, digest_items = [], next_item = 1, entries = [], next_entry = 1, rules = []\<rparr>,
       i_logs = [], i_queue = [], i_cache = [], i_net = (resting_limiter, 1000)\<rparr>"
  obtain s' r where run: "ProcessFeedJob_execute G 7 s = (s', r)" by fastforce
  have "g_fetch G = HttpFeedFetcher_fetch counting_env" by (simp add: G_def)
  moreover have "assertSafePublicUrl (h_parse counting_env) (resolveAllowPrivateFeedHosts (h_env counting_env) (h_allow_private counting_env))
      (UrlString (fd_url inward_feed)) = Inl UnsafeProtocolError"
    by (simp add: assertSafePublicUrl_def counting_env_def)
  moreover have "row_by fd_id 7 (feeds (i_feeds s)) = Some inward_feed"
    by (simp add: s_def row_simps inward_feed_def idle_feed_def)
  moreover have "\<forall>x \<in> {SchemaCheck, ReadFeed, LogFailure, ReportFailure}. g_fails G x = None" by (simp add: G_def)
  ultimately have "r = Inr \<lparr>insertedEntries = 0, createdAlerts = 0, jr_status = 0\<rparr> \<and> i_net s' = i_net s
      \<and> (\<exists>f'. row_by fd_id 7 (feeds (i_feeds s')) = Some f' \<and> fd_status f' = FdPaused)"
    using unsafe_feed_is_paused [OF _ _ _ _ run] by blast
  moreover have "g_fetch G = HttpFeedFetcher_fetch counting_env" "i_net s = (resting_limiter, 1000)" by (simp_all add: G_def s_def)
  ultimately show ?thesis using run by metis
qed

end
