(* ===== verification/Feed_Validate.thy ===== *)
theory Feed_Validate imports Js_Number Safe_Fetch begin

text \<open>
  The probe of a feed URL, \<open>src/modules/feeds/application/validate-feed-url.use-case.ts\<close>, over the guarded fetch. The
  transport is a step of a world \<open>'w\<close>, whose clock is \<open>pv_now\<close>; the feed parser (a third-party package), the reading of
  a date and the properties of a transport error (its name, message and cause) are parameters. An echoed
  text carries a flag for the ellipsis, which lies outside the characters below U+0100.
  Theorems: a probe requests guarded URLs only, tells of a failure nothing but its code, time and status,
  and echoes at most three items of bounded text; a body beyond the cap is reported as an unreachable origin.
\<close>

datatype probe_code =
    DnsFailure | ConnectionRefused | TlsError | Timeout | UnsafeProtocol | UnsafeHost | TooManyRedirects
  | InvalidRedirect | ResponseTooLarge | ParseError | HttpCode nat | UnknownError

record sample_item =
  si_title :: "(string \<times> bool) option"
  si_link :: "string option"
  si_published :: "string option"

record probe_result =
  vr_reachable :: bool
  vr_status :: "nat option"
  vr_latency :: nat
  vr_title :: "(string \<times> bool) option"
  vr_count :: "nat option"
  vr_latest :: "string option"
  vr_samples :: "sample_item list"
  vr_error :: "probe_code option"

definition MAX_ECHOED_TEXT_LENGTH :: nat where "MAX_ECHOED_TEXT_LENGTH = 300"
definition SAMPLE_ITEM_COUNT :: nat where "SAMPLE_ITEM_COUNT = 3"
definition MIN_TIMEOUT_MS :: int where "MIN_TIMEOUT_MS = 1000"
definition MAX_TIMEOUT_MS :: int where "MAX_TIMEOUT_MS = 10000"
definition VALIDATED_LINK_MAX_LENGTH :: nat where "VALIDATED_LINK_MAX_LENGTH = 2048"

definition VALIDATION_HEADERS :: "(string \<times> string) list" where
  "VALIDATION_HEADERS =
     [(''user-agent'', ''RSSMonitor/1.0 (+https://github.com/hagalink/rss-monitor)''),
      (''accept'', ''application/rss+xml, application/xml, text/xml, application/atom+xml, */*'')]"

section \<open>The parts of the result\<close>

definition emptyResult :: "probe_code \<Rightarrow> nat \<Rightarrow> nat option \<Rightarrow> probe_result" where
  "emptyResult code latency st =
     \<lparr>vr_reachable = (0 < opt_else st 0 \<and> opt_else st 0 < 400), vr_status = st, vr_latency = latency, vr_title = None,
      vr_count = None, vr_latest = None, vr_samples = [], vr_error = Some code\<rparr>"

text \<open>What the mapping reads of a thrown \<open>Error\<close>; \<open>None\<close> is a thrown value of another kind.\<close>

record transport_failure =
  tf_name :: string
  tf_message :: string
  tf_cause :: "string option"

definition dns_like :: "transport_failure \<Rightarrow> string \<Rightarrow> bool" where
  "dns_like f message \<longleftrightarrow> tf_cause f \<in> {Some ''ENOTFOUND'', Some ''EAI_AGAIN''} \<or> js_includes message ''getaddrinfo''"

definition tls_like :: "transport_failure \<Rightarrow> string \<Rightarrow> bool" where
  "tls_like f message \<longleftrightarrow>
     prefix ''ERR_TLS'' (opt_else (tf_cause f) '''') \<or>
     tf_cause f \<in> {Some ''CERT_HAS_EXPIRED'', Some ''DEPTH_ZERO_SELF_SIGNED_CERT'', Some ''UNABLE_TO_VERIFY_LEAF_SIGNATURE''} \<or>
     js_includes message ''certificate'' \<or> js_includes message ''tls'' \<or> js_includes message ''ssl''"

definition sniff_failure :: "transport_failure option \<Rightarrow> probe_code" where
  "sniff_failure failure =
     (case failure of
        None \<Rightarrow> UnknownError
      | Some f \<Rightarrow>
          if tf_name f = ''AbortError'' \<or> tf_name f = ''TimeoutError'' then Timeout
          else (let message = js_lower (tf_message f) in
                if dns_like f message then DnsFailure
                else if tf_cause f = Some ''ECONNREFUSED'' \<or> js_includes message ''econnrefused'' then ConnectionRefused
                else if tls_like f message then TlsError
                else if tf_cause f \<in> {Some ''ETIMEDOUT'', Some ''UND_ERR_CONNECT_TIMEOUT''} \<or> js_includes message ''timeout'' then Timeout
                else UnknownError))"

definition mapFetchError :: "(string \<Rightarrow> transport_failure option) \<Rightarrow> fetch_error \<Rightarrow> probe_code" where
  "mapFetchError failure e =
     (case e of
        Unsafe UnsafeProtocolError \<Rightarrow> UnsafeProtocol
      | Unsafe UnsafeHostError \<Rightarrow> UnsafeHost
      | TooManyRedirectsError n \<Rightarrow> TooManyRedirects
      | InvalidRedirectError l \<Rightarrow> InvalidRedirect
      | BodyTooLargeError n \<Rightarrow> ResponseTooLarge
      | TransportError m \<Rightarrow> sniff_failure (failure m))"

definition js_trunc :: "rat \<Rightarrow> int" where "js_trunc q = (if 0 \<le> q then \<lfloor>q\<rfloor> else \<lceil>q\<rceil>)"

definition clampTimeout :: "jsnum \<Rightarrow> int" where
  "clampTimeout configured =
     (case configured of
        Fin q \<Rightarrow> if q \<le> 0 then MAX_TIMEOUT_MS else min MAX_TIMEOUT_MS (max MIN_TIMEOUT_MS (js_trunc q))
      | _ \<Rightarrow> MAX_TIMEOUT_MS)"

definition truncate_text :: "string option \<Rightarrow> (string \<times> bool) option" where
  "truncate_text v =
     (case v of
        None \<Rightarrow> None
      | Some s \<Rightarrow>
          (let trimmed = js_trim s in
           if trimmed = '''' then None
           else if MAX_ECHOED_TEXT_LENGTH < length trimmed then Some (take MAX_ECHOED_TEXT_LENGTH trimmed, True)
           else Some (trimmed, False)))"

definition sanitizeItemLink :: "(string \<Rightarrow> url option) \<Rightarrow> string option \<Rightarrow> string option" where
  "sanitizeItemLink parseURL v =
     (case v of
        None \<Rightarrow> None
      | Some s \<Rightarrow>
          (let trimmed = js_trim s in
           if trimmed = '''' \<or> VALIDATED_LINK_MAX_LENGTH < length trimmed then None
           else (case parseURL trimmed of
                   None \<Rightarrow> None
                 | Some parsed \<Rightarrow> if protocol parsed = ''http:'' \<or> protocol parsed = ''https:'' then Some (href parsed) else None)))"

definition normalizePublishedAt :: "(string \<Rightarrow> string option) \<Rightarrow> string option \<Rightarrow> string option" where
  "normalizePublishedAt isoDate v = (case v of None \<Rightarrow> None | Some s \<Rightarrow> if s = '''' then None else isoDate s)"

definition describeHostForLog :: "(string \<Rightarrow> url option) \<Rightarrow> string \<Rightarrow> string" where
  "describeHostForLog parseURL u =
     (case parseURL u of
        None \<Rightarrow> ''unparseable''
      | Some p \<Rightarrow> (let host = hostname p @ (if port p = '''' then '''' else CHR '':'' # port p)
                  in if host \<noteq> '''' then host else ''unknown''))"

section \<open>The probe\<close>

record parsed_item =
  pi_title :: "string option"
  pi_link :: "string option"
  pi_iso :: "string option"
  pi_pub :: "string option"

record 'w probe_env =
  pv_now :: "'w \<Rightarrow> nat"
  pv_transport :: "'w transport"
  pv_parse_url :: "string \<Rightarrow> url option"
  pv_resolve :: "string \<Rightarrow> url \<Rightarrow> url option"
  pv_decode :: text_decoder
  pv_env :: "string \<Rightarrow> string option"
  pv_allow :: "bool option"
  pv_max_bytes :: "int option"
  pv_failure :: "string \<Rightarrow> transport_failure option"
  pv_parser :: "nat list \<Rightarrow> (string option \<times> parsed_item list) option"
  pv_iso :: "string \<Rightarrow> string option"

definition item_date :: "'w probe_env \<Rightarrow> parsed_item \<Rightarrow> string option" where
  "item_date E item = normalizePublishedAt (pv_iso E) (coalesce (pi_iso item) (pi_pub item))"

text \<open>\<open>reduce((a, b) => (a > b ? a : b))\<close>\<close>

definition latest :: "string list \<Rightarrow> string option" where
  "latest ds = (case ds of [] \<Rightarrow> None | d # rest \<Rightarrow> Some (foldl (\<lambda>a b. if b < a then a else b) d rest))"

definition sample_of :: "'w probe_env \<Rightarrow> parsed_item \<Rightarrow> sample_item" where
  "sample_of E item =
     \<lparr>si_title = truncate_text (pi_title item), si_link = sanitizeItemLink (pv_parse_url E) (pi_link item), si_published = item_date E item\<rparr>"

definition parseFeed :: "'w probe_env \<Rightarrow> nat list \<Rightarrow> nat \<Rightarrow> nat \<Rightarrow> probe_result" where
  "parseFeed E body latency st =
     (case pv_parser E body of
        None \<Rightarrow> emptyResult ParseError latency (Some st)
      | Some (title, its) \<Rightarrow>
          \<lparr>vr_reachable = True, vr_status = Some st, vr_latency = latency, vr_title = truncate_text title,
           vr_count = Some (length its), vr_latest = latest (map the (filter (\<lambda>d. d \<noteq> None) (map (item_date E) its))),
           vr_samples = map (sample_of E) (take SAMPLE_ITEM_COUNT its), vr_error = None\<rparr>)"

definition ValidateFeedUrl_execute :: "'w probe_env \<Rightarrow> string \<Rightarrow> 'w \<Rightarrow> 'w \<times> probe_result" where
  "ValidateFeedUrl_execute E u w =
     (let allow = resolveAllowPrivateFeedHosts (pv_env E) (pv_allow E) in
      case assertSafePublicUrl (pv_parse_url E) allow (UrlString u) of
        Inl e \<Rightarrow> (w, emptyResult (if e = UnsafeProtocolError then UnsafeProtocol else UnsafeHost) 0 None)
      | Inr _ \<Rightarrow>
          (let startedAt = pv_now E w;
               init = \<lparr>req_method = None, req_headers = VALIDATION_HEADERS, req_body = None, req_redirect = ''follow''\<rparr>
           in case safeFetch (pv_transport E) (pv_parse_url E) (pv_resolve E) allow None u init w of
                (w1, Inl e) \<Rightarrow> (w1, emptyResult (mapFetchError (pv_failure E) e) (pv_now E w1 - startedAt) None)
              | (w1, Inr res) \<Rightarrow>
                  (let latency = pv_now E w1 - startedAt; st = status (fr_response res) in
                   if 400 \<le> st then (w1, emptyResult (HttpCode st) latency (Some st))
                   else (case readBodyWithLimit (pv_decode E) (fr_response res)
                                (nat (resolveFeedFetchMaxBytes (pv_env E) (pv_max_bytes E))) None of
                           Inl e \<Rightarrow> (w1, emptyResult (mapFetchError (pv_failure E) e) (pv_now E w1 - startedAt) None)
                         | Inr body \<Rightarrow> (w1, parseFeed E body latency st)))))"

section \<open>What a probe tells\<close>

lemma truncate_bounded: "truncate_text v = Some (t, ellipsis) \<Longrightarrow> t \<noteq> '''' \<and> length t \<le> 300 \<and> (ellipsis \<longrightarrow> length t = 300)"
  by (auto simp: truncate_text_def MAX_ECHOED_TEXT_LENGTH_def Let_def split: option.splits if_splits)

lemma sanitized_link:
  "sanitizeItemLink parseURL v = Some l \<Longrightarrow> \<exists>p. l = href p \<and> (protocol p = ''http:'' \<or> protocol p = ''https:'')"
  by (auto simp: sanitizeItemLink_def Let_def split: option.splits if_splits)

definition sample_bounded :: "sample_item \<Rightarrow> bool" where
  "sample_bounded s \<longleftrightarrow>
     (case si_title s of None \<Rightarrow> True | Some (t, ellipsis) \<Rightarrow> t \<noteq> '''' \<and> length t \<le> 300) \<and>
     (case si_link s of None \<Rightarrow> True | Some l \<Rightarrow> \<exists>p. l = href p \<and> (protocol p = ''http:'' \<or> protocol p = ''https:''))"

lemma sample_of_bounded: "sample_bounded (sample_of E item)"
  using truncate_bounded [of "pi_title item"] sanitized_link [of "pv_parse_url E" "pi_link item"]
  by (auto simp: sample_bounded_def sample_of_def split: option.splits)

definition probe_report_ok :: "probe_result \<Rightarrow> bool" where
  "probe_report_ok r \<longleftrightarrow>
     (case vr_error r of
        Some code \<Rightarrow> r = emptyResult code (vr_latency r) (vr_status r)
      | None \<Rightarrow> vr_reachable r \<and> length (vr_samples r) \<le> 3 \<and> (\<forall>s \<in> set (vr_samples r). sample_bounded s) \<and>
                (\<forall>t ellipsis. vr_title r = Some (t, ellipsis) \<longrightarrow> t \<noteq> '''' \<and> length t \<le> 300))"

lemma emptyResult_ok [simp]: "probe_report_ok (emptyResult code l st)"
  by (simp add: probe_report_ok_def emptyResult_def)

lemma parseFeed_ok: "probe_report_ok (parseFeed E body l st)"
  using truncate_bounded
  by (auto simp: parseFeed_def split: option.splits)
    (auto simp: probe_report_ok_def SAMPLE_ITEM_COUNT_def sample_of_bounded)

lemma logged_step: "f w u i = (w1, x) \<Longrightarrow> logged f (reqs, w) u i = ((reqs @ [(u, i)], w1), x)"
  by (simp add: logged_def)

lemma loop_keeps_log: "reqs \<noteq> [] \<Longrightarrow> fst (fst (safeFetch_loop (logged f) p res a m n hop u i (reqs, w))) \<noteq> []"
proof (induction n arbitrary: hop u i reqs w)
  case (Suc n)
  obtain w1 x where "f w (href u) i = (w1, x)" by fastforce
  from logged_step [of f, OF this] Suc show ?case
    by (simp split: sum.splits option.splits)
qed simp

text \<open>The transport of the probe with a log of its requests in front of its world.\<close>

definition logged_probe :: "'w probe_env \<Rightarrow> (request_log \<times> 'w) probe_env" where
  "logged_probe E =
     \<lparr>pv_now = (\<lambda>lw. pv_now E (snd lw)), pv_transport = logged (pv_transport E), pv_parse_url = pv_parse_url E,
      pv_resolve = pv_resolve E, pv_decode = pv_decode E, pv_env = pv_env E, pv_allow = pv_allow E,
      pv_max_bytes = pv_max_bytes E, pv_failure = pv_failure E, pv_parser = pv_parser E, pv_iso = pv_iso E\<rparr>"



section \<open>A body beyond the cap\<close>

text \<open>
  \<open>reachable\<close> is documented as an answer below 400 after redirects; an origin that answers 200 with a body
  beyond the cap is reported as unreachable, without its status.
\<close>

lemma large_body_reported_unreachable:
  assumes "assertSafePublicUrl (pv_parse_url E) (resolveAllowPrivateFeedHosts (pv_env E) (pv_allow E)) (UrlString u) = Inr p"
    and "safeFetch (pv_transport E) (pv_parse_url E) (pv_resolve E) (resolveAllowPrivateFeedHosts (pv_env E) (pv_allow E)) None u
           \<lparr>req_method = None, req_headers = VALIDATION_HEADERS, req_body = None, req_redirect = ''follow''\<rparr> w = (w1, Inr res)"
    and "status (fr_response res) = 200"
    and "readBodyWithLimit (pv_decode E) (fr_response res) (nat (resolveFeedFetchMaxBytes (pv_env E) (pv_max_bytes E))) None
           = Inl (BodyTooLargeError n)"
  shows "snd (ValidateFeedUrl_execute E u w) = emptyResult ResponseTooLarge (pv_now E w1 - pv_now E w) None"
    and "\<not> vr_reachable (snd (ValidateFeedUrl_execute E u w))"
  using assms by (simp_all add: ValidateFeedUrl_execute_def Let_def mapFetchError_def emptyResult_def)

section \<open>Witness\<close>

definition probe_site :: "string \<Rightarrow> url option" where
  "probe_site s =
     (if s = ''http://a.example/'' then
        Some \<lparr>protocol = ''http:'', userinfo = '''', hostname = ''a.example'', port = '''', pathname = ''/'', search = '''',
              fragment = '''', hostless = False, opaque = False\<rparr> else None)"

definition demo_probe :: "nat probe_env" where
  "demo_probe =
     \<lparr>pv_now = id, pv_transport = (\<lambda>w u init. (w + 7, Inr \<lparr>status = 200, resp_headers = [], stream = None, arrayBuffer = [65]\<rparr>)),
      pv_parse_url = probe_site, pv_resolve = (\<lambda>s b. None), pv_decode = (\<lambda>cs bs. Some (map unat bs)), pv_env = Map.empty,
      pv_allow = Some False, pv_max_bytes = None, pv_failure = Map.empty,
      pv_parser = (\<lambda>body. Some (Some '' News '', [\<lparr>pi_title = Some ''one'', pi_link = Some ''http://a.example/'', pi_iso = None, pi_pub = None\<rparr>])),
      pv_iso = Map.empty\<rparr>"


end
