(* ===== verification/Opml_Parser.thy ===== *)
theory Opml_Parser imports Tenant_Secrets begin

text \<open>
  The OPML parser of \<open>src/modules/opml-imports/domain/opml-parser.ts\<close>. Its regular expressions are written out
  as functions: \<open>outline_tag\<close> is a match of the tag pattern at a position, \<open>attribute_at\<close> one of the attribute
  pattern, and the global matches are the recursions over the text.
  Theorems: the entity decoder inverts XML escaping; every document written with titled folders and self-closing
  feed outlines is read back with the feeds and paths it holds; and the outlines the parser refuses although
  XML allows them.
\<close>

section \<open>Text of a tag\<close>

definition DEFAULT_MAX_OPML_BYTES :: nat where "DEFAULT_MAX_OPML_BYTES = 2 * 1024 * 1024"
definition DEFAULT_MAX_OUTLINE_TAGS :: nat where "DEFAULT_MAX_OUTLINE_TAGS = 20000"

text \<open>\<open>replace(/pat/g, rep)\<close> of a literal pattern.\<close>

fun replace_all :: "string \<Rightarrow> string \<Rightarrow> string \<Rightarrow> string" where
  "replace_all pat rep [] = []"
| "replace_all pat rep (c # cs) =
     (if pat \<noteq> [] \<and> prefix pat (c # cs) then rep @ replace_all pat rep (drop (length pat - 1) cs)
      else c # replace_all pat rep cs)"

definition decodeXmlEntities :: "string \<Rightarrow> string" where
  "decodeXmlEntities input =
     replace_all ''&amp;'' ''&'' (replace_all ''&gt;'' ''>'' (replace_all ''&lt;'' ''<''
       (replace_all ''&apos;'' [CHR 0x27] (replace_all ''&quot;'' [CHR 0x22] input))))"

definition letter :: "char \<Rightarrow> bool" where
  "letter c \<longleftrightarrow> (let n = (of_char c :: nat) in (65 \<le> n \<and> n \<le> 90) \<or> (97 \<le> n \<and> n \<le> 122))"

definition word_char :: "char \<Rightarrow> bool" where
  "word_char c \<longleftrightarrow> letter c \<or> is_digit c \<or> c = CHR ''_''"

text \<open>\<open>/\s*outline\b/i\<close> and \<open>/<\/?\s*outline\b/i\<close> at the start of a text: what follows the match.\<close>

definition outline_word :: "string \<Rightarrow> string option" where
  "outline_word s =
     (let t = dropWhile js_ws s in
      if js_lower (take 7 t) = ''outline'' \<and> (case drop 7 t of [] \<Rightarrow> True | c # _ \<Rightarrow> \<not> word_char c)
      then Some (drop 7 t) else None)"

definition outline_open :: "string \<Rightarrow> string option" where
  "outline_open s =
     (case s of [] \<Rightarrow> None
      | c # r \<Rightarrow> if c = CHR ''<'' then outline_word (case r of [] \<Rightarrow> [] | d # r' \<Rightarrow> if d = CHR ''/'' then r' else r)
                 else None)"

text \<open>\<open>/<\/?\s*outline\b[^>]*>/i\<close> at the start of a text: the match and what follows it.\<close>

definition outline_tag :: "string \<Rightarrow> (string \<times> string) option" where
  "outline_tag s =
     (case outline_open s of None \<Rightarrow> None
      | Some r \<Rightarrow> (case dropWhile (\<lambda>c. c \<noteq> CHR ''>'') r of [] \<Rightarrow> None
                   | g # rest \<Rightarrow> Some (take (length s - length rest) s, rest)))"

lemma outline_word_le: "outline_word s = Some r \<Longrightarrow> length r \<le> length s"
  using length_dropWhile_le [of js_ws s] by (auto simp: outline_word_def Let_def split: if_splits)

lemma outline_open_shorter: "outline_open s = Some r \<Longrightarrow> length r < length s"
  by (auto simp: outline_open_def split: list.splits if_splits dest!: outline_word_le)

lemma outline_tag_shorter: "outline_tag s = Some (t, r) \<Longrightarrow> length r < length s"
proof -
  assume "outline_tag s = Some (t, r)"
  then obtain u g where u: "outline_open s = Some u" "dropWhile (\<lambda>c. c \<noteq> CHR ''>'') u = g # r"
    by (auto simp: outline_tag_def split: option.splits list.splits)
  have "length (g # r) \<le> length u" unfolding u(2) [symmetric] by (rule length_dropWhile_le)
  with outline_open_shorter [OF u(1)] show "length r < length s" by simp
qed

function outline_tags :: "string \<Rightarrow> string list" where
  "outline_tags [] = []"
| "outline_tags (c # cs) =
     (case outline_tag (c # cs) of None \<Rightarrow> outline_tags cs | Some (tag, rest) \<Rightarrow> tag # outline_tags rest)"
  by pat_completeness auto
termination by (relation "measure length") (auto dest: outline_tag_shorter)

section \<open>Attributes\<close>

definition name_start :: "char \<Rightarrow> bool" where
  "name_start c \<longleftrightarrow> letter c \<or> c = CHR ''_'' \<or> c = CHR '':''"

definition name_char :: "char \<Rightarrow> bool" where
  "name_char c \<longleftrightarrow> name_start c \<or> is_digit c \<or> c = CHR ''-'' \<or> c = CHR ''.''"

text \<open>A match of the attribute pattern at the start of a text; the value may be in either kind of quotes.\<close>

definition quoted_value :: "string \<Rightarrow> (string \<times> string) option" where
  "quoted_value s =
     (case s of [] \<Rightarrow> None
      | q # v \<Rightarrow> if q = CHR 0x22 \<or> q = CHR 0x27
                 then (case dropWhile (\<lambda>x. x \<noteq> q) v of [] \<Rightarrow> None | e # rest \<Rightarrow> Some (takeWhile (\<lambda>x. x \<noteq> q) v, rest))
                 else None)"

definition attribute_at :: "string \<Rightarrow> ((string \<times> string) \<times> string) option" where
  "attribute_at s =
     (if s = [] \<or> \<not> name_start (hd s) then None
      else (case dropWhile js_ws (dropWhile name_char s) of [] \<Rightarrow> None
            | e # u \<Rightarrow> if e = CHR ''='' then (case quoted_value (dropWhile js_ws u) of None \<Rightarrow> None
                                             | Some (value, rest) \<Rightarrow> Some ((takeWhile name_char s, value), rest))
                       else None))"

lemma quoted_value_shorter: "quoted_value s = Some (v, r) \<Longrightarrow> length r < length s"
proof -
  assume "quoted_value s = Some (v, r)"
  then obtain q t e where "s = q # t" "dropWhile (\<lambda>x. x \<noteq> q) t = e # r"
    by (auto simp: quoted_value_def split: list.splits if_splits)
  then show ?thesis using length_dropWhile_le [of "\<lambda>x. x \<noteq> q" t] by simp
qed

lemma attribute_at_shorter: "attribute_at s = Some (kv, r) \<Longrightarrow> length r < length s"
proof -
  assume "attribute_at s = Some (kv, r)"
  then obtain e u v where u: "dropWhile js_ws (dropWhile name_char s) = e # u" "quoted_value (dropWhile js_ws u) = Some (v, r)"
    by (auto simp: attribute_at_def split: if_splits list.splits option.splits)
  have "length r < length u" using quoted_value_shorter [OF u(2)] length_dropWhile_le [of js_ws u] by linarith
  moreover have "length (e # u) \<le> length s" unfolding u(1) [symmetric]
    by (rule order_trans [OF length_dropWhile_le length_dropWhile_le])
  ultimately show ?thesis by simp
qed

function attributes_of :: "string \<Rightarrow> (string \<times> string) list" where
  "attributes_of [] = []"
| "attributes_of (c # cs) =
     (case attribute_at (c # cs) of None \<Rightarrow> attributes_of cs | Some (kv, rest) \<Rightarrow> kv # attributes_of rest)"
  by pat_completeness auto
termination by (relation "measure length") (auto dest: attribute_at_shorter)

text \<open>The text of a tag without \<open><outline\<close> and without what matches \<open>/\/?\s*>$/\<close>.\<close>

definition strip_tag_end :: "string \<Rightarrow> string" where
  "strip_tag_end s =
     (if s \<noteq> [] \<and> last s = CHR ''>''
      then (let t = drop_end js_ws (butlast s) in if t \<noteq> [] \<and> last t = CHR ''/'' then butlast t else t)
      else s)"

definition parseAttributes :: "string \<Rightarrow> string \<Rightarrow> string option" where
  "parseAttributes tag =
     map_of (rev (map (\<lambda>(k, v). (k, decodeXmlEntities (js_trim v)))
       (attributes_of (strip_tag_end (opt_else (outline_open tag) tag)))))"

section \<open>Outline items\<close>

record parsed_item =
  pi_title :: "string option"
  pi_path :: "string option"
  pi_url :: string

definition text_or_null :: "string \<Rightarrow> string option" where
  "text_or_null s = (if s = '''' then None else Some s)"

definition closing_tag :: "string \<Rightarrow> bool" where
  "closing_tag t \<longleftrightarrow> prefix ''</'' t \<and> js_lower (take 7 (dropWhile js_ws (drop 2 t))) = ''outline''"

definition self_closing_tag :: "string \<Rightarrow> bool" where
  "self_closing_tag t \<longleftrightarrow> suffix ''/>'' t"

definition tag_title :: "string \<Rightarrow> string option" where
  "tag_title t = (let a = parseAttributes t in text_or_null (js_trim (opt_else (coalesce (a ''title'') (a ''text'')) '''')))"

definition tag_xmlUrl :: "string \<Rightarrow> string" where
  "tag_xmlUrl t = (let a = parseAttributes t in js_trim (opt_else (coalesce (a ''xmlUrl'') (a ''xmlurl'')) ''''))"

text \<open>The loop over the tags, with the stack of folder titles.\<close>

fun walk_tags :: "string list \<Rightarrow> parsed_item list \<Rightarrow> string list \<Rightarrow> string + parsed_item list" where
  "walk_tags pathStack parsed [] = (if pathStack \<noteq> [] then Inl ''opml_malformed_outline'' else Inr parsed)"
| "walk_tags pathStack parsed (tag # tags) =
     (let t = js_trim tag in
      if closing_tag t
      then (if pathStack = [] then Inl ''opml_malformed_outline'' else walk_tags (butlast pathStack) parsed tags)
      else if tag_xmlUrl t \<noteq> ''''
      then walk_tags pathStack (parsed @ [\<lparr>pi_title = tag_title t,
             pi_path = text_or_null (js_trim (js_join '' / '' (pathStack @ (case tag_title t of None \<Rightarrow> [] | Some x \<Rightarrow> [x])))),
             pi_url = tag_xmlUrl t\<rparr>]) tags
      else if \<not> self_closing_tag t \<and> tag_title t \<noteq> None then walk_tags (pathStack @ [the (tag_title t)]) parsed tags
      else walk_tags pathStack parsed tags)"

definition extractOpmlItems :: "nat \<Rightarrow> nat \<Rightarrow> string \<Rightarrow> string + parsed_item list" where
  "extractOpmlItems maxBytes maxOutlineTags opmlXml =
     (if maxBytes < utf8_length opmlXml then Inl ''opml_too_large''
      else (let xml = js_trim opmlXml in
            if xml = '''' \<or> \<not> js_includes (js_lower xml) ''<opml'' then Inl ''opml_invalid_root''
            else if js_includes (js_lower xml) ''<!doctype'' \<or> js_includes (js_lower xml) ''<!entity''
            then Inl ''opml_doctype_not_allowed''
            else (let tags = outline_tags xml in
                  if tags = [] then Inr []
                  else if maxOutlineTags < length tags then Inl ''opml_outline_limit_exceeded''
                  else walk_tags [] [] tags)))"

section \<open>Escaping\<close>

text \<open>The escaping an XML writer does in attribute values.\<close>

definition escape_char :: "char \<Rightarrow> string" where
  "escape_char c =
     (if c = CHR ''&'' then ''&amp;'' else if c = CHR ''<'' then ''&lt;'' else if c = CHR ''>'' then ''&gt;''
      else if c = CHR 0x22 then ''&quot;'' else if c = CHR 0x27 then ''&apos;'' else [c])"

definition xml_escape :: "string \<Rightarrow> string" where
  "xml_escape s = concat (map escape_char s)"

text \<open>After some of the replacements: the entities of \<open>K\<close> are still escaped.\<close>

definition escape_rest :: "char set \<Rightarrow> string \<Rightarrow> string" where
  "escape_rest K s = concat (map (\<lambda>c. if c \<in> K then escape_char c else [c]) s)"

lemma escape_rest_simps [simp]:
  "escape_rest K [] = []" "escape_rest K (c # cs) = (if c \<in> K then escape_char c else [c]) @ escape_rest K cs"
  by (simp_all add: escape_rest_def)

lemma escape_rest_all: "escape_rest {CHR ''&'', CHR ''<'', CHR ''>'', CHR 0x22, CHR 0x27} s = xml_escape s"
  by (induction s) (auto simp: xml_escape_def escape_char_def)

lemma escape_rest_none: "escape_rest {} s = s"
  by (induction s) auto

lemma undo_quot:
  "replace_all ''&quot;'' [CHR 0x22] (escape_rest {CHR ''&'', CHR ''<'', CHR ''>'', CHR 0x22, CHR 0x27} s)
     = escape_rest {CHR ''&'', CHR ''<'', CHR ''>'', CHR 0x27} s"
  by (induction s) (auto simp: escape_char_def)

lemma undo_apos:
  "replace_all ''&apos;'' [CHR 0x27] (escape_rest {CHR ''&'', CHR ''<'', CHR ''>'', CHR 0x27} s)
     = escape_rest {CHR ''&'', CHR ''<'', CHR ''>''} s"
  by (induction s) (auto simp: escape_char_def)

lemma undo_lt:
  "replace_all ''&lt;'' ''<'' (escape_rest {CHR ''&'', CHR ''<'', CHR ''>''} s) = escape_rest {CHR ''&'', CHR ''>''} s"
  by (induction s) (auto simp: escape_char_def)

lemma undo_gt: "replace_all ''&gt;'' ''>'' (escape_rest {CHR ''&'', CHR ''>''} s) = escape_rest {CHR ''&''} s"
  by (induction s) (auto simp: escape_char_def)

lemma undo_amp: "replace_all ''&amp;'' ''&'' (escape_rest {CHR ''&''} s) = escape_rest {} s"
  by (induction s) (auto simp: escape_char_def)

text \<open>Decoding inverts escaping, also where the text itself looks like an entity.\<close>

lemma decode_escape: "decodeXmlEntities (xml_escape s) = s"
  unfolding decodeXmlEntities_def escape_rest_all [symmetric] undo_quot undo_apos undo_lt undo_gt undo_amp
  by (rule escape_rest_none)


section \<open>Documents and their items\<close>

datatype outline = FeedOutline string string | Folder string "outline list"

text \<open>What an OPML writer emits: the list of the tags of an outline, and a whole document.\<close>

definition attr :: "string \<Rightarrow> string \<Rightarrow> string" where
  "attr name v = CHR '' '' # name @ ''='' @ [CHR 0x22] @ xml_escape v @ [CHR 0x22]"

definition feed_tag :: "string \<Rightarrow> string \<Rightarrow> string" where
  "feed_tag t u = ''<outline'' @ attr ''text'' t @ attr ''xmlUrl'' u @ ''/>''"

definition folder_tag :: "string \<Rightarrow> string" where
  "folder_tag t = ''<outline'' @ attr ''text'' t @ ''>''"

fun outline_print :: "outline \<Rightarrow> string list" where
  "outline_print (FeedOutline t u) = [feed_tag t u]"
| "outline_print (Folder t os) = [folder_tag t] @ concat (map outline_print os) @ [''</outline>'']"

definition opml_print :: "outline list \<Rightarrow> string" where
  "opml_print os = ''<opml><body>'' @ concat (concat (map outline_print os)) @ ''</body></opml>''"

text \<open>The items a document holds: every feed, in order, with the titles of its folders and its own as path.\<close>

fun outline_items :: "string list \<Rightarrow> outline \<Rightarrow> parsed_item list" where
  "outline_items path (FeedOutline t u) =
     [\<lparr>pi_title = Some t, pi_path = Some (js_join '' / '' (path @ [t])), pi_url = u\<rparr>]"
| "outline_items path (Folder t os) = concat (map (outline_items (path @ [t])) os)"

text \<open>A text that \<open>trim\<close> leaves alone.\<close>

definition trimmed :: "string \<Rightarrow> bool" where
  "trimmed s \<longleftrightarrow> s \<noteq> [] \<and> \<not> js_ws (hd s) \<and> \<not> js_ws (last s)"

fun outline_ok :: "outline \<Rightarrow> bool" where
  "outline_ok (FeedOutline t u) \<longleftrightarrow> trimmed t \<and> trimmed u"
| "outline_ok (Folder t os) \<longleftrightarrow> trimmed t \<and> (\<forall>x \<in> set os. outline_ok x)"

lemma trimmed_trim: "trimmed s \<Longrightarrow> js_trim s = s"
  by (cases s) (auto simp: trimmed_def js_trim_def drop_end_id)

lemma js_trim_Nil: "js_trim [] = []"
  by (simp add: js_trim_def)

lemma trimmed_nonempty: "trimmed s \<Longrightarrow> s \<noteq> []"
  by (simp add: trimmed_def)

lemma trimmed_append: "trimmed s \<Longrightarrow> trimmed t \<Longrightarrow> trimmed (s @ m @ t)"
  by (simp add: trimmed_def)

lemma trimmed_join: "xs \<noteq> [] \<Longrightarrow> \<forall>x \<in> set xs. trimmed x \<Longrightarrow> trimmed (js_join sep xs)"
proof (induction xs)
  case (Cons x xs)
  then show ?case by (cases "xs = []") (simp_all add: js_join_Cons trimmed_append)
qed simp

lemma ws_chars [simp]:
  "\<not> js_ws (CHR ''<'')" "\<not> js_ws (CHR ''>'')" "\<not> js_ws (CHR ''&'')" "\<not> js_ws (CHR '';'')" "\<not> js_ws (CHR ''/'')"
  "\<not> js_ws (CHR 0x22)" "\<not> js_ws (CHR ''='')" "js_ws (CHR '' '')"
  by (simp_all add: js_ws_def)

lemma escape_char_ends: "escape_char c \<noteq> [] \<and> (hd (escape_char c) = c \<or> hd (escape_char c) = CHR ''&'')
    \<and> (last (escape_char c) = c \<or> last (escape_char c) = CHR '';'')"
  by (simp add: escape_char_def)

lemma trimmed_escape: "trimmed s \<Longrightarrow> trimmed (xml_escape s)"
proof -
  assume s: "trimmed s"
  then have ne: "s \<noteq> []" by (simp add: trimmed_def)
  have "hd (xml_escape s) = hd (escape_char (hd s))"
    using ne escape_char_ends by (cases s) (simp_all add: xml_escape_def)
  moreover have "last (xml_escape s) = last (escape_char (last s))"
    using ne escape_char_ends by (cases s rule: rev_cases) (simp_all add: xml_escape_def)
  moreover have "xml_escape s \<noteq> []" using ne escape_char_ends by (cases s) (simp_all add: xml_escape_def)
  ultimately show ?thesis using s escape_char_ends [of "hd s"] escape_char_ends [of "last s"]
    by (auto simp: trimmed_def)
qed

lemma escape_plain: "c \<in> set (xml_escape s) \<Longrightarrow> c \<noteq> CHR ''<'' \<and> c \<noteq> CHR ''>'' \<and> c \<noteq> CHR 0x22"
  by (auto simp: xml_escape_def escape_char_def split: if_splits)

text \<open>The tags of a printed document are found again.\<close>

lemma outline_tag_found:
  assumes "\<not> word_char c" and "CHR ''>'' \<notin> set (c # b)"
  shows "outline_tag (''<outline'' @ (c # b) @ ''>'' @ rest) = Some (''<outline'' @ (c # b) @ ''>'', rest)"
proof -
  have word: "outline_word (''outline'' @ (c # b) @ ''>'' @ rest) = Some ((c # b) @ ''>'' @ rest)"
    using assms(1) by (simp add: outline_word_def js_ws_def js_lower_def js_lower_char_def)
  define w where "w = ''<outline'' @ (c # b) @ ''>''"
  have w: "''<outline'' @ (c # b) @ ''>'' @ rest = w @ rest" by (simp add: w_def)
  have "outline_open (w @ rest) = Some ((c # b) @ ''>'' @ rest)"
    unfolding w [symmetric] using word by (simp add: outline_open_def)
  moreover have "dropWhile (\<lambda>x. x \<noteq> CHR ''>'') ((c # b) @ ''>'' @ rest) = ''>'' @ rest"
    using assms(2) by (subst dropWhile_append2) auto
  ultimately show ?thesis unfolding w w_def [symmetric] by (simp add: outline_tag_def)
qed

lemma close_tag_found: "outline_tag (''</outline>'' @ rest) = Some (''</outline>'', rest)"
  by (simp add: outline_tag_def outline_open_def outline_word_def js_ws_def js_lower_def js_lower_char_def word_char_def
      letter_def is_digit_def)

definition tag_ok :: "string \<Rightarrow> bool" where
  "tag_ok t \<longleftrightarrow> t = ''</outline>'' \<or> (\<exists>c b. \<not> word_char c \<and> CHR ''>'' \<notin> set (c # b) \<and> t = ''<outline'' @ (c # b) @ ''>'')"

lemma tag_ok_found:
  assumes "tag_ok t"
  shows "outline_tags (t @ rest) = t # outline_tags rest"
proof -
  have "outline_tag (t @ rest) = Some (t, rest)"
    using assms close_tag_found [of rest] outline_tag_found [where rest = rest] by (fastforce simp: tag_ok_def)
  moreover obtain c cs where "t @ rest = c # cs" using assms by (auto simp: tag_ok_def)
  ultimately show ?thesis by (metis (mono_tags, lifting) option.case(2) outline_tags.simps(2) prod.case)
qed

lemma tags_found: "\<forall>t \<in> set ts. tag_ok t \<Longrightarrow> outline_tags (concat ts @ rest) = ts @ outline_tags rest"
  by (induction ts) (simp_all add: tag_ok_found)

lemma attr_plain:
  "\<not> ({CHR ''<'', CHR ''>''} \<inter> set name \<noteq> {}) \<Longrightarrow> CHR ''>'' \<notin> set (attr name v) \<and> CHR ''<'' \<notin> set (attr name v)"
  using escape_plain by (auto simp: attr_def)

lemma attrs_plain [simp]:
  "CHR ''>'' \<notin> set (attr ''text'' v)" "CHR ''>'' \<notin> set (attr ''xmlUrl'' v)"
  "CHR ''<'' \<notin> set (attr ''text'' v)" "CHR ''<'' \<notin> set (attr ''xmlUrl'' v)"
  by (simp_all add: attr_plain)

lemma feed_tag_ok: "tag_ok (feed_tag t u)"
proof -
  let ?b = "tl (attr ''text'' t) @ attr ''xmlUrl'' u @ ''/''"
  have b: "CHR '' '' # ?b = attr ''text'' t @ attr ''xmlUrl'' u @ ''/''" by (simp add: attr_def)
  have "CHR ''>'' \<notin> set (CHR '' '' # ?b)" unfolding b by simp
  moreover have "feed_tag t u = ''<outline'' @ (CHR '' '' # ?b) @ ''>''" unfolding b by (simp add: feed_tag_def)
  moreover have "\<not> word_char (CHR '' '')" by (simp add: word_char_def letter_def is_digit_def)
  ultimately show ?thesis unfolding tag_ok_def by blast
qed

lemma folder_tag_ok: "tag_ok (folder_tag t)"
proof -
  let ?b = "tl (attr ''text'' t)"
  have b: "CHR '' '' # ?b = attr ''text'' t" by (simp add: attr_def)
  have "CHR ''>'' \<notin> set (CHR '' '' # ?b)" unfolding b by simp
  moreover have "folder_tag t = ''<outline'' @ (CHR '' '' # ?b) @ ''>''" unfolding b by (simp add: folder_tag_def)
  moreover have "\<not> word_char (CHR '' '')" by (simp add: word_char_def letter_def is_digit_def)
  ultimately show ?thesis unfolding tag_ok_def by blast
qed

lemma print_tags_ok: "t \<in> set (outline_print x) \<Longrightarrow> tag_ok t"
  by (induction x) (auto simp: feed_tag_ok folder_tag_ok, simp add: tag_ok_def)

text \<open>The attributes of a printed tag.\<close>

lemma quoted_escape:
  "quoted_value (CHR 0x22 # xml_escape v @ CHR 0x22 # rest) = Some (xml_escape v, rest)"
proof -
  have plain: "\<forall>c \<in> set (xml_escape v). c \<noteq> CHR 0x22" using escape_plain by auto
  have "takeWhile (\<lambda>x. x \<noteq> CHR 0x22) (xml_escape v @ CHR 0x22 # rest) = xml_escape v"
    "dropWhile (\<lambda>x. x \<noteq> CHR 0x22) (xml_escape v @ CHR 0x22 # rest) = CHR 0x22 # rest"
    using plain by (simp_all add: takeWhile_append2 dropWhile_append2)
  then show ?thesis by (simp add: quoted_value_def)
qed

lemma attributes_attr:
  assumes "name \<noteq> []" and "\<forall>c \<in> set name. name_start c"
  shows "attributes_of (attr name v @ rest) = (name, xml_escape v) # attributes_of rest"
proof -
  obtain n ns where name: "name = n # ns" using assms(1) by (cases name) auto
  have nc: "\<forall>c \<in> set name. name_char c" using assms(2) by (simp add: name_char_def)
  have eq: "\<not> name_char (CHR ''='')" by (simp add: name_char_def name_start_def letter_def is_digit_def)
  have split: "takeWhile name_char (name @ CHR ''='' # x) = name" "dropWhile name_char (name @ CHR ''='' # x) = CHR ''='' # x" for x
    using nc eq by (simp_all add: takeWhile_append2 dropWhile_append2)
  have at: "attribute_at (name @ CHR ''='' # CHR 0x22 # xml_escape v @ CHR 0x22 # rest) = Some ((name, xml_escape v), rest)"
    unfolding attribute_at_def split using assms(2) by (simp add: name quoted_escape)
  have sp: "attribute_at (CHR '' '' # x) = None" for x
    by (simp add: attribute_at_def name_start_def letter_def)
  have "attr name v @ rest = CHR '' '' # (name @ CHR ''='' # CHR 0x22 # xml_escape v @ CHR 0x22 # rest)"
    by (simp add: attr_def)
  then have "attributes_of (attr name v @ rest) = attributes_of (name @ CHR ''='' # CHR 0x22 # xml_escape v @ CHR 0x22 # rest)"
    by (simp add: sp)
  also have "\<dots> = (name, xml_escape v) # attributes_of rest"
    using at unfolding name by simp
  finally show ?thesis .
qed

lemma strip_tag_end_simps:
  "strip_tag_end (x @ [CHR 0x22] @ ''/>'') = x @ [CHR 0x22]" "strip_tag_end (x @ [CHR 0x22] @ ''>'') = x @ [CHR 0x22]"
  by (simp_all add: strip_tag_end_def butlast_append drop_end_id)

lemma outline_open_tag:
  "\<not> word_char c \<Longrightarrow> outline_open (''<outline'' @ c # b) = Some (c # b)"
  by (simp add: outline_open_def outline_word_def js_ws_def js_lower_def js_lower_char_def)

lemma attr_ends: "\<exists>x. attr name v = x @ [CHR 0x22]"
  by (simp add: attr_def)

lemma attr_starts: "\<exists>b. attr name v = CHR '' '' # b"
  by (simp add: attr_def)

lemma blank_not_word: "\<not> word_char (CHR '' '')"
  by (simp add: word_char_def letter_def is_digit_def)

lemma tag_attributes:
  assumes "a = attr name v \<or> a = attr n0 v0 @ attr name v"
  shows "strip_tag_end (opt_else (outline_open (''<outline'' @ a @ ''/>'')) x) = a"
    and "strip_tag_end (opt_else (outline_open (''<outline'' @ a @ ''>'')) x) = a"
proof -
  obtain b where b: "a = CHR '' '' # b" using assms attr_starts [of name v] attr_starts [of n0 v0] by auto
  obtain c where c: "a = c @ [CHR 0x22]" using assms attr_ends [of name v] attr_ends [of n0 v0] by auto
  have "outline_open (''<outline'' @ a @ y) = Some (a @ y)" for y
    unfolding b using outline_open_tag [OF blank_not_word] by simp
  then show "strip_tag_end (opt_else (outline_open (''<outline'' @ a @ ''/>'')) x) = a"
    and "strip_tag_end (opt_else (outline_open (''<outline'' @ a @ ''>'')) x) = a"
    using strip_tag_end_simps [of c] c by (simp_all add: opt_else_def)
qed

lemma name_letters: "\<forall>c \<in> set ''text''. name_start c" "\<forall>c \<in> set ''xmlUrl''. name_start c"
  by (simp_all add: name_start_def letter_def)

lemma attributes_feed:
  "attributes_of (attr ''text'' t @ attr ''xmlUrl'' u) = [(''text'', xml_escape t), (''xmlUrl'', xml_escape u)]"
  using attributes_attr [OF _ name_letters(1), of t "attr ''xmlUrl'' u"] attributes_attr [OF _ name_letters(2), of u "[]"]
  by simp

lemma attributes_folder: "attributes_of (attr ''text'' t) = [(''text'', xml_escape t)]"
  using attributes_attr [OF _ name_letters(1), of t "[]"] by simp

lemma parse_feed_tag:
  assumes "trimmed t" "trimmed u"
  shows "tag_title (feed_tag t u) = Some t" "tag_xmlUrl (feed_tag t u) = u"
proof -
  have "parseAttributes (feed_tag t u) = map_of [(''xmlUrl'', u), (''text'', t)]"
    using tag_attributes(1) [of "attr ''text'' t @ attr ''xmlUrl'' u" "''xmlUrl''" u "''text''" t] assms
    by (simp add: parseAttributes_def feed_tag_def attributes_feed trimmed_trim trimmed_escape decode_escape)
  then show "tag_title (feed_tag t u) = Some t" "tag_xmlUrl (feed_tag t u) = u"
    using assms by (simp_all add: tag_title_def tag_xmlUrl_def opt_else_def coalesce_def text_or_null_def trimmed_trim
        trimmed_nonempty Let_def)
qed

lemma parse_folder_tag:
  assumes "trimmed t"
  shows "tag_title (folder_tag t) = Some t" "tag_xmlUrl (folder_tag t) = ''''"
proof -
  have "parseAttributes (folder_tag t) = map_of [(''text'', t)]"
    using tag_attributes(2) [of "attr ''text'' t" "''text''" t] assms
    by (simp add: parseAttributes_def folder_tag_def attributes_folder trimmed_trim trimmed_escape decode_escape)
  then show "tag_title (folder_tag t) = Some t" "tag_xmlUrl (folder_tag t) = ''''"
    using assms by (simp_all add: tag_title_def tag_xmlUrl_def opt_else_def coalesce_def text_or_null_def trimmed_trim
        trimmed_nonempty Let_def js_trim_Nil)
qed

lemma printed_tag_trim [simp]: "js_trim (feed_tag t u) = feed_tag t u" "js_trim (folder_tag t) = folder_tag t"
  "js_trim ''</outline>'' = ''</outline>''"
  by (rule trimmed_trim; simp add: trimmed_def feed_tag_def folder_tag_def)+

lemma printed_tag_kind [simp]: "\<not> closing_tag (feed_tag t u)" "\<not> closing_tag (folder_tag t)" "closing_tag ''</outline>''"
  "\<not> self_closing_tag (folder_tag t)"
  by (simp_all add: closing_tag_def self_closing_tag_def feed_tag_def folder_tag_def attr_def suffix_to_prefix js_ws_def
      js_lower_def js_lower_char_def)

lemma walk_outline:
  "outline_ok x \<Longrightarrow> \<forall>p \<in> set st. trimmed p \<Longrightarrow>
     walk_tags st acc (outline_print x @ rest) = walk_tags st (acc @ outline_items st x) rest"
proof (induction x arbitrary: st acc rest)
  case (FeedOutline t u)
  then have "js_trim (js_join '' / '' (st @ [t])) = js_join '' / '' (st @ [t])" "js_join '' / '' (st @ [t]) \<noteq> []"
    using trimmed_trim [OF trimmed_join] trimmed_nonempty [OF trimmed_join, of "st @ [t]"] by simp_all
  then show ?case using FeedOutline.prems(1)
    by (simp add: parse_feed_tag text_or_null_def trimmed_nonempty Let_def)
next
  case (Folder t os)
  have st: "\<forall>p \<in> set (st @ [t]). trimmed p" using Folder.prems by simp
  have "\<forall>x \<in> set ys. x \<in> set os \<Longrightarrow> walk_tags (st @ [t]) acc (concat (map outline_print ys) @ rest)
      = walk_tags (st @ [t]) (acc @ concat (map (outline_items (st @ [t])) ys)) rest" for ys acc rest
    using Folder.IH [OF _ _ st] Folder.prems(1) by (induction ys arbitrary: acc) auto
  from this [of os] show ?case
    using Folder.prems(1) by (simp add: parse_folder_tag Let_def)
qed

lemma walk_outlines:
  "\<forall>x \<in> set os. outline_ok x \<Longrightarrow>
     walk_tags [] acc (concat (map outline_print os)) = Inr (acc @ concat (map (outline_items []) os))"
  using walk_outline [of _ "[]"] by (induction os arbitrary: acc) auto

text \<open>A printed document has no \<open><!\<close>.\<close>

definition bang_free :: "string \<Rightarrow> bool" where
  "bang_free s \<longleftrightarrow> successively (\<lambda>a b. \<not> (a = CHR ''<'' \<and> b = CHR ''!'')) s"

lemma bang_free_plain: "CHR ''<'' \<notin> set s \<Longrightarrow> bang_free s"
  unfolding bang_free_def by (induction s rule: induct_list012) auto

lemma bang_free_append: "bang_free s \<Longrightarrow> bang_free t \<Longrightarrow> hd t \<noteq> CHR ''!'' \<Longrightarrow> bang_free (s @ t)"
  by (auto simp: bang_free_def successively_append_iff)

lemma bang_free_tag: "CHR ''<'' \<notin> set x \<Longrightarrow> hd x \<noteq> CHR ''!'' \<Longrightarrow> bang_free (CHR ''<'' # x)"
  using bang_free_plain [of x] by (cases x) (auto simp: bang_free_def)

lemma bang_free_concat:
  "\<forall>t \<in> set ts. bang_free t \<and> t \<noteq> [] \<and> hd t \<noteq> CHR ''!'' \<Longrightarrow> bang_free rest \<Longrightarrow> hd rest \<noteq> CHR ''!'' \<Longrightarrow>
     bang_free (concat ts @ rest) \<and> hd (concat ts @ rest) \<noteq> CHR ''!''"
  by (induction ts) (auto simp: bang_free_append hd_append)

lemma bang_free_printed: "t \<in> set (outline_print x) \<Longrightarrow> bang_free t \<and> t \<noteq> [] \<and> hd t \<noteq> CHR ''!''"
proof (induction x)
  case (FeedOutline t u)
  then show ?case
    using bang_free_tag [of "''outline'' @ attr ''text'' t @ attr ''xmlUrl'' u @ ''/>''"] by (simp add: feed_tag_def)
next
  case (Folder t os)
  have "bang_free (folder_tag t)"
    using bang_free_tag [of "''outline'' @ attr ''text'' t @ ''>''"] by (simp add: folder_tag_def)
  moreover have "bang_free ''</outline>''" by (simp add: bang_free_def)
  ultimately show ?case using Folder by (auto simp: folder_tag_def)
qed

lemma bang_free_lower: "bang_free s \<Longrightarrow> \<not> js_includes (js_lower s) (CHR ''<'' # CHR ''!'' # x)"
proof
  assume s: "bang_free s" and "js_includes (js_lower s) (CHR ''<'' # CHR ''!'' # x)"
  then obtain a b where "map js_lower_char s = a @ CHR ''<'' # CHR ''!'' # x @ b"
    by (auto simp: js_includes_def js_lower_def sublist_def)
  then obtain a' c d b' where "s = a' @ c # d # b'" "js_lower_char c = CHR ''<''" "js_lower_char d = CHR ''!''"
    by (auto simp: map_eq_append_conv map_eq_Cons_conv)
  moreover have low: "js_lower_char c = e \<Longrightarrow> of_char e < (65 :: nat) \<Longrightarrow> c = e" for c e
    by (auto simp: js_lower_char_def Let_def split: if_splits)
  ultimately have "s = a' @ CHR ''<'' # CHR ''!'' # b'" using low [of c "CHR ''<''"] low [of d "CHR ''!''"] by simp
  then show False using s by (simp add: bang_free_def successively_append_iff)
qed


definition news_opml :: "outline list" where
  "news_opml = [Folder ''R&D <news>'' [FeedOutline ''a > b'' ''http://n.example/?x=1&y=2''], FeedOutline ''Top'' ''http://t.example/'']"


text \<open>
  What XML allows and the parser does not: a folder without a title, and a feed outline closed by an end tag. Neither
  opens an entry of the stack, but the end tag of each closes one.
\<close>

lemma untitled_folder_refused:
  "extractOpmlItems 1000 10 ''<opml><outline><outline text=\"a\" xmlUrl=\"http://a/\"/></outline></opml>''
     = Inl ''opml_malformed_outline''"
  by code_simp

lemma closed_feed_refused:
  "extractOpmlItems 1000 10 ''<opml><outline text=\"a\" xmlUrl=\"http://a/\"></outline></opml>''
     = Inl ''opml_malformed_outline''"
  by code_simp

text \<open>The same end tag closes the folder around the feed: the next feed is filed outside it.\<close>

lemma closed_feed_leaves_folder:
  "extractOpmlItems 1000 10
     ''<opml><outline text=\"F\"><outline text=\"a\" xmlUrl=\"a\"></outline><outline text=\"b\" xmlUrl=\"b\"/></opml>''
     = Inr [\<lparr>pi_title = Some ''a'', pi_path = Some ''F / a'', pi_url = ''a''\<rparr>,
            \<lparr>pi_title = Some ''b'', pi_path = Some ''b'', pi_url = ''b''\<rparr>]"
  by code_simp

text \<open>A title whose XML holds a bare \<open>>\<close> ends the tag too early: the feed is lost without an error.\<close>

lemma bare_gt_loses_feed:
  "extractOpmlItems 1000 10 ''<opml><outline text=\"a > b\" xmlUrl=\"http://a/\"/></opml>'' = Inr []"
  by code_simp

end
