(* ===== verification/Opml_Store.thy ===== *)
theory Opml_Store imports Http_Common Opml_Parser Job_Queues begin

text \<open>
  OPML opml_imports at rest: the status machine of \<open>src/modules/opml-opml_imports/domain/opml-import-status.ts\<close> and the
  repository \<open>opml-opml_imports.repository.ts\<close>, over the tables \<open>opml_imports\<close> and \<open>opml_import_items\<close> with the
  constraints of the migrations. The column \<open>updated_at\<close> of an item is written and never read; it is left out.
  Lemmas: what each operation keeps of the tables' constraints, and which rows it can change.
\<close>

section \<open>Status\<close>

datatype opml_status = Uploaded | Parsing | PreviewReady | Importing | Completed | FailedValidation | ImportFailed

fun status_name :: "opml_status \<Rightarrow> string" where
  "status_name Uploaded = ''uploaded''"
| "status_name Parsing = ''parsing''"
| "status_name PreviewReady = ''preview_ready''"
| "status_name Importing = ''importing''"
| "status_name Completed = ''completed''"
| "status_name FailedValidation = ''failed_validation''"
| "status_name ImportFailed = ''failed''"

definition OPML_IMPORT_STATUSES :: "opml_status list" where
  "OPML_IMPORT_STATUSES = [Uploaded, Parsing, PreviewReady, Importing, Completed, FailedValidation, ImportFailed]"

fun valid_transitions :: "opml_status \<Rightarrow> opml_status list" where
  "valid_transitions Uploaded = [Parsing, FailedValidation]"
| "valid_transitions Parsing = [PreviewReady, FailedValidation]"
| "valid_transitions PreviewReady = [Importing, ImportFailed]"
| "valid_transitions Importing = [Completed, ImportFailed]"
| "valid_transitions Completed = []"
| "valid_transitions FailedValidation = []"
| "valid_transitions ImportFailed = []"

definition isOpmlImportStatus :: "string \<Rightarrow> bool" where
  "isOpmlImportStatus v \<longleftrightarrow> v \<in> set (map status_name OPML_IMPORT_STATUSES)"

definition canTransitionOpmlImportStatus :: "opml_status \<Rightarrow> opml_status \<Rightarrow> bool" where
  "canTransitionOpmlImportStatus old new \<longleftrightarrow> old = new \<or> new \<in> set (valid_transitions old)"

definition assertValidOpmlImportStatusTransition :: "opml_status \<Rightarrow> opml_status \<Rightarrow> string + unit" where
  "assertValidOpmlImportStatusTransition old new =
     (if canTransitionOpmlImportStatus old new then Inr ()
      else Inl (''invalid_opml_import_status_transition:'' @ status_name old @ ''->'' @ status_name new))"

section \<open>Rows\<close>

datatype item_status = ItemNew | ItemExisting | ItemDuplicate | ItemInvalid | ItemImported | ItemFailed

record item_input =
  ii_title :: "string option"
  ii_path :: "string option"
  ii_source_url :: string
  ii_url :: "string option"
  ii_hash :: "string option"
  ii_status :: item_status
  ii_error :: "string option"

record import_summary =
  im_id :: nat
  im_status :: opml_status
  im_file_name :: string
  im_file_size :: nat
  im_checksum :: "string option"
  im_error :: "string option"
  im_total :: nat
  im_valid :: nat
  im_duplicate :: nat
  im_existing :: nat
  im_invalid :: nat
  im_imported :: nat
  im_uploaded_at :: msec
  im_confirmed_at :: "msec option"
  im_completed_at :: "msec option"
  im_created_at :: msec
  im_updated_at :: msec

record opml_import = import_summary +
  im_tenant :: string

record preview_item =
  pv_id :: nat
  pv_title :: "string option"
  pv_path :: "string option"
  pv_source_url :: "string option"
  pv_url :: "string option"
  pv_status :: item_status
  pv_error :: "string option"
  pv_feed :: "nat option"

record opml_item = preview_item +
  it_tenant :: string
  it_import :: nat
  it_hash :: "string option"

record opml_db =
  opml_imports :: "opml_import list"
  next_import :: nat
  opml_items :: "opml_item list"
  next_item :: nat

definition mapImport :: "opml_import \<Rightarrow> import_summary" where
  "mapImport row = import_summary.truncate row"

definition mapPreviewItem :: "opml_item \<Rightarrow> preview_item" where
  "mapPreviewItem row = preview_item.truncate row"

lemma mapImport_sel [simp]:
  "im_id (mapImport r) = im_id r" "im_status (mapImport r) = im_status r" "im_total (mapImport r) = im_total r"
  "im_valid (mapImport r) = im_valid r" "im_invalid (mapImport r) = im_invalid r"
  by (simp_all add: mapImport_def import_summary.truncate_def)

lemma mapPreviewItem_sel [simp]:
  "pv_id (mapPreviewItem r) = pv_id r" "pv_status (mapPreviewItem r) = pv_status r" "pv_url (mapPreviewItem r) = pv_url r"
  "pv_title (mapPreviewItem r) = pv_title r" "pv_feed (mapPreviewItem r) = pv_feed r"
  by (simp_all add: mapPreviewItem_def preview_item.truncate_def)

section \<open>Imports\<close>

definition getImportTenantId :: "nat \<Rightarrow> opml_db \<Rightarrow> api_error + string" where
  "getImportTenantId i db =
     (case row_by im_id i (opml_imports db) of None \<Rightarrow> Inl (NotFound ''opml_import_not_found'') | Some r \<Rightarrow> Inr (im_tenant r))"

definition new_import :: "nat \<Rightarrow> msec \<Rightarrow> string \<Rightarrow> string \<Rightarrow> nat \<Rightarrow> string \<Rightarrow> opml_import" where
  "new_import i now tenant fileName fileSizeBytes sourceChecksum =
     \<lparr>im_id = i, im_status = Uploaded, im_file_name = fileName, im_file_size = fileSizeBytes,
      im_checksum = Some sourceChecksum, im_error = None, im_total = 0, im_valid = 0, im_duplicate = 0,
      im_existing = 0, im_invalid = 0, im_imported = 0, im_uploaded_at = now, im_confirmed_at = None,
      im_completed_at = None, im_created_at = now, im_updated_at = now, im_tenant = tenant\<rparr>"

definition createImport ::
  "msec \<Rightarrow> string \<Rightarrow> string \<Rightarrow> nat \<Rightarrow> string \<Rightarrow> opml_db \<Rightarrow> opml_db \<times> import_summary" where
  "createImport now tenant fileName fileSizeBytes sourceChecksum db =
     (let row = new_import (next_import db) now tenant fileName fileSizeBytes sourceChecksum
      in (db\<lparr>opml_imports := opml_imports db @ [row], next_import := next_import db + 1\<rparr>, mapImport row))"

definition findImportByIdForTenant :: "nat \<Rightarrow> string \<Rightarrow> opml_db \<Rightarrow> import_summary option" where
  "findImportByIdForTenant i tenant db =
     map_option mapImport (find (\<lambda>r. im_id r = i \<and> im_tenant r = tenant) (opml_imports db))"

definition findImportByIdForWorker :: "nat \<Rightarrow> opml_db \<Rightarrow> import_summary option" where
  "findImportByIdForWorker i db = map_option mapImport (row_by im_id i (opml_imports db))"

definition findImportById :: "nat \<Rightarrow> string option \<Rightarrow> opml_db \<Rightarrow> import_summary option" where
  "findImportById i tenantId db =
     (case tenantId of None \<Rightarrow> findImportByIdForWorker i db | Some t \<Rightarrow> findImportByIdForTenant i t db)"

definition or_not_found :: "'a option \<Rightarrow> api_error + 'a" where
  "or_not_found found = (case found of None \<Rightarrow> Inl (NotFound ''opml_import_not_found'') | Some x \<Rightarrow> Inr x)"

definition getImportOrThrow :: "nat \<Rightarrow> string option \<Rightarrow> opml_db \<Rightarrow> api_error + import_summary" where
  "getImportOrThrow i tenantId db = or_not_found (findImportById i tenantId db)"

definition getImportOrThrowForTenant :: "nat \<Rightarrow> string \<Rightarrow> opml_db \<Rightarrow> api_error + import_summary" where
  "getImportOrThrowForTenant i tenant db = or_not_found (findImportByIdForTenant i tenant db)"

definition getImportOrThrowForWorker :: "nat \<Rightarrow> opml_db \<Rightarrow> api_error + import_summary" where
  "getImportOrThrowForWorker i db = or_not_found (findImportByIdForWorker i db)"

record import_counters =
  totalItems :: "nat option"
  validItems :: "nat option"
  duplicateItems :: "nat option"
  existingItems :: "nat option"
  invalidItems :: "nat option"
  importedItems :: "nat option"

definition no_counters :: import_counters where
  "no_counters = \<lparr>totalItems = None, validItems = None, duplicateItems = None, existingItems = None,
     invalidItems = None, importedItems = None\<rparr>"

record status_mark =
  mk_status :: opml_status
  mk_error :: "string option"
  mk_confirmed :: bool
  mk_completed :: bool
  mk_counters :: import_counters

definition marked_row :: "msec \<Rightarrow> status_mark \<Rightarrow> opml_import \<Rightarrow> opml_import" where
  "marked_row now m r =
     r\<lparr>im_status := mk_status m,
       im_error := coalesce (mk_error m) (im_error r),
       im_total := opt_else (totalItems (mk_counters m)) (im_total r),
       im_valid := opt_else (validItems (mk_counters m)) (im_valid r),
       im_duplicate := opt_else (duplicateItems (mk_counters m)) (im_duplicate r),
       im_existing := opt_else (existingItems (mk_counters m)) (im_existing r),
       im_invalid := opt_else (invalidItems (mk_counters m)) (im_invalid r),
       im_imported := opt_else (importedItems (mk_counters m)) (im_imported r),
       im_confirmed_at := (if mk_confirmed m then coalesce (im_confirmed_at r) (Some now) else im_confirmed_at r),
       im_completed_at := (if mk_completed m then Some now else im_completed_at r),
       im_updated_at := now\<rparr>"

definition markImportStatus :: "msec \<Rightarrow> nat \<Rightarrow> status_mark \<Rightarrow> opml_db \<Rightarrow> opml_db \<times> (api_error + import_summary)" where
  "markImportStatus now i m db =
     (case sql_returning (\<lambda>r. im_id r = i) (marked_row now m) (opml_imports db) of
        [] \<Rightarrow> (db, Inl (NotFound ''opml_import_not_found''))
      | r # _ \<Rightarrow> (db\<lparr>opml_imports := sql_update (\<lambda>r. im_id r = i) (marked_row now m) (opml_imports db)\<rparr>, Inr (mapImport r)))"

section \<open>Items\<close>

definition new_item :: "nat \<Rightarrow> string \<Rightarrow> nat \<Rightarrow> item_input \<Rightarrow> opml_item" where
  "new_item k tenant i x =
     \<lparr>pv_id = k, pv_title = ii_title x, pv_path = ii_path x, pv_source_url = Some (ii_source_url x), pv_url = ii_url x,
      pv_status = ii_status x, pv_error = ii_error x, pv_feed = None, it_tenant = tenant, it_import = i, it_hash = ii_hash x\<rparr>"

text \<open>
  The constraints: the check \<open>opml_import_items_normalized_url_required\<close>, and the unique index on the import and the
  hash of the rows that are not duplicates.
\<close>

definition item_check :: "opml_item \<Rightarrow> bool" where
  "item_check r \<longleftrightarrow> pv_status r = ItemInvalid \<or> (pv_url r \<noteq> None \<and> it_hash r \<noteq> None)"

definition same_item :: "opml_item \<Rightarrow> opml_item \<Rightarrow> bool" where
  "same_item r s \<longleftrightarrow> it_import r = it_import s \<and> it_hash r = it_hash s \<and> it_hash r \<noteq> None
     \<and> pv_status r \<noteq> ItemDuplicate \<and> pv_status s \<noteq> ItemDuplicate"

definition insert_item :: "string \<Rightarrow> nat \<Rightarrow> item_input \<Rightarrow> opml_db \<Rightarrow> opml_db \<times> (api_error + unit)" where
  "insert_item tenant i x db =
     (let row = new_item (next_item db) tenant i x; db1 = db\<lparr>next_item := next_item db + 1\<rparr>
      in if \<not> item_check row then (db1, Inl (Unexpected ''opml_import_items_normalized_url_required''))
         else if list_ex (same_item row) (opml_items db) then (db1, Inl (Unexpected ''idx_opml_import_items_dedupe_per_import''))
         else (db1\<lparr>opml_items := opml_items db @ [row]\<rparr>, Inr ()))"

fun insert_items :: "string \<Rightarrow> nat \<Rightarrow> item_input list \<Rightarrow> opml_db \<Rightarrow> opml_db \<times> (api_error + unit)" where
  "insert_items tenant i [] db = (db, Inr ())"
| "insert_items tenant i (x # xs) db =
     (case insert_item tenant i x db of
        (db1, Inl e) \<Rightarrow> (db1, Inl e)
      | (db1, Inr _) \<Rightarrow> insert_items tenant i xs db1)"

definition replaceImportItems :: "nat \<Rightarrow> item_input list \<Rightarrow> opml_db \<Rightarrow> opml_db \<times> (api_error + unit)" where
  "replaceImportItems i xs db =
     (case getImportTenantId i db of
        Inl e \<Rightarrow> (db, Inl e)
      | Inr tenant \<Rightarrow> insert_items tenant i xs (db\<lparr>opml_items := filter (\<lambda>r. it_import r \<noteq> i) (opml_items db)\<rparr>))"

text \<open>Rows are kept in the order of their ids, which is the order of every listing.\<close>

definition import_items :: "nat \<Rightarrow> opml_db \<Rightarrow> opml_item list" where
  "import_items i db = filter (\<lambda>r. it_import r = i) (opml_items db)"

definition listPreviewItems :: "nat \<Rightarrow> nat \<Rightarrow> nat \<Rightarrow> opml_db \<Rightarrow> preview_item list \<times> nat" where
  "listPreviewItems i page pageSize db =
     (map mapPreviewItem (sql_page pageSize ((page - 1) * pageSize) (import_items i db)), length (import_items i db))"

definition listNewCandidateItems :: "nat \<Rightarrow> opml_db \<Rightarrow> preview_item list" where
  "listNewCandidateItems i db = map mapPreviewItem (filter (\<lambda>r. pv_status r = ItemNew) (import_items i db))"

definition markItemImported :: "nat \<Rightarrow> nat \<Rightarrow> opml_db \<Rightarrow> opml_db" where
  "markItemImported k feed db =
     db\<lparr>opml_items := sql_update (\<lambda>r. pv_id r = k) (\<lambda>r. r\<lparr>pv_status := ItemImported, pv_feed := Some feed\<rparr>) (opml_items db)\<rparr>"

definition markItemFailed :: "nat \<Rightarrow> string \<Rightarrow> opml_db \<Rightarrow> opml_db" where
  "markItemFailed k validationError db =
     db\<lparr>opml_items := sql_update (\<lambda>r. pv_id r = k) (\<lambda>r. r\<lparr>pv_status := ItemFailed, pv_error := Some validationError\<rparr>) (opml_items db)\<rparr>"

text \<open>A status no item has is missing from the result; the callers read it as 0.\<close>

definition countItemsByStatus :: "nat \<Rightarrow> opml_db \<Rightarrow> item_status \<Rightarrow> nat" where
  "countItemsByStatus i db st = length (filter (\<lambda>r. pv_status r = st) (import_items i db))"

definition grouped_total :: "nat \<Rightarrow> opml_db \<Rightarrow> nat" where
  "grouped_total i db =
     sum_list (map (countItemsByStatus i db) [ItemNew, ItemExisting, ItemDuplicate, ItemInvalid, ItemImported, ItemFailed])"

section \<open>Facts\<close>

lemma grouped_total_length: "grouped_total i db = length (import_items i db)"
proof -
  have "sum_list (map (\<lambda>st. length (filter (\<lambda>r. pv_status r = st) rs))
      [ItemNew, ItemExisting, ItemDuplicate, ItemInvalid, ItemImported, ItemFailed]) = length rs" for rs :: "opml_item list"
  proof (induction rs)
    case (Cons r rs)
    then show ?case by (cases "pv_status r") simp_all
  qed simp
  then show ?thesis by (simp add: grouped_total_def countItemsByStatus_def [abs_def])
qed

text \<open>Keys, references and constraints of the two tables.\<close>

definition opml_ok :: "opml_db \<Rightarrow> bool" where
  "opml_ok db \<longleftrightarrow> distinct (map im_id (opml_imports db)) \<and> (\<forall>r \<in> set (opml_imports db). im_id r < next_import db)
     \<and> distinct (map pv_id (opml_items db)) \<and> (\<forall>r \<in> set (opml_items db). pv_id r < next_item db \<and> item_check r)
     \<and> (\<forall>r \<in> set (opml_items db). \<exists>m \<in> set (opml_imports db). im_id m = it_import r \<and> im_tenant m = it_tenant r)"

lemma row_by_filter: "row_by key k rows = (case filter (\<lambda>r. key r = k) rows of [] \<Rightarrow> None | r # _ \<Rightarrow> Some r)"
  by (induction rows) (auto simp: row_simps)

lemma mark_result:
  "markImportStatus now i m db =
     (case row_by im_id i (opml_imports db) of
        None \<Rightarrow> (db, Inl (NotFound ''opml_import_not_found''))
      | Some r \<Rightarrow> (db\<lparr>opml_imports := sql_update (\<lambda>r. im_id r = i) (marked_row now m) (opml_imports db)\<rparr>,
                   Inr (mapImport (marked_row now m r))))"
  unfolding markImportStatus_def sql_returning_def row_by_filter by (auto split: list.splits)

lemma marked_keys [simp]:
  "im_id (marked_row now m r) = im_id r" "im_tenant (marked_row now m r) = im_tenant r"
  "im_status (marked_row now m r) = mk_status m"
  by (simp_all add: marked_row_def)

lemma marked_sel:
  "im_error (marked_row now m r) = coalesce (mk_error m) (im_error r)"
  "im_total (marked_row now m r) = opt_else (totalItems (mk_counters m)) (im_total r)"
  "im_valid (marked_row now m r) = opt_else (validItems (mk_counters m)) (im_valid r)"
  "im_duplicate (marked_row now m r) = opt_else (duplicateItems (mk_counters m)) (im_duplicate r)"
  "im_existing (marked_row now m r) = opt_else (existingItems (mk_counters m)) (im_existing r)"
  "im_invalid (marked_row now m r) = opt_else (invalidItems (mk_counters m)) (im_invalid r)"
  "im_imported (marked_row now m r) = opt_else (importedItems (mk_counters m)) (im_imported r)"
  by (simp_all add: marked_row_def)

definition import_status :: "nat \<Rightarrow> opml_db \<Rightarrow> opml_status option" where
  "import_status i db = map_option im_status (row_by im_id i (opml_imports db))"

interpretation mark: keyed_update im_id "marked_row now m" for now m
  by unfold_locales simp

interpretation item_mark: keyed_update pv_id "\<lambda>r. r\<lparr>pv_status := st, pv_feed := fd\<rparr>" for st fd
  by unfold_locales simp

lemma status_after_mark:
  "import_status j (fst (markImportStatus now i m db)) =
     (if j = i \<and> import_status i db \<noteq> None then Some (mk_status m) else import_status j db)"
  by (auto simp: import_status_def mark_result mark.row_by_update_key option.map_comp o_def split: option.splits)

lemma mark_keeps_items [simp]: "opml_items (fst (markImportStatus now i m db)) = opml_items db"
  by (simp add: mark_result split: option.splits)

lemma mark_keeps_ok: "opml_ok db \<Longrightarrow> opml_ok (fst (markImportStatus now i m db))"
proof -
  assume ok: "opml_ok db"
  have "\<exists>m' \<in> set (sql_update (\<lambda>r. im_id r = i) (marked_row now m) (opml_imports db)). im_id m' = im_id x \<and> im_tenant m' = im_tenant x"
    if "x \<in> set (opml_imports db)" for x
    using that by (intro bexI [of _ "if im_id x = i then marked_row now m x else x"]) (auto simp: in_sql_update)
  moreover have "map im_id (sql_update (\<lambda>r. im_id r = i) (marked_row now m) (opml_imports db)) = map im_id (opml_imports db)"
    by (rule mark.keys_kept)
  ultimately show ?thesis using ok unfolding mark_result opml_ok_def
    by (fastforce simp: in_sql_update split: option.splits)
qed

end
