(* ===== verification/Opml_Jobs.thy ===== *)
theory Opml_Jobs imports Opml_Store Feed_Store begin

text \<open>
  The two OPML jobs of \<open>src/modules/opml-imports/application\<close>: \<open>process-opml-parse-job.use-case.ts\<close> builds the
  preview of an import, \<open>process-opml-apply-job.use-case.ts\<close> registers its feeds. Each runs in one transaction;
  \<open>oe_calls\<close> says which call to the database or to a queue fails, and with what message. A statement that fails
  inside a transaction makes every later one of it fail (\<open>TX_ABORTED\<close>), as PostgreSQL documents. The timers and
  log lines are left out.
  Theorems: what a parse job leaves behind on each branch; what an apply job registers.
\<close>

section \<open>Worlds, calls and transactions\<close>

datatype opml_call =
    ParseGet | ParseTenant | ParseConnect | ParseBegin | MarkParsing | ParseExisting | ParseReplace | MarkReady
  | ParseCommit | ParseRollback | ParseMarkFailed
  | ApplyGet | ApplyTenant | MarkImporting | ApplyConnect | ApplyBegin | ApplyList | UpsertInsert nat | UpsertLookup nat
  | MarkItem nat | ApplyCount | MarkDone | ApplyCommit | EnqueueCreated nat | ApplyRollback | ApplyMarkFailed
  | CreateInsert | CreateEnqueue | ConfirmGet | ConfirmMark | ConfirmEnqueue | StatusGet | StatusCount | PreviewGet | PreviewList

record 'q opml_world =
  ow_db :: opml_db
  ow_feeds :: feed_db
  ow_queue :: 'q

record 'q opml_env =
  oe_now :: msec
  oe_urls :: feed_urls
  oe_max_bytes :: nat
  oe_jitter_max :: int
  oe_draw :: "nat \<Rightarrow> rat"
  oe_calls :: "opml_call \<Rightarrow> string option"
  oe_fetch :: "('q, fetch_job) bull"

fun repo_message :: "api_error \<Rightarrow> string" where
  "repo_message (BadRequest m) = m"
| "repo_message (Unauthorized m) = m"
| "repo_message (Forbidden c m) = m"
| "repo_message (NotFound m) = m"
| "repo_message (Conflict m) = m"
| "repo_message (api_error.PayloadTooLarge m) = m"
| "repo_message (UnprocessableEntity m) = m"
| "repo_message (ServiceUnavailable m) = m"
| "repo_message (Unexpected m) = m"

fun feed_url_message :: "feed_url_error \<Rightarrow> string" where
  "feed_url_message feed_url_empty = ''feed_url_empty''"
| "feed_url_message feed_url_invalid = ''feed_url_invalid''"
| "feed_url_message feed_url_protocol_not_supported = ''feed_url_protocol_not_supported''"
| "feed_url_message feed_url_host_not_allowed = ''feed_url_host_not_allowed''"

definition TX_ABORTED :: string where
  "TX_ABORTED = ''current transaction is aborted, commands ignored until end of transaction block''"

text \<open>A call and what follows it; the two ways to go on after a result.\<close>

definition attempt :: "'q opml_env \<Rightarrow> opml_call \<Rightarrow> 'w \<Rightarrow> 'w \<times> (string + 'a) \<Rightarrow> 'w \<times> (string + 'a)" where
  "attempt E c w rest = (case oe_calls E c of Some m \<Rightarrow> (w, Inl m) | None \<Rightarrow> rest)"

definition and_then :: "'w \<times> (string + 'a) \<Rightarrow> ('w \<Rightarrow> 'a \<Rightarrow> 'w \<times> (string + 'b)) \<Rightarrow> 'w \<times> (string + 'b)" where
  "and_then r k = (case r of (w, Inl m) \<Rightarrow> (w, Inl m) | (w, Inr x) \<Rightarrow> k w x)"

definition in_db :: "opml_db \<times> (api_error + 'a) \<Rightarrow> 'q opml_world \<Rightarrow> 'q opml_world \<times> (string + 'a)" where
  "in_db r w = (case r of (db, Inl e) \<Rightarrow> (w\<lparr>ow_db := db\<rparr>, Inl (repo_message e)) | (db, Inr x) \<Rightarrow> (w\<lparr>ow_db := db\<rparr>, Inr x))"

definition mark_import ::
  "'q opml_env \<Rightarrow> opml_call \<Rightarrow> nat \<Rightarrow> status_mark \<Rightarrow> 'q opml_world \<Rightarrow> 'q opml_world \<times> (string + import_summary)" where
  "mark_import E c i m w = attempt E c w (in_db (markImportStatus (oe_now E) i m (ow_db w)) w)"

text \<open>A rollback restores the tables; the sequences of the ids keep their values.\<close>

definition rolled_back :: "'q opml_world \<Rightarrow> 'q opml_world \<Rightarrow> 'q opml_world" where
  "rolled_back start w =
     w\<lparr>ow_db := (ow_db start)\<lparr>next_item := next_item (ow_db w)\<rparr>,
       ow_feeds := (ow_feeds start)\<lparr>next_feed := next_feed (ow_feeds w)\<rparr>\<rparr>"

definition status_only :: "opml_status \<Rightarrow> string option \<Rightarrow> status_mark" where
  "status_only st e = \<lparr>mk_status = st, mk_error = e, mk_confirmed = False, mk_completed = False, mk_counters = no_counters\<rparr>"

section \<open>Parsing\<close>

definition MAX_OUTLINE_TAGS :: nat where "MAX_OUTLINE_TAGS = 20000"

definition normalize_url :: "feed_urls \<Rightarrow> string \<Rightarrow> feed_url_error + string" where
  "normalize_url U u = normalizeFeedUrl (fu_parse U) (fu_env U) None u"

definition classifyLocalItem :: "feed_urls \<Rightarrow> parsed_item \<Rightarrow> item_input" where
  "classifyLocalItem U x =
     (case normalize_url U (pi_url x) of
        Inr n \<Rightarrow> \<lparr>ii_title = pi_title x, ii_path = pi_path x, ii_source_url = pi_url x, ii_url = Some n,
                 ii_hash = Some (buildNormalizedFeedUrlHash (fu_sha256 U) n), ii_status = ItemNew, ii_error = None\<rparr>
      | Inl e \<Rightarrow> \<lparr>ii_title = pi_title x, ii_path = pi_path x, ii_source_url = pi_url x, ii_url = None,
                 ii_hash = None, ii_status = ItemInvalid, ii_error = Some (feed_url_message e)\<rparr>)"

text \<open>What JavaScript calls falsy: \<open>null\<close> and the empty text.\<close>

definition no_text :: "string option \<Rightarrow> bool" where
  "no_text t = (case t of None \<Rightarrow> True | Some s \<Rightarrow> s = '''')"

fun mark_duplicates :: "string list \<Rightarrow> item_input list \<Rightarrow> item_input list" where
  "mark_duplicates seen [] = []"
| "mark_duplicates seen (x # xs) =
     (if ii_status x \<noteq> ItemNew \<or> no_text (ii_hash x) then x # mark_duplicates seen xs
      else if the (ii_hash x) \<in> set seen
      then x\<lparr>ii_status := ItemDuplicate, ii_error := Some ''duplicate_within_opml''\<rparr> # mark_duplicates seen xs
      else x # mark_duplicates (the (ii_hash x) # seen) xs)"

definition normalized_candidates :: "item_input list \<Rightarrow> item_input list" where
  "normalized_candidates xs = filter (\<lambda>x. \<not> no_text (ii_hash x) \<and> \<not> no_text (ii_url x)) xs"

text \<open>The rows of the query, and the map built from them: of two rows with one hash the later one counts.\<close>

definition findExistingFeedsByHash :: "string \<Rightarrow> string list \<Rightarrow> string list \<Rightarrow> feed_db \<Rightarrow> feed list" where
  "findExistingFeedsByHash tenant hashes urls db =
     filter (\<lambda>f. fd_tenant f = tenant
               \<and> ((case fd_url_hash f of None \<Rightarrow> False | Some h \<Rightarrow> h \<in> set hashes) \<or> fd_url f \<in> set urls)) (feeds db)"

definition existing_by_hash :: "feed list \<Rightarrow> string \<Rightarrow> feed option" where
  "existing_by_hash rows h = find (\<lambda>f. fd_url_hash f = Some h) (rev rows)"

definition classify_existing :: "feed_urls \<Rightarrow> feed list \<Rightarrow> item_input \<Rightarrow> string + item_input" where
  "classify_existing U rows x =
     (if ii_status x \<noteq> ItemNew \<or> no_text (ii_hash x) \<or> no_text (ii_url x) then Inr x
      else (case existing_by_hash rows (the (ii_hash x)) of
              None \<Rightarrow> Inr x
            | Some f \<Rightarrow>
                (case normalize_url U (fd_url f) of
                   Inl e \<Rightarrow> Inl (feed_url_message e)
                 | Inr n \<Rightarrow>
                     if Some n \<noteq> ii_url x
                     then Inr (x\<lparr>ii_status := ItemInvalid, ii_error := Some ''normalized_hash_collision_detected'',
                                ii_url := None, ii_hash := None\<rparr>)
                     else Inr (x\<lparr>ii_status := ItemExisting\<rparr>))))"

fun traverse :: "('a \<Rightarrow> 'e + 'b) \<Rightarrow> 'a list \<Rightarrow> 'e + 'b list" where
  "traverse f [] = Inr []"
| "traverse f (x # xs) =
     (case f x of Inl e \<Rightarrow> Inl e | Inr y \<Rightarrow> (case traverse f xs of Inl e \<Rightarrow> Inl e | Inr ys \<Rightarrow> Inr (y # ys)))"

definition count_status :: "(item_status \<Rightarrow> bool) \<Rightarrow> item_input list \<Rightarrow> nat" where
  "count_status p xs = length (filter (\<lambda>x. p (ii_status x)) xs)"

definition preview_counters :: "item_input list \<Rightarrow> import_counters" where
  "preview_counters xs =
     \<lparr>totalItems = Some (length xs), validItems = Some (count_status (\<lambda>s. s \<noteq> ItemInvalid) xs),
      duplicateItems = Some (count_status (\<lambda>s. s = ItemDuplicate) xs),
      existingItems = Some (count_status (\<lambda>s. s = ItemExisting) xs),
      invalidItems = Some (count_status (\<lambda>s. s = ItemInvalid) xs), importedItems = None\<rparr>"

text \<open>The items of a document for a tenant: local classification, duplicates, then the feeds there are.\<close>

definition draft_items :: "feed_urls \<Rightarrow> parsed_item list \<Rightarrow> item_input list" where
  "draft_items U parsed = mark_duplicates [] (map (classifyLocalItem U) parsed)"

definition preview_items :: "feed_urls \<Rightarrow> string \<Rightarrow> feed_db \<Rightarrow> parsed_item list \<Rightarrow> string + item_input list" where
  "preview_items U tenant db parsed =
     (let draft = draft_items U parsed; cand = normalized_candidates draft
      in traverse (classify_existing U (findExistingFeedsByHash tenant (map (the \<circ> ii_hash) cand) (map (the \<circ> ii_url) cand) db)) draft)"

definition parse_transaction :: "'q opml_env \<Rightarrow> parse_job \<Rightarrow> string \<Rightarrow> 'q opml_world \<Rightarrow> 'q opml_world \<times> (string + unit)" where
  "parse_transaction E job tenant w =
     attempt E ParseBegin w
      (and_then (mark_import E MarkParsing (pj_import job) (status_only Parsing None) w)
       (\<lambda>w1 _. case extractOpmlItems (oe_max_bytes E) MAX_OUTLINE_TAGS (pj_xml job) of
          Inl m \<Rightarrow> (w1, Inl m)
        | Inr parsed \<Rightarrow>
            and_then (if normalized_candidates (draft_items (oe_urls E) parsed) = [] then (w1, Inr ())
                      else attempt E ParseExisting w1 (w1, Inr ()))
             (\<lambda>w1 _. case preview_items (oe_urls E) tenant (ow_feeds w1) parsed of
                Inl m \<Rightarrow> (w1, Inl m)
              | Inr xs \<Rightarrow>
                  and_then (attempt E ParseReplace w1 (in_db (replaceImportItems (pj_import job) xs (ow_db w1)) w1))
                   (\<lambda>w2 _. and_then (mark_import E MarkReady (pj_import job)
                        ((status_only PreviewReady None)\<lparr>mk_counters := preview_counters xs\<rparr>) w2)
                     (\<lambda>w3 _. attempt E ParseCommit w3 (w3, Inr ()))))))"

definition ProcessOpmlParseJob_execute :: "'q opml_env \<Rightarrow> parse_job \<Rightarrow> 'q opml_world \<Rightarrow> 'q opml_world \<times> (string + unit)" where
  "ProcessOpmlParseJob_execute E job w =
     and_then (attempt E ParseGet w (in_db (ow_db w, getImportOrThrowForWorker (pj_import job) (ow_db w)) w))
      (\<lambda>w current. and_then (attempt E ParseTenant w (in_db (ow_db w, getImportTenantId (pj_import job) (ow_db w)) w))
        (\<lambda>w tenant.
           if im_status current \<in> {PreviewReady, Completed, Importing} then (w, Inr ())
           else if im_status current \<noteq> Uploaded \<and> im_status current \<noteq> Parsing then (w, Inr ())
           else (case assertValidOpmlImportStatusTransition (im_status current) Parsing of
                   Inl m \<Rightarrow> (w, Inl m)
                 | Inr _ \<Rightarrow>
                     attempt E ParseConnect w
                      (case parse_transaction E job tenant w of
                         (w', Inr _) \<Rightarrow> (w', Inr ())
                       | (w', Inl m) \<Rightarrow>
                           attempt E ParseRollback (rolled_back w w')
                            (and_then (mark_import E ParseMarkFailed (pj_import job) (status_only FailedValidation (Some m))
                                (rolled_back w w'))
                              (\<lambda>w'' _. (w'', Inr ())))))))"

section \<open>Applying\<close>

datatype upsert_error = QueryError string | CodeError string

record upserted =
  up_feed :: nat
  up_created :: bool
  up_collision :: bool

definition jitter_seconds :: "rat \<Rightarrow> int \<Rightarrow> nat" where
  "jitter_seconds draw cap = nat \<lfloor>draw * of_int (max 1 cap)\<rfloor>"

definition imported_feed :: "'q opml_env \<Rightarrow> nat \<Rightarrow> string \<Rightarrow> string \<Rightarrow> nat \<Rightarrow> feed" where
  "imported_feed E k tenant u i =
     (new_feed i (oe_now E) (Some (buildNormalizedFeedUrlHash (fu_sha256 (oe_urls E)) u))
       \<lparr>dr_tenant = tenant, dr_url = u, dr_poll = 1800, dr_status = FdActive\<rparr>)
       \<lparr>fd_next_check := oe_now E + 1000 * jitter_seconds (oe_draw E k) (oe_jitter_max E)\<rparr>"

text \<open>
  \<open>INSERT .. ON CONFLICT DO NOTHING\<close>, and after a conflict the row that caused it: the one with the same hash first.
\<close>

definition upsertFeed ::
  "'q opml_env \<Rightarrow> nat \<Rightarrow> string \<Rightarrow> string \<Rightarrow> feed_db \<Rightarrow> feed_db \<times> (upsert_error + upserted)" where
  "upsertFeed E k tenant u db =
     (let h = Some (buildNormalizedFeedUrlHash (fu_sha256 (oe_urls E)) u);
          db1 = db\<lparr>next_feed := next_feed db + 1\<rparr>
      in case oe_calls E (UpsertInsert k) of
           Some m \<Rightarrow> (db, Inl (QueryError m))
         | None \<Rightarrow>
             if \<not> list_ex (feed_conflict tenant u h) (feeds db)
             then (db1\<lparr>feeds := feeds db @ [imported_feed E k tenant u (next_feed db)]\<rparr>,
                   Inr \<lparr>up_feed = next_feed db, up_created = True, up_collision = False\<rparr>)
             else (case oe_calls E (UpsertLookup k) of
                     Some m \<Rightarrow> (db1, Inl (QueryError m))
                   | None \<Rightarrow>
                       (case sort_key (\<lambda>f. if fd_url_hash f = h then 0 else 1 :: nat)
                               (filter (\<lambda>f. fd_tenant f = tenant \<and> (fd_url_hash f = h \<or> fd_url f = u)) (feeds db)) of
                          [] \<Rightarrow> (db1, Inl (CodeError ''opml_feed_lookup_after_conflict_failed''))
                        | f # _ \<Rightarrow>
                            (case normalize_url (oe_urls E) (fd_url f) of
                               Inl e \<Rightarrow> (db1, Inl (CodeError (feed_url_message e)))
                             | Inr n \<Rightarrow> (db1, Inr \<lparr>up_feed = fd_id f, up_created = False, up_collision = (n \<noteq> u)\<rparr>)))))"

definition mark_item_failed ::
  "'q opml_env \<Rightarrow> nat \<Rightarrow> string \<Rightarrow> 'q opml_world \<Rightarrow> 'q opml_world \<times> (string + (nat \<times> bool) option)" where
  "mark_item_failed E k m w = attempt E (MarkItem k) w (w\<lparr>ow_db := markItemFailed k m (ow_db w)\<rparr>, Inr None)"

text \<open>
  The result for one item: \<open>None\<close> when it failed, \<open>Some (f, fresh)\<close> when it was imported. A failed statement
  leaves the transaction aborted, so the \<open>catch\<close> of the item fails in turn.
\<close>

definition apply_item ::
  "'q opml_env \<Rightarrow> string \<Rightarrow> preview_item \<Rightarrow> 'q opml_world \<Rightarrow> 'q opml_world \<times> (string + (nat \<times> bool) option)" where
  "apply_item E tenant x w =
     (let k = pv_id x in
      if no_text (pv_url x) then mark_item_failed E k ''missing_normalized_url'' w
      else (case upsertFeed E k tenant (the (pv_url x)) (ow_feeds w) of
              (db, Inl (QueryError m)) \<Rightarrow> (w\<lparr>ow_feeds := db\<rparr>, Inl TX_ABORTED)
            | (db, Inl (CodeError m)) \<Rightarrow> mark_item_failed E k m (w\<lparr>ow_feeds := db\<rparr>)
            | (db, Inr u) \<Rightarrow>
                if up_collision u then
                  (case mark_item_failed E k ''normalized_hash_collision_detected'' (w\<lparr>ow_feeds := db\<rparr>) of
                     (w', Inl m) \<Rightarrow> (w', Inl TX_ABORTED)
                   | (w', Inr r) \<Rightarrow> (w', Inr r))
                else (case oe_calls E (MarkItem k) of
                        Some m \<Rightarrow> (w\<lparr>ow_feeds := db\<rparr>, Inl TX_ABORTED)
                      | None \<Rightarrow> (w\<lparr>ow_feeds := db, ow_db := markItemImported k (up_feed u) (ow_db w)\<rparr>,
                                 Inr (Some (up_feed u, up_created u))))))"

record apply_tally =
  ta_imported :: nat
  ta_failed :: nat
  ta_created :: "nat list"

definition tallied :: "apply_tally \<Rightarrow> (nat \<times> bool) option \<Rightarrow> apply_tally" where
  "tallied t r =
     (case r of None \<Rightarrow> t\<lparr>ta_failed := ta_failed t + 1\<rparr>
      | Some (f, fresh) \<Rightarrow> t\<lparr>ta_imported := ta_imported t + 1, ta_created := ta_created t @ (if fresh then [f] else [])\<rparr>)"

fun apply_items ::
  "'q opml_env \<Rightarrow> string \<Rightarrow> preview_item list \<Rightarrow> apply_tally \<Rightarrow> 'q opml_world \<Rightarrow> 'q opml_world \<times> (string + apply_tally)" where
  "apply_items E tenant [] t w = (w, Inr t)"
| "apply_items E tenant (x # xs) t w =
     (case apply_item E tenant x w of
        (w1, Inl m) \<Rightarrow> (w1, Inl m)
      | (w1, Inr r) \<Rightarrow> apply_items E tenant xs (tallied t r) w1)"

definition apply_mark :: "apply_tally \<Rightarrow> nat \<Rightarrow> opml_db \<Rightarrow> status_mark" where
  "apply_mark t i db =
     (let grouped = countItemsByStatus i db in
      \<lparr>mk_status = (if 0 < ta_failed t then ImportFailed else Completed),
       mk_error = (if 0 < ta_failed t then Some (''partial_import_failure:'' @ dec (ta_failed t)) else None),
       mk_confirmed = False, mk_completed = True,
       mk_counters = \<lparr>totalItems = Some (grouped_total i db),
         validItems = Some (grouped ItemNew + grouped ItemExisting + grouped ItemDuplicate + grouped ItemImported),
         duplicateItems = Some (grouped ItemDuplicate), existingItems = Some (grouped ItemExisting),
         invalidItems = Some (grouped ItemInvalid), importedItems = Some (ta_imported t)\<rparr>\<rparr>)"

definition apply_transaction ::
  "'q opml_env \<Rightarrow> apply_job \<Rightarrow> string \<Rightarrow> 'q opml_world \<Rightarrow> 'q opml_world \<times> (string + nat list)" where
  "apply_transaction E job tenant w =
     attempt E ApplyBegin w (attempt E ApplyList w
      (and_then (apply_items E tenant (listNewCandidateItems (aj_import job) (ow_db w))
            \<lparr>ta_imported = 0, ta_failed = 0, ta_created = []\<rparr> w)
        (\<lambda>w1 t. attempt E ApplyCount w1
          (and_then (mark_import E MarkDone (aj_import job) (apply_mark t (aj_import job) (ow_db w1)) w1)
            (\<lambda>w2 _. attempt E ApplyCommit w2 (w2, Inr (ta_created t)))))))"

fun enqueue_created :: "'q opml_env \<Rightarrow> nat list \<Rightarrow> 'q opml_world \<Rightarrow> 'q opml_world \<times> (string + unit)" where
  "enqueue_created E [] w = (w, Inr ())"
| "enqueue_created E (f # fs) w =
     attempt E (EnqueueCreated f) w
      (case enqueue_fetch (oe_fetch E) (oe_now E)
              \<lparr>fj_feed = f, fj_queued_at = oe_now E, fj_attempt = 0, fj_source = FromScheduler\<rparr> (ow_queue w) of
         (q, _) \<Rightarrow> enqueue_created E fs (w\<lparr>ow_queue := q\<rparr>))"

text \<open>The \<open>catch\<close> of the job; after the commit its \<open>ROLLBACK\<close> finds no transaction to undo.\<close>

definition fail_apply :: "'q opml_env \<Rightarrow> apply_job \<Rightarrow> string \<Rightarrow> 'q opml_world \<Rightarrow> 'q opml_world \<times> (string + unit)" where
  "fail_apply E job m w =
     attempt E ApplyRollback w
      (and_then (mark_import E ApplyMarkFailed (aj_import job) (status_only ImportFailed (Some m)) w) (\<lambda>w' _. (w', Inr ())))"

definition apply_in_transaction ::
  "'q opml_env \<Rightarrow> apply_job \<Rightarrow> string \<Rightarrow> 'q opml_world \<Rightarrow> 'q opml_world \<times> (string + unit)" where
  "apply_in_transaction E job tenant w =
     attempt E ApplyConnect w
      (case apply_transaction E job tenant w of
         (w1, Inl m) \<Rightarrow> fail_apply E job m (rolled_back w w1)
       | (w1, Inr fresh) \<Rightarrow>
           (case enqueue_created E fresh w1 of
              (w2, Inl m) \<Rightarrow> fail_apply E job m w2
            | (w2, Inr _) \<Rightarrow> (w2, Inr ())))"

definition ProcessOpmlApplyJob_execute :: "'q opml_env \<Rightarrow> apply_job \<Rightarrow> 'q opml_world \<Rightarrow> 'q opml_world \<times> (string + unit)" where
  "ProcessOpmlApplyJob_execute E job w =
     and_then (attempt E ApplyGet w (in_db (ow_db w, getImportOrThrowForWorker (aj_import job) (ow_db w)) w))
      (\<lambda>w current. and_then (attempt E ApplyTenant w (in_db (ow_db w, getImportTenantId (aj_import job) (ow_db w)) w))
        (\<lambda>w tenant.
           if im_status current = Completed then (w, Inr ())
           else if im_status current = Importing then apply_in_transaction E job tenant w
           else (case assertValidOpmlImportStatusTransition (im_status current) Importing of
                   Inl m \<Rightarrow> (w, Inl m)
                 | Inr _ \<Rightarrow>
                     and_then (mark_import E MarkImporting (aj_import job) ((status_only Importing None)\<lparr>mk_confirmed := True\<rparr>) w)
                      (\<lambda>w1 _. apply_in_transaction E job tenant w1))))"

section \<open>A preview fits its table\<close>

lemma attempt_ok [simp]: "oe_calls E c = None \<Longrightarrow> attempt E c w r = r"
  by (simp add: attempt_def)

lemma and_then_simps [simp]: "and_then (w, Inl m) k = (w, Inl m)" "and_then (w, Inr x) k = k w x"
  by (simp_all add: and_then_def)

lemma in_db_simps [simp]:
  "in_db (db, Inl e) w = (w\<lparr>ow_db := db\<rparr>, Inl (repo_message e))" "in_db (db, Inr x) w = (w\<lparr>ow_db := db\<rparr>, Inr x)"
  by (simp_all add: in_db_def)

definition counts_once :: "item_input \<Rightarrow> bool" where
  "counts_once x \<longleftrightarrow> ii_hash x \<noteq> None \<and> ii_status x \<noteq> ItemDuplicate"

definition items_fit :: "item_input list \<Rightarrow> bool" where
  "items_fit xs \<longleftrightarrow> (\<forall>x \<in> set xs. ii_status x = ItemInvalid \<or> ii_url x \<noteq> None \<and> ii_hash x \<noteq> None)
     \<and> distinct (map ii_hash (filter counts_once xs))"

text \<open>What local classification and the search for duplicates give.\<close>

definition draft_item :: "item_input \<Rightarrow> bool" where
  "draft_item x \<longleftrightarrow> (if ii_status x = ItemInvalid then ii_hash x = None
     else ii_status x \<in> {ItemNew, ItemDuplicate} \<and> ii_url x \<noteq> None \<and> ii_hash x \<noteq> None \<and> \<not> no_text (ii_hash x))"

lemma mark_duplicates_draft:
  assumes "\<forall>x \<in> set xs. draft_item x"
  shows "(\<forall>x \<in> set (mark_duplicates seen xs). draft_item x)
    \<and> distinct (map ii_hash (filter counts_once (mark_duplicates seen xs)))
    \<and> (\<forall>x \<in> set (mark_duplicates seen xs). counts_once x \<longrightarrow> the (ii_hash x) \<notin> set seen)"
  using assms
proof (induction seen xs rule: mark_duplicates.induct)
  case (2 seen x xs)
  have x: "draft_item x" using "2.prems" by simp
  show ?case
  proof (cases "ii_status x \<noteq> ItemNew \<or> no_text (ii_hash x)")
    case True
    then have "\<not> counts_once x" using x by (auto simp: draft_item_def counts_once_def split: if_splits)
    moreover have "\<forall>x \<in> set xs. draft_item x" using "2.prems" by simp
    note "2.IH"(1) [OF True this]
    moreover have "mark_duplicates seen (x # xs) = x # mark_duplicates seen xs" using True by simp
    ultimately show ?thesis using x by simp
  next
    case False
    note F = this
    show ?thesis
    proof (cases "the (ii_hash x) \<in> set seen")
      case True
      have "\<forall>x \<in> set xs. draft_item x" using "2.prems" by simp
      note IH = "2.IH"(2) [OF F True this]
      let ?y = "x\<lparr>ii_status := ItemDuplicate, ii_error := Some ''duplicate_within_opml''\<rparr>"
      have "draft_item ?y" "\<not> counts_once ?y" using x F by (auto simp: draft_item_def counts_once_def)
      moreover have "mark_duplicates seen (x # xs) = ?y # mark_duplicates seen xs" using F True by simp
      ultimately show ?thesis using IH by simp
    next
      case False
      define ys where "ys = mark_duplicates (the (ii_hash x) # seen) xs"
      have "\<forall>x \<in> set xs. draft_item x" using "2.prems" by simp
      with "2.IH"(3) [OF F False] have IH: "\<forall>x \<in> set ys. draft_item x" "distinct (map ii_hash (filter counts_once ys))"
        "\<forall>x' \<in> set ys. counts_once x' \<longrightarrow> the (ii_hash x') \<noteq> the (ii_hash x) \<and> the (ii_hash x') \<notin> set seen"
        by (simp_all add: ys_def)
      have "ii_hash x \<notin> ii_hash ` set (filter counts_once ys)" using IH(3) by fastforce
      moreover have "mark_duplicates seen (x # xs) = x # ys" using F False by (simp add: ys_def)
      ultimately show ?thesis using IH x False by simp
    qed
  qed
qed simp

lemma classify_draft: "(\<And>u. fu_sha256 U u \<noteq> []) \<Longrightarrow> draft_item (classifyLocalItem U x)"
  by (simp add: classifyLocalItem_def draft_item_def no_text_def buildNormalizedFeedUrlHash_def split: sum.split)

lemma traverse_all2: "traverse f xs = Inr ys \<Longrightarrow> list_all2 (\<lambda>x y. f x = Inr y) xs ys"
  by (induction xs arbitrary: ys) (auto split: sum.splits)

lemma classify_existing_cases:
  assumes "classify_existing U rows x = Inr y" and "draft_item x"
  shows "(counts_once y \<longrightarrow> counts_once x \<and> ii_hash y = ii_hash x)
    \<and> (ii_status y = ItemInvalid \<or> ii_url y \<noteq> None \<and> ii_hash y \<noteq> None)"
  using assms
  by (auto simp: classify_existing_def draft_item_def counts_once_def split: if_splits option.splits sum.splits)

lemma classified_fit:
  assumes "list_all2 (\<lambda>x y. classify_existing U rows x = Inr y) xs ys" and "\<forall>x \<in> set xs. draft_item x"
    and "distinct (map ii_hash (filter counts_once xs))"
  shows "items_fit ys \<and> ii_hash ` set (filter counts_once ys) \<subseteq> ii_hash ` set (filter counts_once xs)"
  using assms
proof (induction rule: list_all2_induct)
  case (Cons x xs y ys)
  then have IH: "items_fit ys" "ii_hash ` set (filter counts_once ys) \<subseteq> ii_hash ` set (filter counts_once xs)"
    by (auto split: if_splits)
  note y = classify_existing_cases [OF Cons.hyps(1)]
  have "draft_item x" using Cons.prems by simp
  note y = y [OF this]
  show ?case
  proof (cases "counts_once y")
    case True
    then have "counts_once x" "ii_hash y = ii_hash x" using y by auto
    moreover then have "ii_hash x \<notin> ii_hash ` set (filter counts_once xs)" using Cons.prems(2) by auto
    ultimately show ?thesis using IH y True by (auto simp: items_fit_def)
  next
    case False
    then show ?thesis using IH y by (auto simp: items_fit_def)
  qed
qed (simp add: items_fit_def)

lemma preview_items_fit:
  assumes "preview_items U tenant db parsed = Inr xs" and "\<And>u. fu_sha256 U u \<noteq> []"
  shows "items_fit xs" and "length xs = length parsed"
proof -
  let ?d = "draft_items U parsed"
  obtain rows where t: "list_all2 (\<lambda>x y. classify_existing U rows x = Inr y) ?d xs"
    using assms(1) by (auto simp: preview_items_def Let_def dest!: traverse_all2)
  have local: "\<forall>x \<in> set (map (classifyLocalItem U) parsed). draft_item x" using classify_draft [OF assms(2)] by simp
  from mark_duplicates_draft [OF local, of "[]"] have "\<forall>x \<in> set ?d. draft_item x" "distinct (map ii_hash (filter counts_once ?d))"
    by (simp_all add: draft_items_def)
  from classified_fit [OF t this] show "items_fit xs" by simp
  have "length (mark_duplicates seen ys) = length ys" for seen ys by (induction seen ys rule: mark_duplicates.induct) simp_all
  then show "length xs = length parsed" using list_all2_lengthD [OF t] by (simp add: draft_items_def)
qed

text \<open>Items that fit are all inserted.\<close>

lemma insert_items_ok:
  assumes "items_fit xs"
    and "\<forall>r \<in> set (opml_items db). it_import r = i \<and> pv_status r \<noteq> ItemDuplicate \<longrightarrow>
           it_hash r \<notin> ii_hash ` set (filter counts_once xs)"
  shows "\<exists>rows db'. insert_items tenant i xs db = (db', Inr ()) \<and> opml_items db' = opml_items db @ rows
    \<and> opml_imports db' = opml_imports db \<and> list_all2 (\<lambda>r x. \<exists>k. r = new_item k tenant i x) rows xs"
  using assms
proof (induction xs arbitrary: db)
  case (Cons x xs)
  let ?row = "new_item (next_item db) tenant i x"
  let ?db = "db\<lparr>next_item := next_item db + 1, opml_items := opml_items db @ [?row]\<rparr>"
  have check: "item_check ?row" using Cons.prems(1) by (auto simp: items_fit_def item_check_def new_item_def)
  have "\<not> same_item ?row r" if "r \<in> set (opml_items db)" for r
    using that Cons.prems(2) by (auto simp: same_item_def new_item_def counts_once_def split: if_splits)
  then have ins: "insert_item tenant i x db = (?db, Inr ())"
    using check by (auto simp: insert_item_def Let_def list_ex_iff)
  have "items_fit xs" using Cons.prems(1) by (auto simp: items_fit_def split: if_splits)
  moreover have "it_hash r \<notin> ii_hash ` set (filter counts_once xs)" if r: "r \<in> set (opml_items ?db)" "it_import r = i" "pv_status r \<noteq> ItemDuplicate" for r
  proof (cases "r = ?row")
    case True
    then show ?thesis using Cons.prems(1) r(3)
      by (cases "counts_once x") (auto simp: items_fit_def new_item_def counts_once_def split: if_splits)
  next
    case False
    then show ?thesis using r Cons.prems(2) by auto
  qed
  ultimately obtain rows db' where "insert_items tenant i xs ?db = (db', Inr ())" "opml_items db' = opml_items ?db @ rows"
    "opml_imports db' = opml_imports ?db" "list_all2 (\<lambda>r x. \<exists>k. r = new_item k tenant i x) rows xs"
    using Cons.IH [of ?db] by blast
  then show ?case using ins by (intro exI [of _ "?row # rows"]) auto
qed simp

lemma replace_items_ok:
  assumes "items_fit xs" and "row_by im_id i (opml_imports db) = Some r"
  shows "\<exists>db'. replaceImportItems i xs db = (db', Inr ()) \<and> opml_imports db' = opml_imports db
    \<and> list_all2 (\<lambda>row x. \<exists>k. row = new_item k (im_tenant r) i x) (import_items i db') xs"
proof -
  let ?db = "db\<lparr>opml_items := filter (\<lambda>r. it_import r \<noteq> i) (opml_items db)\<rparr>"
  obtain rows db' where r: "insert_items (im_tenant r) i xs ?db = (db', Inr ())" "opml_items db' = opml_items ?db @ rows"
    "opml_imports db' = opml_imports ?db" "list_all2 (\<lambda>row x. \<exists>k. row = new_item k (im_tenant r) i x) rows xs"
    using insert_items_ok [OF assms(1), of ?db i "im_tenant r"] by auto
  have "\<forall>row \<in> set rows. it_import row = i"
    using r(4) by (induction rule: list_all2_induct) (auto simp: new_item_def)
  then have "import_items i db' = rows" using r(2) by (auto simp: import_items_def filter_id_conv)
  with r assms(2) show ?thesis by (simp add: replaceImportItems_def getImportTenantId_def)
qed

lemma mark_import_ok:
  assumes "oe_calls E c = None" and "row_by im_id i (opml_imports (ow_db w)) = Some r"
  shows "mark_import E c i m w =
    (w\<lparr>ow_db := (ow_db w)\<lparr>opml_imports := sql_update (\<lambda>r. im_id r = i) (marked_row (oe_now E) m) (opml_imports (ow_db w))\<rparr>\<rparr>,
     Inr (mapImport (marked_row (oe_now E) m r)))"
  using assms by (simp add: mark_import_def mark_result)

section \<open>Parse jobs\<close>

text \<open>The two ways a parse job ends.\<close>

definition validation_failed :: "nat \<Rightarrow> string \<Rightarrow> 'q opml_world \<Rightarrow> 'q opml_world \<Rightarrow> bool" where
  "validation_failed i m w w' \<longleftrightarrow>
     (\<exists>r. row_by im_id i (opml_imports (ow_db w')) = Some r \<and> im_status r = FailedValidation \<and> im_error r = Some m)
     \<and> opml_items (ow_db w') = opml_items (ow_db w)"

definition preview_shown :: "nat \<Rightarrow> string \<Rightarrow> item_input list \<Rightarrow> 'q opml_world \<Rightarrow> bool" where
  "preview_shown i tenant xs w' \<longleftrightarrow>
     (\<exists>r. row_by im_id i (opml_imports (ow_db w')) = Some r \<and> im_status r = PreviewReady
        \<and> im_total r = length xs \<and> im_valid r + im_invalid r = length xs
        \<and> countItemsByStatus i (ow_db w') ItemNew + im_existing r + im_duplicate r + im_invalid r = length xs)
     \<and> list_all2 (\<lambda>row x. \<exists>k. row = new_item k tenant i x) (import_items i (ow_db w')) xs"

lemma count_items:
  "list_all2 (\<lambda>row x. \<exists>k. row = new_item k tenant i x) rows xs \<Longrightarrow>
     length (filter (\<lambda>row. pv_status row = s) rows) = count_status (\<lambda>t. t = s) xs"
  by (induction rule: list_all2_induct) (auto simp: new_item_def count_status_def)

lemma counts_add_up:
  "\<forall>x \<in> set xs. ii_status x \<in> {ItemNew, ItemExisting, ItemDuplicate, ItemInvalid} \<Longrightarrow>
     count_status (\<lambda>s. s = ItemNew) xs + count_status (\<lambda>s. s = ItemExisting) xs + count_status (\<lambda>s. s = ItemDuplicate) xs
       + count_status (\<lambda>s. s = ItemInvalid) xs = length xs
     \<and> count_status (\<lambda>s. s \<noteq> ItemInvalid) xs + count_status (\<lambda>s. s = ItemInvalid) xs = length xs"
  by (induction xs) (auto simp: count_status_def)

lemma preview_statuses:
  assumes "preview_items U tenant db parsed = Inr xs" and "\<And>u. fu_sha256 U u \<noteq> []"
  shows "\<forall>x \<in> set xs. ii_status x \<in> {ItemNew, ItemExisting, ItemDuplicate, ItemInvalid}"
proof -
  let ?d = "draft_items U parsed"
  obtain rows where t: "list_all2 (\<lambda>x y. classify_existing U rows x = Inr y) ?d xs"
    using assms(1) by (auto simp: preview_items_def Let_def dest!: traverse_all2)
  have local: "\<forall>x \<in> set (map (classifyLocalItem U) parsed). draft_item x" using classify_draft [OF assms(2)] by simp
  from mark_duplicates_draft [OF local, of "[]"] have "\<forall>x \<in> set ?d. draft_item x" by (simp add: draft_items_def)
  with t show ?thesis
  proof (induction rule: list_all2_induct)
    case (Cons x xs y ys)
    then have "draft_item x" by simp
    with Cons.hyps(1) have "ii_status y \<in> {ItemNew, ItemExisting, ItemDuplicate, ItemInvalid}"
      by (auto simp: classify_existing_def draft_item_def split: if_splits option.splits sum.splits)
    with Cons show ?case by simp
  qed simp
qed

text \<open>
  C30: A parse job whose calls succeed settles its import. If the document parses and no feed with a clashing hash has
  a broken address, the preview holds one row for every item of the document, no row is refused by the constraints
  of the table, and the counters add up; else the import has failed validation, with the reason, and its rows are as
  they were. The feeds and the queue are not touched.
\<close>

theorem parse_job_settles:
  assumes calls: "\<forall>c. oe_calls E c = None" and hash: "\<forall>u. fu_sha256 (oe_urls E) u \<noteq> []"
    and row: "row_by im_id (pj_import job) (opml_imports (ow_db w)) = Some r" and "im_status r \<in> {Uploaded, Parsing}"
  shows "\<exists>w'. ProcessOpmlParseJob_execute E job w = (w', Inr ())
    \<and> feeds (ow_feeds w') = feeds (ow_feeds w) \<and> ow_queue w' = ow_queue w
    \<and> (case extractOpmlItems (oe_max_bytes E) MAX_OUTLINE_TAGS (pj_xml job) of
         Inl m \<Rightarrow> validation_failed (pj_import job) m w w'
       | Inr parsed \<Rightarrow> (case preview_items (oe_urls E) (im_tenant r) (ow_feeds w) parsed of
           Inl m \<Rightarrow> validation_failed (pj_import job) m w w'
         | Inr xs \<Rightarrow> length xs = length parsed \<and> preview_shown (pj_import job) (im_tenant r) xs w'))"
proof -
  let ?i = "pj_import job" and ?now = "oe_now E"
  have ok [simp]: "oe_calls E c = None" for c using calls by simp
  have can: "assertValidOpmlImportStatusTransition (im_status r) Parsing = Inr ()"
    using assms(4) by (auto simp: assertValidOpmlImportStatusTransition_def canTransitionOpmlImportStatus_def)
  let ?w1 = "w\<lparr>ow_db := (ow_db w)\<lparr>opml_imports :=
      sql_update (\<lambda>r. im_id r = ?i) (marked_row ?now (status_only Parsing None)) (opml_imports (ow_db w))\<rparr>\<rparr>"
  have run: "ProcessOpmlParseJob_execute E job w =
      (case parse_transaction E job (im_tenant r) w of
         (w', Inr _) \<Rightarrow> (w', Inr ())
       | (w', Inl m) \<Rightarrow> and_then (mark_import E ParseMarkFailed ?i (status_only FailedValidation (Some m)) (rolled_back w w'))
            (\<lambda>w'' _. (w'', Inr ())))"
    using assms(4) row can
    by (auto simp: ProcessOpmlParseJob_execute_def getImportOrThrowForWorker_def findImportByIdForWorker_def or_not_found_def
        getImportTenantId_def)
  have m1: "mark_import E MarkParsing ?i (status_only Parsing None) w =
      (?w1, Inr (mapImport (marked_row ?now (status_only Parsing None) r)))"
    by (rule mark_import_ok [OF ok row])
  have row1: "row_by im_id ?i (opml_imports (ow_db ?w1)) = Some (marked_row ?now (status_only Parsing None) r)"
    using row by (simp add: mark.row_by_update_key)
  have failed: "\<exists>w'. and_then (mark_import E ParseMarkFailed ?i (status_only FailedValidation (Some m)) (rolled_back w ?w1))
      (\<lambda>w'' _. (w'', Inr ())) = (w', Inr ()) \<and> feeds (ow_feeds w') = feeds (ow_feeds w) \<and> ow_queue w' = ow_queue w
      \<and> validation_failed ?i m w w'" for m
    using row mark_import_ok [OF ok, of ?i "rolled_back w ?w1"]
    by (simp add: rolled_back_def validation_failed_def mark.row_by_update_key marked_sel status_only_def coalesce_def)
  show ?thesis
  proof (cases "extractOpmlItems (oe_max_bytes E) MAX_OUTLINE_TAGS (pj_xml job)")
    case (Inl m)
    then have "parse_transaction E job (im_tenant r) w = (?w1, Inl m)" by (simp add: parse_transaction_def m1)
    with Inl failed [of m] show ?thesis by (simp add: run)
  next
    case (Inr parsed)
    note parsed = Inr
    show ?thesis
    proof (cases "preview_items (oe_urls E) (im_tenant r) (ow_feeds w) parsed")
      case (Inl m)
      then have "parse_transaction E job (im_tenant r) w = (?w1, Inl m)" by (simp add: parse_transaction_def m1 parsed)
      with Inl parsed failed [of m] show ?thesis by (simp add: run)
    next
      case (Inr xs)
      note fit = preview_items_fit [OF Inr] and st = preview_statuses [OF Inr]
      obtain db where db: "replaceImportItems ?i xs (ow_db ?w1) = (db, Inr ())" "opml_imports db = opml_imports (ow_db ?w1)"
        "list_all2 (\<lambda>row x. \<exists>k. row = new_item k (im_tenant r) ?i x) (import_items ?i db) xs"
        using replace_items_ok [OF fit(1) row1] hash by auto
      let ?m = "(status_only PreviewReady None)\<lparr>mk_counters := preview_counters xs\<rparr>"
      let ?w2 = "?w1\<lparr>ow_db := db\<rparr>"
      have m2: "mark_import E MarkReady ?i ?m ?w2 =
          (?w2\<lparr>ow_db := db\<lparr>opml_imports := sql_update (\<lambda>r. im_id r = ?i) (marked_row ?now ?m) (opml_imports db)\<rparr>\<rparr>,
           Inr (mapImport (marked_row ?now ?m (marked_row ?now (status_only Parsing None) r))))"
        using mark_import_ok [OF ok, of ?i ?w2] row1 db(2) by simp
      have "parse_transaction E job (im_tenant r) w =
          (?w2\<lparr>ow_db := db\<lparr>opml_imports := sql_update (\<lambda>r. im_id r = ?i) (marked_row ?now ?m) (opml_imports db)\<rparr>\<rparr>, Inr ())"
        using db(1) m2 by (simp add: parse_transaction_def m1 parsed Inr)
      moreover have "preview_shown ?i (im_tenant r) xs
          (?w2\<lparr>ow_db := db\<lparr>opml_imports := sql_update (\<lambda>r. im_id r = ?i) (marked_row ?now ?m) (opml_imports db)\<rparr>\<rparr>)"
        using row db(2,3) counts_add_up [of xs] st hash count_items [OF db(3), of ItemNew]
        by (simp add: preview_shown_def mark.row_by_update_key marked_sel preview_counters_def status_only_def opt_else_def
            countItemsByStatus_def import_items_def)
      ultimately show ?thesis using fit(2) hash by (simp add: run parsed Inr)
    qed
  qed
qed


definition opml_urls :: feed_urls where
  "opml_urls = \<lparr>fu_parse = news_parser, fu_env = (\<lambda>_. None), fu_sha256 = (\<lambda>u. CHR ''#'' # u)\<rparr>"

definition opml_env :: "(string list) opml_env" where
  "opml_env = \<lparr>oe_now = 50, oe_urls = opml_urls, oe_max_bytes = 1000, oe_jitter_max = 60, oe_draw = (\<lambda>_. 0),
     oe_calls = (\<lambda>_. None), oe_fetch = \<lparr>getJob = (\<lambda>i q. i \<in> set q), addJob = (\<lambda>i j q. i # q)\<rparr>\<rparr>"

definition opml_world :: "opml_status \<Rightarrow> opml_item list \<Rightarrow> string list opml_world" where
  "opml_world st its = \<lparr>ow_db = \<lparr>opml_imports = [(new_import 1 9 ''acme'' ''a.opml'' 90 ''c'')\<lparr>im_status := st\<rparr>], next_import = 2,
     opml_items = its, next_item = 1 + length its\<rparr>, ow_feeds = \<lparr>feeds = [], next_feed = 1\<rparr>, ow_queue = []\<rparr>"

definition two_feeds :: string where
  "two_feeds = ''<opml><outline text=\"N\" xmlUrl=\"http://N.example/a//b/\"/><outline xmlUrl=\"http://N.example/a//b/\"/></opml>''"

theorem parse_job_settles_witness:
  "\<exists>w'. ProcessOpmlParseJob_execute opml_env \<lparr>pj_import = 1, pj_xml = two_feeds\<rparr> (opml_world Uploaded []) = (w', Inr ())
     \<and> import_status 1 (ow_db w') = Some PreviewReady \<and> map pv_status (import_items 1 (ow_db w')) = [ItemNew, ItemDuplicate]"
proof -
  let ?job = "\<lparr>pj_import = 1, pj_xml = two_feeds\<rparr>"
  let ?items = "\<lambda>k. [\<lparr>pi_title = Some ''N'', pi_path = Some ''N'', pi_url = ''http://N.example/a//b/''\<rparr>,
       \<lparr>pi_title = None, pi_path = None, pi_url = ''http://N.example/a//b/''\<rparr>]"
  have parsed: "extractOpmlItems 1000 MAX_OUTLINE_TAGS two_feeds = Inr (?items ())" by code_simp
  obtain xs where xs: "preview_items opml_urls ''acme'' \<lparr>feeds = [], next_feed = 1\<rparr> (?items ()) = Inr xs"
    "map ii_status xs = [ItemNew, ItemDuplicate]"
  proof -
    have "case preview_items opml_urls ''acme'' \<lparr>feeds = [], next_feed = 1\<rparr> (?items ()) of
        Inl m \<Rightarrow> False | Inr xs \<Rightarrow> map ii_status xs = [ItemNew, ItemDuplicate]" by code_simp
    then show ?thesis using that by (auto split: sum.splits)
  qed
  have row: "row_by im_id (pj_import ?job) (opml_imports (ow_db (opml_world Uploaded []))) =
      Some (new_import 1 9 ''acme'' ''a.opml'' 90 ''c'')"
    by (simp add: opml_world_def new_import_def row_simps)
  have len: "list_all2 (\<lambda>row x. \<exists>k. row = new_item k t i x) rows ys \<Longrightarrow> map pv_status rows = map ii_status ys" for t i rows ys
    by (induction rule: list_all2_induct) (auto simp: new_item_def)
  obtain w' where "ProcessOpmlParseJob_execute opml_env ?job (opml_world Uploaded []) = (w', Inr ())"
    "preview_shown 1 ''acme'' xs w'"
    using parse_job_settles [OF _ _ row, of opml_env] parsed xs(1)
    by (auto simp: opml_env_def opml_urls_def new_import_def opml_world_def)
  then show ?thesis using len xs(2) by (auto simp: preview_shown_def import_status_def)
qed


section \<open>Apply jobs\<close>

text \<open>What becomes of a candidate: failed, or imported with a feed of the tenant that has its address.\<close>

definition item_settled :: "feed_urls \<Rightarrow> string \<Rightarrow> feed list \<Rightarrow> opml_item \<Rightarrow> bool" where
  "item_settled U tenant fs r \<longleftrightarrow> pv_status r = ItemFailed
     \<or> (pv_status r = ItemImported \<and> (\<exists>f \<in> set fs. pv_feed r = Some (fd_id f) \<and> fd_tenant f = tenant
          \<and> (pv_url r = Some (fd_url f) \<or> (\<exists>u. pv_url r = Some u \<and> normalize_url U (fd_url f) = Inr u))))"

lemma item_settled_mono: "item_settled U tenant fs r \<Longrightarrow> set fs \<subseteq> set gs \<Longrightarrow> item_settled U tenant gs r"
  unfolding item_settled_def by blast

text \<open>How far one row of the items may change over a list of candidates.\<close>

definition item_moved :: "feed_urls \<Rightarrow> string \<Rightarrow> feed list \<Rightarrow> nat set \<Rightarrow> bool \<Rightarrow> opml_item \<Rightarrow> opml_item \<Rightarrow> bool" where
  "item_moved U tenant fs ks clean r r' \<longleftrightarrow> pv_id r' = pv_id r \<and> it_import r' = it_import r \<and> pv_url r' = pv_url r
     \<and> (if pv_id r \<in> ks then item_settled U tenant fs r' \<and> (clean \<longrightarrow> pv_status r' = ItemImported) else r' = r)"

lemma upsert_ok:
  assumes calls: "\<forall>c. oe_calls E c = None" and "upsertFeed E k tenant u db = (db', Inr v)"
  shows "\<exists>new. feeds db' = feeds db @ new \<and> (\<forall>f \<in> set new. fd_tenant f = tenant)
    \<and> map fd_id new = (if up_created v then [up_feed v] else [])
    \<and> (\<not> up_collision v \<longrightarrow> (\<exists>f \<in> set (feeds db'). fd_id f = up_feed v \<and> fd_tenant f = tenant
         \<and> (fd_url f = u \<or> normalize_url (oe_urls E) (fd_url f) = Inr u)))"
proof -
  let ?h = "Some (buildNormalizedFeedUrlHash (fu_sha256 (oe_urls E)) u)"
  show ?thesis
  proof (cases "list_ex (feed_conflict tenant u ?h) (feeds db)")
    case False
    then show ?thesis using assms
      by (auto simp: upsertFeed_def Let_def imported_feed_def new_feed_def
          intro!: exI [of _ "[imported_feed E k tenant u (next_feed db)]"])
  next
    case True
    let ?rows = "sort_key (\<lambda>f. if fd_url_hash f = ?h then 0 else 1 :: nat)
        (filter (\<lambda>f. fd_tenant f = tenant \<and> (fd_url_hash f = ?h \<or> fd_url f = u)) (feeds db))"
    obtain f rest where rows: "?rows = f # rest"
      using True assms by (cases ?rows) (auto simp: upsertFeed_def Let_def)
    have "f \<in> set ?rows" unfolding rows by simp
    then have f: "f \<in> set (feeds db)" "fd_tenant f = tenant" by simp_all
    obtain n where "normalize_url (oe_urls E) (fd_url f) = Inr n"
      using True assms rows by (cases "normalize_url (oe_urls E) (fd_url f)") (auto simp: upsertFeed_def Let_def)
    then show ?thesis using True assms rows f by (auto simp: upsertFeed_def Let_def)
  qed
qed

lemma upsert_feeds_kept:
  assumes "\<forall>c. oe_calls E c = None" and "upsertFeed E k tenant u db = (db', Inl e)"
  shows "feeds db' = feeds db \<and> (\<exists>m. e = CodeError m)"
  using assms by (auto simp: upsertFeed_def Let_def split: if_splits list.splits sum.splits)

lemma item_marks_keep [simp]:
  "opml_imports (markItemFailed k m db) = opml_imports db" "opml_imports (markItemImported k f db) = opml_imports db"
  by (simp_all add: markItemFailed_def markItemImported_def)

lemma apply_item_ok:
  assumes calls: "\<forall>c. oe_calls E c = None" and url: "\<forall>r \<in> set (opml_items (ow_db w)). pv_id r = pv_id x \<longrightarrow> pv_url r = pv_url x"
  shows "\<exists>w' o' new. apply_item E tenant x w = (w', Inr o')
    \<and> opml_imports (ow_db w') = opml_imports (ow_db w) \<and> ow_queue w' = ow_queue w
    \<and> feeds (ow_feeds w') = feeds (ow_feeds w) @ new \<and> (\<forall>f \<in> set new. fd_tenant f = tenant)
    \<and> map fd_id new = (case o' of Some (f, True) \<Rightarrow> [f] | _ \<Rightarrow> [])
    \<and> list_all2 (item_moved (oe_urls E) tenant (feeds (ow_feeds w')) {pv_id x} (o' \<noteq> None))
        (opml_items (ow_db w)) (opml_items (ow_db w'))"
proof -
  let ?U = "oe_urls E" and ?its = "opml_items (ow_db w)"
  have ok [simp]: "oe_calls E c = None" for c using calls by simp
  have failed: "list_all2 (item_moved ?U tenant fs {pv_id x} False) ?its (opml_items (markItemFailed (pv_id x) m (ow_db w)))" for m fs
    by (auto simp: markItemFailed_def sql_update_def list_all2_map2 item_moved_def item_settled_def intro!: list_all2_refl
        list.rel_refl_strong)
  show ?thesis
  proof (cases "no_text (pv_url x)")
    case True
    then show ?thesis using failed by (auto simp: apply_item_def Let_def mark_item_failed_def)
  next
    case False
    then obtain u where u: "pv_url x = Some u" by (auto simp: no_text_def split: option.splits)
    obtain db' v where up: "upsertFeed E (pv_id x) tenant u (ow_feeds w) = (db', v)" by fastforce
    show ?thesis
    proof (cases v)
      case (Inl e)
      from upsert_feeds_kept [OF calls up [unfolded Inl]] obtain m where "e = CodeError m" "feeds db' = feeds (ow_feeds w)" by blast
      then show ?thesis using False u up Inl failed by (auto simp: apply_item_def Let_def mark_item_failed_def)
    next
      case (Inr v')
      from upsert_ok [OF calls up [unfolded Inr]] obtain new where new: "feeds db' = feeds (ow_feeds w) @ new"
        "\<forall>f \<in> set new. fd_tenant f = tenant" "map fd_id new = (if up_created v' then [up_feed v'] else [])"
        "\<not> up_collision v' \<longrightarrow> (\<exists>f \<in> set (feeds db'). fd_id f = up_feed v' \<and> fd_tenant f = tenant
           \<and> (fd_url f = u \<or> normalize_url ?U (fd_url f) = Inr u))" by blast
      show ?thesis
      proof (cases "up_collision v'")
        case True
        let ?w' = "w\<lparr>ow_feeds := db', ow_db := markItemFailed (pv_id x) ''normalized_hash_collision_detected'' (ow_db w)\<rparr>"
        have "apply_item E tenant x w = (?w', Inr None)"
          using False u up Inr True by (simp add: apply_item_def Let_def mark_item_failed_def)
        moreover have "new = []"
          using up Inr True new(1) by (auto simp: upsertFeed_def Let_def split: if_splits list.splits sum.splits)
        ultimately show ?thesis using failed new(1)
          by (intro exI [of _ ?w'] exI [of _ None] exI [of _ "[]"]) (simp add: markItemFailed_def)
      next
        case F: False
        let ?w' = "w\<lparr>ow_feeds := db', ow_db := markItemImported (pv_id x) (up_feed v') (ow_db w)\<rparr>"
        have run: "apply_item E tenant x w = (?w', Inr (Some (up_feed v', up_created v')))"
          using False u up Inr F by (simp add: apply_item_def Let_def)
        obtain f where f: "f \<in> set (feeds db')" "fd_id f = up_feed v'" "fd_tenant f = tenant"
          "fd_url f = u \<or> normalize_url ?U (fd_url f) = Inr u" using new(4) F by blast
        have "list_all2 (item_moved ?U tenant (feeds db') {pv_id x} True) ?its
            (opml_items (markItemImported (pv_id x) (up_feed v') (ow_db w)))"
          unfolding markItemImported_def sql_update_def
          using url u f by (auto simp: list_all2_map2 item_moved_def item_settled_def intro!: list.rel_refl_strong bexI [of _ f])
        with run new(1-3) show ?thesis
          by (intro exI [of _ ?w'] exI [of _ "Some (up_feed v', up_created v')"] exI [of _ new])
            (auto simp: markItemImported_def)
      qed
    qed
  qed
qed


lemma item_moved_trans:
  assumes "item_moved U tenant fs {k} c1 r s" and "item_moved U tenant gs ks c2 s t" and "set fs \<subseteq> set gs"
  shows "item_moved U tenant gs (insert k ks) (c1 \<and> c2) r t"
proof -
  have "item_settled U tenant fs s \<Longrightarrow> item_settled U tenant gs s" using item_settled_mono assms(3) by blast
  with assms(1,2) show ?thesis by (auto simp: item_moved_def split: if_splits)
qed

lemma all2_right: "list_all2 P xs ys \<Longrightarrow> y \<in> set ys \<Longrightarrow> \<exists>x \<in> set xs. P x y"
  by (induction rule: list_all2_induct) auto

lemma apply_items_ok:
  assumes calls: "\<forall>c. oe_calls E c = None"
    and "\<forall>x \<in> set xs. \<forall>r \<in> set (opml_items (ow_db w)). pv_id r = pv_id x \<longrightarrow> pv_url r = pv_url x"
  shows "\<exists>w' t' new. apply_items E tenant xs t w = (w', Inr t')
    \<and> opml_imports (ow_db w') = opml_imports (ow_db w) \<and> ow_queue w' = ow_queue w
    \<and> feeds (ow_feeds w') = feeds (ow_feeds w) @ new \<and> (\<forall>f \<in> set new. fd_tenant f = tenant)
    \<and> ta_created t' = ta_created t @ map fd_id new \<and> ta_failed t \<le> ta_failed t'
    \<and> list_all2 (item_moved (oe_urls E) tenant (feeds (ow_feeds w')) (pv_id ` set xs) (ta_failed t' = ta_failed t))
        (opml_items (ow_db w)) (opml_items (ow_db w'))"
  using assms(2)
proof (induction xs arbitrary: t w)
  case Nil
  show ?case by (auto simp: item_moved_def intro!: list.rel_refl_strong)
next
  case (Cons x xs)
  let ?U = "oe_urls E"
  obtain w1 o1 new1 where one: "apply_item E tenant x w = (w1, Inr o1)"
    "opml_imports (ow_db w1) = opml_imports (ow_db w)" "ow_queue w1 = ow_queue w"
    "feeds (ow_feeds w1) = feeds (ow_feeds w) @ new1" "\<forall>f \<in> set new1. fd_tenant f = tenant"
    "map fd_id new1 = (case o1 of Some (f, True) \<Rightarrow> [f] | _ \<Rightarrow> [])"
    "list_all2 (item_moved ?U tenant (feeds (ow_feeds w1)) {pv_id x} (o1 \<noteq> None)) (opml_items (ow_db w)) (opml_items (ow_db w1))"
    using apply_item_ok [OF calls, of w x tenant] Cons.prems by auto
  have "\<forall>y \<in> set xs. \<forall>s \<in> set (opml_items (ow_db w1)). pv_id s = pv_id y \<longrightarrow> pv_url s = pv_url y"
  proof (intro ballI impI)
    fix y s assume y: "y \<in> set xs" "s \<in> set (opml_items (ow_db w1))" "pv_id s = pv_id y"
    from all2_right [OF one(7) y(2)] obtain r where "r \<in> set (opml_items (ow_db w))"
      "item_moved ?U tenant (feeds (ow_feeds w1)) {pv_id x} (o1 \<noteq> None) r s" by blast
    then show "pv_url s = pv_url y" using Cons.prems y by (auto simp: item_moved_def)
  qed
  from Cons.IH [OF this, of "tallied t o1"] obtain w' t' new where rest: "apply_items E tenant xs (tallied t o1) w1 = (w', Inr t')"
    "opml_imports (ow_db w') = opml_imports (ow_db w1)" "ow_queue w' = ow_queue w1"
    "feeds (ow_feeds w') = feeds (ow_feeds w1) @ new" "\<forall>f \<in> set new. fd_tenant f = tenant"
    "ta_created t' = ta_created (tallied t o1) @ map fd_id new" "ta_failed (tallied t o1) \<le> ta_failed t'"
    "list_all2 (item_moved ?U tenant (feeds (ow_feeds w')) (pv_id ` set xs) (ta_failed t' = ta_failed (tallied t o1)))
      (opml_items (ow_db w1)) (opml_items (ow_db w'))" by blast
  have tally: "ta_created (tallied t o1) = ta_created t @ map fd_id new1"
    "ta_failed (tallied t o1) = ta_failed t + (if o1 = None then 1 else 0)"
    using one(6) by (auto simp: tallied_def split: option.splits prod.splits bool.splits)
  have clean: "(ta_failed t' = ta_failed t) = (o1 \<noteq> None \<and> ta_failed t' = ta_failed (tallied t o1))"
    using rest(7) tally(2) by auto
  have moved: "list_all2 (item_moved ?U tenant (feeds (ow_feeds w')) (insert (pv_id x) (pv_id ` set xs))
        (ta_failed t' = ta_failed t)) (opml_items (ow_db w)) (opml_items (ow_db w'))"
    unfolding clean by (rule list_all2_trans [OF _ one(7) rest(8)]) (rule item_moved_trans, assumption, assumption, simp add: rest(4))
  show ?case
    using moved one(1-5) rest(1-7) tally by (intro exI [of _ w'] exI [of _ t'] exI [of _ "new1 @ new"]) (auto simp: ball_Un)
qed

lemma enqueue_created_ok:
  assumes "\<forall>c. oe_calls E c = None" and B: "bull_ok (oe_fetch E)"
  shows "\<exists>q. enqueue_created E fs w = (w\<lparr>ow_queue := q\<rparr>, Inr ())
    \<and> (\<forall>k. getJob (oe_fetch E) k (ow_queue w) \<longrightarrow> getJob (oe_fetch E) k q)
    \<and> (\<forall>f \<in> set fs. getJob (oe_fetch E) (scheduled_id f) q)"
proof (induction fs arbitrary: w)
  case (Cons f fs)
  let ?job = "\<lparr>fj_feed = f, fj_queued_at = oe_now E, fj_attempt = 0, fj_source = FromScheduler\<rparr>"
  obtain q1 r where q1: "enqueue_fetch (oe_fetch E) (oe_now E) ?job (ow_queue w) = (q1, r)" by (metis surj_pair)
  have keep: "getJob (oe_fetch E) k (ow_queue w) \<Longrightarrow> getJob (oe_fetch E) k q1" for k
    using enqueue_fetch_keeps [OF B, of k "ow_queue w" "oe_now E" ?job] q1 by simp
  have found: "getJob (oe_fetch E) (scheduled_id f) q1"
    using enqueue_fetch_found [OF B, of ?job "oe_now E" "ow_queue w"] q1 by simp
  from Cons.IH [of "w\<lparr>ow_queue := q1\<rparr>"] obtain q where "enqueue_created E fs (w\<lparr>ow_queue := q1\<rparr>) = (w\<lparr>ow_queue := q\<rparr>, Inr ())"
    "\<forall>k. getJob (oe_fetch E) k q1 \<longrightarrow> getJob (oe_fetch E) k q" "\<forall>f \<in> set fs. getJob (oe_fetch E) (scheduled_id f) q" by auto
  then show ?case using assms(1) q1 keep found by auto
next
  case Nil
  show ?case by (rule exI [of _ "ow_queue w"]) simp
qed

text \<open>
  C31: An apply job of a confirmed import whose calls succeed returns with the import completed or failed and no
  candidate left. Every candidate is failed or imported, and imported means that the tenant has a feed with its
  address and the item points to it; in a completed import all are imported. No feed is changed, the new ones are
  the tenant's and are queued for their first fetch, and the items of other imports stay as they are.
\<close>

theorem apply_job_registers:
  assumes calls: "\<forall>c. oe_calls E c = None" and B: "bull_ok (oe_fetch E)" and ids: "distinct (map pv_id (opml_items (ow_db w)))"
    and row: "row_by im_id (aj_import job) (opml_imports (ow_db w)) = Some r" and status: "im_status r \<in> {PreviewReady, Importing}"
  shows "\<exists>w' new st. ProcessOpmlApplyJob_execute E job w = (w', Inr ())
    \<and> import_status (aj_import job) (ow_db w') = Some st \<and> st \<in> {Completed, ImportFailed}
    \<and> feeds (ow_feeds w') = feeds (ow_feeds w) @ new
    \<and> (\<forall>f \<in> set new. fd_tenant f = im_tenant r \<and> getJob (oe_fetch E) (scheduled_id (fd_id f)) (ow_queue w'))
    \<and> list_all2 (\<lambda>x x'. pv_id x' = pv_id x \<and> it_import x' = it_import x \<and> pv_url x' = pv_url x
          \<and> (if it_import x = aj_import job \<and> pv_status x = ItemNew
             then item_settled (oe_urls E) (im_tenant r) (feeds (ow_feeds w')) x' \<and> (st = Completed \<longrightarrow> pv_status x' = ItemImported)
             else x' = x))
        (opml_items (ow_db w)) (opml_items (ow_db w'))"
proof -
  let ?i = "aj_import job" and ?its = "opml_items (ow_db w)" and ?T = "im_tenant r"
  have ok [simp]: "oe_calls E c = None" for c using calls by simp
  obtain w0 r0 where w0: "opml_items (ow_db w0) = ?its" "ow_feeds w0 = ow_feeds w" "ow_queue w0 = ow_queue w"
    "row_by im_id ?i (opml_imports (ow_db w0)) = Some r0"
    "ProcessOpmlApplyJob_execute E job w = apply_in_transaction E job ?T w0"
  proof (cases "im_status r = Importing")
    case True
    then show ?thesis using row that [of w r]
      by (simp add: ProcessOpmlApplyJob_execute_def getImportOrThrowForWorker_def findImportByIdForWorker_def or_not_found_def
          getImportTenantId_def)
  next
    case False
    let ?m = "(status_only Importing None)\<lparr>mk_confirmed := True\<rparr>"
    have "assertValidOpmlImportStatusTransition (im_status r) Importing = Inr ()"
      using status False by (auto simp: assertValidOpmlImportStatusTransition_def canTransitionOpmlImportStatus_def)
    then show ?thesis
      using row status False mark_import_ok [OF ok row, of MarkImporting ?m]
        that [of "fst (mark_import E MarkImporting ?i ?m w)" "marked_row (oe_now E) ?m r"]
      by (auto simp: ProcessOpmlApplyJob_execute_def getImportOrThrowForWorker_def findImportByIdForWorker_def or_not_found_def
          getImportTenantId_def mark.row_by_update_key)
  qed
  let ?cand = "listNewCandidateItems ?i (ow_db w0)"
  have cand: "pv_id ` set ?cand = pv_id ` {x \<in> set ?its. it_import x = ?i \<and> pv_status x = ItemNew}"
    by (auto simp: listNewCandidateItems_def import_items_def w0(1) image_iff)
  have "\<forall>x \<in> set ?cand. \<forall>s \<in> set (opml_items (ow_db w0)). pv_id s = pv_id x \<longrightarrow> pv_url s = pv_url x"
    using ids by (auto simp: listNewCandidateItems_def import_items_def w0(1) dest: eq_key_imp_eq_value inj_onD simp: distinct_map)
  from apply_items_ok [OF calls this, of ?T "\<lparr>ta_imported = 0, ta_failed = 0, ta_created = []\<rparr>"]
  obtain w1 t new where a: "apply_items E ?T ?cand \<lparr>ta_imported = 0, ta_failed = 0, ta_created = []\<rparr> w0 = (w1, Inr t)"
    "opml_imports (ow_db w1) = opml_imports (ow_db w0)" "ow_queue w1 = ow_queue w0"
    "feeds (ow_feeds w1) = feeds (ow_feeds w0) @ new" "\<forall>f \<in> set new. fd_tenant f = ?T" "ta_created t = map fd_id new"
    "list_all2 (item_moved (oe_urls E) ?T (feeds (ow_feeds w1)) (pv_id ` set ?cand) (ta_failed t = 0)) ?its (opml_items (ow_db w1))"
    unfolding w0(1) by auto
  let ?m = "apply_mark t ?i (ow_db w1)"
  let ?w2 = "w1\<lparr>ow_db := (ow_db w1)\<lparr>opml_imports := sql_update (\<lambda>r. im_id r = ?i) (marked_row (oe_now E) ?m) (opml_imports (ow_db w1))\<rparr>\<rparr>"
  have "mark_import E MarkDone ?i ?m w1 = (?w2, Inr (mapImport (marked_row (oe_now E) ?m r0)))"
    using mark_import_ok [OF ok, of ?i w1 r0] w0(4) a(2) by simp
  then have tx: "apply_transaction E job ?T w0 = (?w2, Inr (map fd_id new))"
    using a by (simp add: apply_transaction_def)
  obtain q where q: "enqueue_created E (map fd_id new) ?w2 = (?w2\<lparr>ow_queue := q\<rparr>, Inr ())"
    "\<forall>f \<in> set (map fd_id new). getJob (oe_fetch E) (scheduled_id f) q"
    using enqueue_created_ok [OF calls B, of "map fd_id new" ?w2] by blast
  let ?w' = "?w2\<lparr>ow_queue := q\<rparr>" and ?st = "if 0 < ta_failed t then ImportFailed else Completed"
  have run: "ProcessOpmlApplyJob_execute E job w = (?w', Inr ())" unfolding w0(5) apply_in_transaction_def tx by (simp add: q(1))
  have st: "import_status ?i (ow_db ?w') = Some ?st"
    using w0(4) a(2) by (simp add: import_status_def mark.row_by_update_key apply_mark_def Let_def)
  have w': "opml_items (ow_db ?w') = opml_items (ow_db w1)" "feeds (ow_feeds ?w') = feeds (ow_feeds w1)" by simp_all
  have same: "x \<in> set ?its \<Longrightarrow> pv_id x \<in> pv_id ` set ?cand \<longleftrightarrow> it_import x = ?i \<and> pv_status x = ItemNew" for x
    unfolding cand using ids by (auto simp: distinct_map dest: inj_onD)
  have "list_all2 (\<lambda>x x'. pv_id x' = pv_id x \<and> it_import x' = it_import x \<and> pv_url x' = pv_url x
          \<and> (if it_import x = ?i \<and> pv_status x = ItemNew
             then item_settled (oe_urls E) ?T (feeds (ow_feeds ?w')) x' \<and> (?st = Completed \<longrightarrow> pv_status x' = ItemImported)
             else x' = x)) ?its (opml_items (ow_db ?w'))"
    unfolding w' by (rule list.rel_mono_strong [OF a(7)]) (auto simp: item_moved_def same split: if_splits)
  with run st q(2) a(4,5) w0(2) show ?thesis
    by (intro exI [of _ ?w'] exI [of _ new] exI [of _ ?st]) auto
qed


definition new_row :: opml_item where
  "new_row = new_item 1 ''acme'' 1 \<lparr>ii_title = None, ii_path = None, ii_source_url = ''http://n.example/'', ii_url = Some ''http://n.example/'',
     ii_hash = Some ''#http://n.example/'', ii_status = ItemNew, ii_error = None\<rparr>"

theorem apply_job_registers_witness:
  "\<exists>w' x f. ProcessOpmlApplyJob_execute opml_env \<lparr>aj_import = 1, aj_requested_at = 5\<rparr> (opml_world Importing [new_row]) = (w', Inr ())
     \<and> opml_items (ow_db w') = [x] \<and> (pv_status x = ItemFailed \<or> (f \<in> set (feeds (ow_feeds w')) \<and> pv_feed x = Some (fd_id f)))"
proof -
  let ?job = "\<lparr>aj_import = 1, aj_requested_at = 5\<rparr>" and ?w = "opml_world Importing [new_row]"
  define r where "r = (new_import 1 9 ''acme'' ''a.opml'' 90 ''c'')\<lparr>im_status := Importing\<rparr>"
  have row: "row_by im_id (aj_import ?job) (opml_imports (ow_db ?w)) = Some r" "im_status r \<in> {PreviewReady, Importing}"
    by (simp_all add: opml_world_def new_import_def row_simps r_def)
  have env: "\<forall>c. oe_calls opml_env c = None" "bull_ok (oe_fetch opml_env)" "distinct (map pv_id (opml_items (ow_db ?w)))"
    by (simp_all add: opml_env_def bull_ok_def opml_world_def)
  obtain w' st where run: "ProcessOpmlApplyJob_execute opml_env ?job ?w = (w', Inr ())"
    and moved: "list_all2 (\<lambda>x x'. pv_id x' = pv_id x \<and> it_import x' = it_import x \<and> pv_url x' = pv_url x
          \<and> (if it_import x = aj_import ?job \<and> pv_status x = ItemNew
             then item_settled (oe_urls opml_env) (im_tenant r) (feeds (ow_feeds w')) x' \<and> (st = Completed \<longrightarrow> pv_status x' = ItemImported)
             else x' = x)) (opml_items (ow_db ?w)) (opml_items (ow_db w'))"
    using apply_job_registers [OF env row] by blast
  have "opml_items (ow_db ?w) = [new_row]" "it_import new_row = 1" "pv_status new_row = ItemNew"
    by (simp_all add: opml_world_def new_row_def new_item_def)
  with moved obtain x where "opml_items (ow_db w') = [x]" "item_settled (oe_urls opml_env) (im_tenant r) (feeds (ow_feeds w')) x"
    by (auto simp: list_all2_Cons1)
  with run show ?thesis by (auto simp: item_settled_def)
qed

end
