(* ===== verification/Opml_Requests.thy ===== *)
theory Opml_Requests imports Opml_Jobs begin

text \<open>
  The OPML endpoints: the use cases \<open>create\<close>, \<open>confirm\<close>, \<open>get-status\<close> and \<open>get-preview\<close> of
  \<open>src/modules/opml-imports/application\<close> and the handlers of \<open>opml-imports.controller.ts\<close>; then the life of an
  import over all operations that can change it. An upload is a list of bytes; \<open>or_utf8\<close> is the decoding of bytes to text.
  Theorems: whatever calls fail, the status of an import only moves along the transitions of its machine, but for one
  step; and the imports that a failed call leaves where no request or job moves them.
\<close>

section \<open>Use cases\<close>

record 'q opml_request_env =
  or_jobs :: "'q opml_env"
  or_parse :: "('q, parse_job) bull"
  or_apply :: "('q, apply_job) bull"
  or_sha256 :: "string \<Rightarrow> string"
  or_utf8 :: "string \<Rightarrow> string"

record upload =
  up_name :: string
  up_mime :: string
  up_content :: string

definition ALLOWED_MIME_TYPES :: "string list" where
  "ALLOWED_MIME_TYPES = [''text/xml'', ''application/xml'', ''text/x-opml'', ''application/octet-stream'']"

definition validateUpload :: "nat \<Rightarrow> upload \<Rightarrow> api_error + unit" where
  "validateUpload opmlUploadMaxBytes u =
     (if up_content u = [] then Inl (BadRequest ''opml_file_required'')
      else if opmlUploadMaxBytes < length (up_content u) then Inl (BadRequest ''opml_file_too_large'')
      else (let lowerFileName = js_lower (up_name u);
                extensionLooksValid = suffix ''.opml'' lowerFileName \<or> suffix ''.xml'' lowerFileName;
                mimeLooksValid = js_lower (up_mime u) \<in> set ALLOWED_MIME_TYPES
            in if \<not> extensionLooksValid \<and> \<not> mimeLooksValid then Inl (BadRequest ''opml_file_invalid_type'') else Inr ()))"

definition request_call :: "'q opml_request_env \<Rightarrow> opml_call \<Rightarrow> 'w \<Rightarrow> 'w \<times> (api_error + 'a) \<Rightarrow> 'w \<times> (api_error + 'a)" where
  "request_call E c w rest = (case oe_calls (or_jobs E) c of Some m \<Rightarrow> (w, Inl (Unexpected m)) | None \<Rightarrow> rest)"

text \<open>The result: the id, the status and whether the parse job is queued.\<close>

definition CreateOpmlImport_execute ::
  "'q opml_request_env \<Rightarrow> string option \<Rightarrow> upload \<Rightarrow> 'q opml_world \<Rightarrow> 'q opml_world \<times> (api_error + nat \<times> opml_status \<times> bool)" where
  "CreateOpmlImport_execute E tenantId u w =
     (case validateUpload (oe_max_bytes (or_jobs E)) u of
        Inl e \<Rightarrow> (w, Inl e)
      | Inr _ \<Rightarrow>
          request_call E CreateInsert w
           (case createImport (oe_now (or_jobs E)) (opt_else tenantId ''legacy'') (up_name u) (length (up_content u))
                   (or_sha256 E (up_content u)) (ow_db w) of
              (db, s) \<Rightarrow>
                (let w1 = w\<lparr>ow_db := db\<rparr> in
                 request_call E CreateEnqueue w1
                  (w1\<lparr>ow_queue := enqueue_parse (or_parse E) \<lparr>pj_import = im_id s, pj_xml = or_utf8 E (up_content u)\<rparr> (ow_queue w1)\<rparr>,
                   Inr (im_id s, im_status s, True)))))"

definition confirm_mark :: status_mark where "confirm_mark = (status_only Importing None)\<lparr>mk_confirmed := True\<rparr>"

datatype confirm_status = Queued | AlreadyConfirmed

definition ConfirmOpmlImport_execute ::
  "'q opml_request_env \<Rightarrow> nat \<Rightarrow> string \<Rightarrow> 'q opml_world \<Rightarrow> 'q opml_world \<times> (api_error + nat \<times> confirm_status)" where
  "ConfirmOpmlImport_execute E i tenant w =
     request_call E ConfirmGet w
      (case getImportOrThrow i (Some tenant) (ow_db w) of
         Inl e \<Rightarrow> (w, Inl e)
       | Inr current \<Rightarrow>
           if im_status current = Importing \<or> im_status current = Completed then (w, Inr (im_id current, AlreadyConfirmed))
           else if im_status current \<noteq> PreviewReady then (w, Inl (Conflict ''opml_import_not_ready_for_confirm''))
           else request_call E ConfirmMark w
                 (case markImportStatus (oe_now (or_jobs E)) i confirm_mark (ow_db w) of
                    (db, Inl e) \<Rightarrow> (w\<lparr>ow_db := db\<rparr>, Inl e)
                  | (db, Inr updated) \<Rightarrow>
                      (let w1 = w\<lparr>ow_db := db\<rparr> in
                       request_call E ConfirmEnqueue w1
                        (w1\<lparr>ow_queue := enqueue_apply (or_apply E) \<lparr>aj_import = i, aj_requested_at = oe_now (or_jobs E)\<rparr> (ow_queue w1)\<rparr>,
                         Inr (im_id updated, Queued)))))"

fun calculateProgress :: "opml_status \<Rightarrow> nat" where
  "calculateProgress Uploaded = 10"
| "calculateProgress Parsing = 30"
| "calculateProgress PreviewReady = 60"
| "calculateProgress Importing = 80"
| "calculateProgress Completed = 100"
| "calculateProgress FailedValidation = 100"
| "calculateProgress ImportFailed = 100"

text \<open>The summary, the progress in percent and the number of failed items.\<close>

definition GetOpmlImportStatus_execute ::
  "'q opml_request_env \<Rightarrow> nat \<Rightarrow> string \<Rightarrow> 'q opml_world \<Rightarrow> 'q opml_world \<times> (api_error + import_summary \<times> nat \<times> nat)" where
  "GetOpmlImportStatus_execute E i tenant w =
     request_call E StatusGet w
      (case getImportOrThrow i (Some tenant) (ow_db w) of
         Inl e \<Rightarrow> (w, Inl e)
       | Inr s \<Rightarrow>
           request_call E StatusCount w
            (w, Inr (s, calculateProgress (im_status s), countItemsByStatus i (ow_db w) ItemFailed)))"

definition GetOpmlPreview_execute ::
  "'q opml_request_env \<Rightarrow> nat \<Rightarrow> string option \<Rightarrow> nat \<Rightarrow> nat \<Rightarrow> 'q opml_world \<Rightarrow>
     'q opml_world \<times> (api_error + import_summary \<times> preview_item list \<times> nat)" where
  "GetOpmlPreview_execute E i tenantId page pageSize w =
     request_call E PreviewGet w
      (case getImportOrThrow i (Some (opt_else tenantId ''legacy'')) (ow_db w) of
         Inl e \<Rightarrow> (w, Inl e)
       | Inr s \<Rightarrow> request_call E PreviewList w (w, Inr (s, listPreviewItems i page pageSize (ow_db w))))"

section \<open>Handlers\<close>

definition DEFAULT_OPML_UPLOAD_MAX_BYTES :: nat where "DEFAULT_OPML_UPLOAD_MAX_BYTES = 10 * 1024 * 1024"

definition resolveOpmlUploadMaxBytes :: "(string \<Rightarrow> string option) \<Rightarrow> int" where
  "resolveOpmlUploadMaxBytes env =
     (case env ''OPML_UPLOAD_MAX_BYTES'' of
        None \<Rightarrow> int DEFAULT_OPML_UPLOAD_MAX_BYTES
      | Some raw \<Rightarrow> (case js_Number raw of
                       Fin q \<Rightarrow> if 0 < q then \<lfloor>q\<rfloor> else int DEFAULT_OPML_UPLOAD_MAX_BYTES
                     | _ \<Rightarrow> int DEFAULT_OPML_UPLOAD_MAX_BYTES))"

text \<open>What the multipart layer raises: an exception of the framework, or an object with a code.\<close>

datatype upload_failure = Raised api_error | Coded string

definition mapUploadTransportError :: "upload_failure \<Rightarrow> upload_failure" where
  "mapUploadTransportError e =
     (case e of
        Raised (api_error.PayloadTooLarge m) \<Rightarrow> Raised (BadRequest ''opml_file_too_large'')
      | Coded c \<Rightarrow> if c = ''LIMIT_FILE_SIZE'' then Raised (BadRequest ''opml_file_too_large'') else e
      | _ \<Rightarrow> e)"

datatype opml_request = UploadOpml "upload option" | PreviewOpml nat nat nat | ConfirmOpml nat | StatusOpml nat

datatype opml_response =
    Created "(nat \<times> opml_status \<times> bool) \<times> api_meta"
  | Previewed "preview_item list \<times> paginated_meta" import_summary
  | Confirmed "(nat \<times> confirm_status) \<times> api_meta"
  | StatusIs "(import_summary \<times> nat \<times> nat) \<times> api_meta"

definition opml_handle ::
  "'q opml_request_env \<Rightarrow> string \<Rightarrow> request \<Rightarrow> opml_request \<Rightarrow> 'q opml_world \<Rightarrow> 'q opml_world \<times> (api_error + opml_response)" where
  "opml_handle E uuid request rq w =
     (let now = oe_now (or_jobs E) in
      case resolveTenantIdFromRequest request of
        Inl err \<Rightarrow> (w, Inl err)
      | Inr t \<Rightarrow>
          (case rq of
             UploadOpml None \<Rightarrow> (w, Inl (BadRequest ''opml_file_required''))
           | UploadOpml (Some u) \<Rightarrow>
               (case CreateOpmlImport_execute E (Some t) u w of
                  (w', Inl err) \<Rightarrow> (w', Inl err) | (w', Inr r) \<Rightarrow> (w', Inr (Created (successResponse now uuid request r))))
           | PreviewOpml i page psize \<Rightarrow>
               (case GetOpmlPreview_execute E i (Some t) page psize w of
                  (w', Inl err) \<Rightarrow> (w', Inl err)
                | (w', Inr (s, its, n)) \<Rightarrow> (w', Inr (Previewed (paginatedResponse now uuid request its page psize n) s)))
           | ConfirmOpml i \<Rightarrow>
               (case ConfirmOpmlImport_execute E i t w of
                  (w', Inl err) \<Rightarrow> (w', Inl err) | (w', Inr r) \<Rightarrow> (w', Inr (Confirmed (successResponse now uuid request r))))
           | StatusOpml i \<Rightarrow>
               (case GetOpmlImportStatus_execute E i t w of
                  (w', Inl err) \<Rightarrow> (w', Inl err) | (w', Inr r) \<Rightarrow> (w', Inr (StatusIs (successResponse now uuid request r))))))"

section \<open>The life of an import\<close>

text \<open>The abstract machine: an import appears as uploaded and then takes valid transitions.\<close>

inductive status_path :: "opml_status \<Rightarrow> opml_status \<Rightarrow> bool" where
  stay: "status_path s s"
| move: "status_path s t \<Longrightarrow> canTransitionOpmlImportStatus t u \<Longrightarrow> status_path s u"

definition status_follows :: "opml_status option \<Rightarrow> opml_status option \<Rightarrow> bool" where
  "status_follows old new =
     (case old of None \<Rightarrow> (case new of None \<Rightarrow> True | Some t \<Rightarrow> status_path Uploaded t)
      | Some s \<Rightarrow> (case new of None \<Rightarrow> False | Some t \<Rightarrow> status_path s t))"

datatype opml_op = OpRequest request opml_request | OpParse parse_job | OpApply apply_job

fun opml_step :: "'q opml_request_env \<times> opml_op \<Rightarrow> 'q opml_world \<Rightarrow> 'q opml_world" where
  "opml_step (E, OpRequest request rq) w = fst (opml_handle E '''' request rq w)"
| "opml_step (E, OpParse job) w = fst (ProcessOpmlParseJob_execute (or_jobs E) job w)"
| "opml_step (E, OpApply job) w = fst (ProcessOpmlApplyJob_execute (or_jobs E) job w)"

definition opml_run :: "('q opml_request_env \<times> opml_op) list \<Rightarrow> 'q opml_world \<Rightarrow> 'q opml_world" where
  "opml_run ops w = foldl (\<lambda>w op. opml_step op w) w ops"

lemma status_path_trans: "status_path s t \<Longrightarrow> status_path t u \<Longrightarrow> status_path s u"
  by (rotate_tac, induction rule: status_path.induct) (auto intro: status_path.intros)

lemma status_follows_refl [simp]: "status_follows s s"
  by (cases s) (auto simp: status_follows_def intro: stay)

lemma status_follows_trans: "status_follows a b \<Longrightarrow> status_follows b c \<Longrightarrow> status_follows a c"
  by (auto simp: status_follows_def intro: status_path_trans split: option.splits)

lemma valid_moves [simp]:
  "status_follows (Some Uploaded) (Some FailedValidation)" "status_follows (Some Parsing) (Some FailedValidation)"
  "status_follows (Some Uploaded) (Some PreviewReady)" "status_follows (Some Parsing) (Some PreviewReady)"
  "status_follows (Some PreviewReady) (Some Importing)" "status_follows (Some Importing) (Some Completed)"
  "status_follows (Some Importing) (Some ImportFailed)"
proof -
  have "status_path Uploaded PreviewReady"
    by (rule move [of _ Parsing, OF move [OF stay]]) (simp_all add: canTransitionOpmlImportStatus_def)
  then show "status_follows (Some Uploaded) (Some PreviewReady)" by (simp add: status_follows_def)
qed (auto simp: status_follows_def canTransitionOpmlImportStatus_def intro: move [OF stay])


text \<open>How each building block moves the status of an import.\<close>

lemma opml_and_then_cases:
  assumes "and_then r k = (w', y)"
  obtains m where "r = (w', Inl m)" "y = Inl m" | w x where "r = (w, Inr x)" "k w x = (w', y)"
  using assms by (cases r; cases "snd r") (auto simp: and_then_def)

lemma attempt_cases:
  assumes "attempt E c w rest = (w', y)"
  obtains m where "w' = w" "y = Inl m" | "rest = (w', y)"
  using assms by (auto simp: attempt_def split: option.splits)

lemma mark_import_status:
  assumes "mark_import E c i m w = (w', y)"
  shows "import_status j (ow_db w') = (if j = i \<and> isl y = False then Some (mk_status m) else import_status j (ow_db w))"
  using assms status_after_mark [of j "oe_now E" i m "ow_db w"]
  by (auto simp: mark_import_def attempt_def in_db_def mark_result import_status_def split: option.splits if_splits)

lemma replace_keeps_imports: "opml_imports (fst (replaceImportItems i xs db)) = opml_imports db"
proof -
  have "opml_imports (fst (insert_items t i ys db)) = opml_imports db" for t ys db
    by (induction ys arbitrary: db) (auto simp: insert_item_def Let_def split: prod.splits sum.splits)
  then show ?thesis by (simp add: replaceImportItems_def split: sum.split)
qed

lemma same_imports: "opml_imports db = opml_imports db' \<Longrightarrow> import_status j db = import_status j db'"
  by (simp add: import_status_def)

lemma in_db_imports: "in_db r w = (w', y) \<Longrightarrow> opml_imports (fst r) = opml_imports (ow_db w) \<Longrightarrow> opml_imports (ow_db w') = opml_imports (ow_db w)"
  by (auto simp: in_db_def split: prod.splits sum.splits)

lemma parse_transaction_status:
  assumes "parse_transaction E job tenant w = (w', Inr ())"
  shows "import_status j (ow_db w') = (if j = pj_import job then Some PreviewReady else import_status j (ow_db w))"
proof -
  note opml_and_then_cases [elim!] attempt_cases [elim!]
  from assms obtain w1 s1 parsed w1' where m1: "mark_import E MarkParsing (pj_import job) (status_only Parsing None) w = (w1, Inr s1)"
    and w1': "w1' = w1"
    and rest: "(case preview_items (oe_urls E) tenant (ow_feeds w1') parsed of
                Inl m \<Rightarrow> (w1', Inl m)
              | Inr xs \<Rightarrow>
                  and_then (attempt E ParseReplace w1' (in_db (replaceImportItems (pj_import job) xs (ow_db w1')) w1'))
                   (\<lambda>w2 _. and_then (mark_import E MarkReady (pj_import job)
                        ((status_only PreviewReady None)\<lparr>mk_counters := preview_counters xs\<rparr>) w2)
                     (\<lambda>w3 _. attempt E ParseCommit w3 (w3, Inr ())))) = (w', Inr ())"
    unfolding parse_transaction_def by (auto split: sum.splits if_splits)
  from rest obtain xs w2 w3 y3 where r: "in_db (replaceImportItems (pj_import job) xs (ow_db w1')) w1' = (w2, Inr ())"
    "mark_import E MarkReady (pj_import job) ((status_only PreviewReady None)\<lparr>mk_counters := preview_counters xs\<rparr>) w2 = (w3, Inr y3)"
    "w' = w3"
    by (auto split: sum.splits)
  have "opml_imports (ow_db w2) = opml_imports (ow_db w1')" by (rule in_db_imports [OF r(1) replace_keeps_imports])
  then have "import_status j (ow_db w2) = import_status j (ow_db w1)" unfolding w1' by (rule same_imports)
  with mark_import_status [OF r(2), of j] mark_import_status [OF m1, of j] show ?thesis
    by (simp add: r(3) status_only_def)
qed

lemma rolled_back_status [simp]: "import_status j (ow_db (rolled_back w w')) = import_status j (ow_db w)"
  by (simp add: rolled_back_def import_status_def)

lemma found_status:
  "getImportOrThrowForWorker i db = Inr s \<Longrightarrow> import_status i db = Some (im_status s)"
  "getImportOrThrow i (Some t) db = Inr s \<Longrightarrow> distinct (map im_id (opml_imports db)) \<Longrightarrow> import_status i db = Some (im_status s)"
proof -
  show "getImportOrThrowForWorker i db = Inr s \<Longrightarrow> import_status i db = Some (im_status s)"
    by (auto simp: getImportOrThrowForWorker_def findImportByIdForWorker_def or_not_found_def import_status_def split: option.splits)
  assume "getImportOrThrow i (Some t) db = Inr s" and ids: "distinct (map im_id (opml_imports db))"
  then obtain r where r: "find (\<lambda>r. im_id r = i \<and> im_tenant r = t) (opml_imports db) = Some r" "s = mapImport r"
    by (auto simp: getImportOrThrow_def findImportById_def findImportByIdForTenant_def or_not_found_def split: option.splits)
  then have "r \<in> set (opml_imports db)" "im_id r = i" using find_SomeD [OF r(1)] by auto
  with row_by_distinct [OF ids] show "import_status i db = Some (im_status s)" by (auto simp: import_status_def r(2))
qed

lemma parse_job_follows:
  "status_follows (import_status j (ow_db w)) (import_status j (ow_db (fst (ProcessOpmlParseJob_execute E job w))))"
proof -
  obtain w' y where run: "ProcessOpmlParseJob_execute E job w = (w', y)" by (metis surj_pair)
  note opml_and_then_cases [elim!] attempt_cases [elim!]
  have "w' = w \<or> (\<exists>s. import_status (pj_import job) (ow_db w) = Some s \<and> s \<in> {Uploaded, Parsing}
      \<and> (import_status j (ow_db w') = import_status j (ow_db w)
        \<or> j = pj_import job \<and> import_status j (ow_db w') \<in> {Some PreviewReady, Some FailedValidation}))"
    (is "_ \<or> ?moved")
  proof (cases "getImportOrThrowForWorker (pj_import job) (ow_db w)")
    case (Inl e)
    then show ?thesis using run unfolding ProcessOpmlParseJob_execute_def by (auto simp: in_db_def)
  next
    case (Inr current)
    note st = found_status(1) [OF Inr]
    show ?thesis
    proof (cases "im_status current \<in> {Uploaded, Parsing} \<and> w' \<noteq> w")
      case False
      then show ?thesis using run Inr unfolding ProcessOpmlParseJob_execute_def by (auto simp: in_db_def split: sum.splits if_splits)
    next
      case True
      then have "w' \<noteq> w" by simp
      with run Inr True obtain tenant where
        "attempt E ParseConnect w
           (case parse_transaction E job tenant w of
              (w', Inr _) \<Rightarrow> (w', Inr ())
            | (w', Inl m) \<Rightarrow> attempt E ParseRollback (rolled_back w w')
                (and_then (mark_import E ParseMarkFailed (pj_import job) (status_only FailedValidation (Some m)) (rolled_back w w'))
                  (\<lambda>w'' _. (w'', Inr ())))) = (w', y)"
        unfolding ProcessOpmlParseJob_execute_def by (auto simp: in_db_def split: sum.splits if_splits)
      then show ?thesis using True st
        by (auto split: prod.splits sum.splits dest: parse_transaction_status [where j = j] mark_import_status [where j = j]
            simp: status_only_def split: if_splits)
    qed
  qed
  then show ?thesis unfolding run fst_conv by (elim disjE exE conjE) auto
qed


lemma apply_items_imports: "apply_items E tenant xs t w = (w', y) \<Longrightarrow> opml_imports (ow_db w') = opml_imports (ow_db w)"
proof (induction xs arbitrary: t w)
  case (Cons x xs)
  have one: "apply_item E tenant x w = (w1, z) \<Longrightarrow> opml_imports (ow_db w1) = opml_imports (ow_db w)" for w1 z
    by (auto simp: apply_item_def Let_def mark_item_failed_def attempt_def
        split: if_splits option.splits prod.splits sum.splits upsert_error.splits)
  from Cons show ?case by (auto split: prod.splits sum.splits dest!: one)
qed simp

lemma apply_transaction_status:
  assumes "apply_transaction E job tenant w = (w', Inr fresh)"
  shows "if j = aj_import job then import_status j (ow_db w') \<in> {Some Completed, Some ImportFailed}
         else import_status j (ow_db w') = import_status j (ow_db w)"
proof -
  note opml_and_then_cases [elim!] attempt_cases [elim!]
  from assms obtain w1 t s1 where a: "apply_items E tenant (listNewCandidateItems (aj_import job) (ow_db w))
      \<lparr>ta_imported = 0, ta_failed = 0, ta_created = []\<rparr> w = (w1, Inr t)"
    and m: "mark_import E MarkDone (aj_import job) (apply_mark t (aj_import job) (ow_db w1)) w1 = (w', Inr s1)"
    unfolding apply_transaction_def by auto
  have "import_status j (ow_db w1) = import_status j (ow_db w)" by (rule same_imports [OF apply_items_imports [OF a]])
  with mark_import_status [OF m, of j] show ?thesis
    by (cases "j = aj_import job"; cases "0 < ta_failed t") (simp_all add: apply_mark_def Let_def)
qed

lemma enqueue_created_db: "enqueue_created E fs w = (w', y) \<Longrightarrow> ow_db w' = ow_db w"
  by (induction fs arbitrary: w) (auto simp: attempt_def split: option.splits prod.splits)

text \<open>The last case is the catch of an error after the commit.\<close>

lemma apply_in_transaction_status:
  assumes "apply_in_transaction E job tenant w = (w', y)"
  shows "(j \<noteq> aj_import job \<longrightarrow> import_status j (ow_db w') = import_status j (ow_db w))
    \<and> import_status (aj_import job) (ow_db w') \<in> {import_status (aj_import job) (ow_db w), Some Completed, Some ImportFailed}"
proof -
  note attempt_cases [elim!] opml_and_then_cases [elim!]
  have failed: "fail_apply E job m v = (w', y) \<Longrightarrow>
      (j \<noteq> aj_import job \<longrightarrow> import_status j (ow_db w') = import_status j (ow_db v))
      \<and> import_status (aj_import job) (ow_db w') \<in> {import_status (aj_import job) (ow_db v), Some ImportFailed}" for m v
    unfolding fail_apply_def
    by (auto dest: mark_import_status [where j = j] mark_import_status [where j = "aj_import job"] simp: status_only_def
        split: if_splits)
  from assms consider "w' = w" | v m where "fail_apply E job m (rolled_back w v) = (w', y)"
    | v fresh v' z where "apply_transaction E job tenant w = (v, Inr fresh)" "enqueue_created E fresh v = (v', z)"
        "w' = v' \<or> (\<exists>m. fail_apply E job m v' = (w', y))"
    unfolding apply_in_transaction_def by (elim attempt_cases) (force split: prod.splits sum.splits)+
  then show ?thesis
  proof cases
    case 3
    note st = apply_transaction_status [OF 3(1), of j] apply_transaction_status [OF 3(1), of "aj_import job"]
    have "ow_db v' = ow_db v" by (rule enqueue_created_db [OF 3(2)])
    note db = this
    from 3(3) show ?thesis
    proof (elim disjE exE)
      assume "w' = v'"
      with st db show ?thesis by (auto split: if_splits)
    next
      fix m assume "fail_apply E job m v' = (w', y)"
      from failed [OF this] st db show ?thesis by (auto split: if_splits)
    qed
  qed (use failed in auto)
qed

lemma apply_job_follows:
  "status_follows (import_status j (ow_db w)) (import_status j (ow_db (fst (ProcessOpmlApplyJob_execute E job w))))"
proof -
  obtain w' y where run: "ProcessOpmlApplyJob_execute E job w = (w', y)" by (metis surj_pair)
  note opml_and_then_cases [elim!] attempt_cases [elim!]
  have tx: "status_follows (import_status j (ow_db v)) (import_status j (ow_db v'))"
    if "apply_in_transaction E job t v = (v', z)" "import_status (aj_import job) (ow_db v) = Some Importing" for t v v' z
    using apply_in_transaction_status [OF that(1), of j] that(2) by (cases "j = aj_import job") auto
  show ?thesis
  proof (cases "getImportOrThrowForWorker (aj_import job) (ow_db w)")
    case (Inl e)
    then have "w' = w" using run unfolding ProcessOpmlApplyJob_execute_def by (auto simp: in_db_def)
    then show ?thesis unfolding run by simp
  next
    case (Inr current)
    note st = found_status(1) [OF Inr]
    from run Inr consider "w' = w" | t where "im_status current = Importing" "apply_in_transaction E job t w = (w', y)"
      | t w1 s1 where "assertValidOpmlImportStatusTransition (im_status current) Importing = Inr ()"
          "im_status current \<noteq> Completed" "im_status current \<noteq> Importing"
          "mark_import E MarkImporting (aj_import job) ((status_only Importing None)\<lparr>mk_confirmed := True\<rparr>) w = (w1, Inr s1)"
          "apply_in_transaction E job t w1 = (w', y)"
      | w1 m where "mark_import E MarkImporting (aj_import job) ((status_only Importing None)\<lparr>mk_confirmed := True\<rparr>) w = (w1, Inl m)" "w' = w1"
      unfolding ProcessOpmlApplyJob_execute_def by (auto simp: in_db_def split: sum.splits if_splits)
    then show ?thesis
    proof cases
      case 2
      then show ?thesis using tx [OF 2(2)] st unfolding run by simp
    next
      case 3
      have "im_status current = PreviewReady"
        using 3(1-3) by (cases "im_status current") (auto simp: assertValidOpmlImportStatusTransition_def canTransitionOpmlImportStatus_def split: if_splits)
      with st mark_import_status [OF 3(4)] have m: "import_status (aj_import job) (ow_db w1) = Some Importing"
        "status_follows (import_status j (ow_db w)) (import_status j (ow_db w1))" by (auto simp: status_only_def)
      from status_follows_trans [OF m(2) tx [OF 3(5) m(1)]] show ?thesis unfolding run by simp
    next
      case 4
      then show ?thesis using mark_import_status [OF 4(1), of j] unfolding run by simp
    qed (simp add: run)
  qed
qed


text \<open>The identifiers of the imports: only a new upload adds one.\<close>

definition import_keys :: "opml_db \<Rightarrow> nat list \<times> nat" where
  "import_keys db = (map im_id (opml_imports db), next_import db)"

definition imports_keyed :: "opml_db \<Rightarrow> bool" where
  "imports_keyed db \<longleftrightarrow> distinct (fst (import_keys db)) \<and> (\<forall>i \<in> set (fst (import_keys db)). i < snd (import_keys db))"

lemma mark_status_keys: "import_keys (fst (markImportStatus now i m db)) = import_keys db"
  by (simp add: mark_result import_keys_def mark.keys_kept split: option.split)

lemma mark_import_keys: "mark_import E c i m w = (w', y) \<Longrightarrow> import_keys (ow_db w') = import_keys (ow_db w)"
  using mark_status_keys [of "oe_now E" i m "ow_db w"]
  by (auto simp: mark_import_def in_db_def elim!: attempt_cases split: prod.splits sum.splits)

lemma insert_items_keys: "import_keys (fst (insert_items t i ys db)) = import_keys db"
  by (induction ys arbitrary: db) (auto simp: insert_item_def import_keys_def Let_def split: prod.splits sum.splits)

lemma replace_keys: "import_keys (fst (replaceImportItems i xs db)) = import_keys db"
  using insert_items_keys [of _ i xs "db\<lparr>opml_items := filter (\<lambda>r. it_import r \<noteq> i) (opml_items db)\<rparr>"]
  by (simp add: replaceImportItems_def import_keys_def split: sum.split)

lemma in_db_keys: "in_db r w = (w', y) \<Longrightarrow> import_keys (ow_db w') = import_keys (fst r)"
  by (auto simp: in_db_def split: prod.splits sum.splits)

lemma rolled_back_keys [simp]: "import_keys (ow_db (rolled_back w w')) = import_keys (ow_db w)"
  by (simp add: rolled_back_def import_keys_def)

lemma parse_transaction_keys:
  "parse_transaction E job tenant w = (w', y) \<Longrightarrow> import_keys (ow_db w') = import_keys (ow_db w)"
  unfolding parse_transaction_def
  by (auto elim!: attempt_cases opml_and_then_cases dest!: mark_import_keys in_db_keys simp: replace_keys
      split: sum.splits if_splits)

lemma parse_job_keys: "import_keys (ow_db (fst (ProcessOpmlParseJob_execute E job w))) = import_keys (ow_db w)"
proof -
  obtain w' y where run: "ProcessOpmlParseJob_execute E job w = (w', y)" by (metis surj_pair)
  then have "import_keys (ow_db w') = import_keys (ow_db w)"
    unfolding ProcessOpmlParseJob_execute_def
    by (auto elim!: attempt_cases opml_and_then_cases dest!: mark_import_keys in_db_keys parse_transaction_keys
        split: sum.splits if_splits prod.splits)
  then show ?thesis unfolding run by simp
qed

lemma apply_items_keys: "apply_items E tenant xs t w = (w', y) \<Longrightarrow> import_keys (ow_db w') = import_keys (ow_db w)"
proof (induction xs arbitrary: t w)
  case (Cons x xs)
  have one: "apply_item E tenant x w = (w1, z) \<Longrightarrow> import_keys (ow_db w1) = import_keys (ow_db w)" for w1 z
    by (auto simp: apply_item_def Let_def mark_item_failed_def attempt_def import_keys_def markItemFailed_def markItemImported_def
        split: if_splits option.splits prod.splits sum.splits upsert_error.splits)
  from Cons show ?case by (auto split: prod.splits sum.splits dest!: one)
qed simp

lemma apply_transaction_keys: "apply_transaction E job tenant w = (w', y) \<Longrightarrow> import_keys (ow_db w') = import_keys (ow_db w)"
  unfolding apply_transaction_def by (auto elim!: attempt_cases opml_and_then_cases dest!: mark_import_keys apply_items_keys)

lemma fail_apply_keys: "fail_apply E job m w = (w', y) \<Longrightarrow> import_keys (ow_db w') = import_keys (ow_db w)"
  unfolding fail_apply_def by (auto elim!: attempt_cases opml_and_then_cases dest!: mark_import_keys)

lemma apply_in_transaction_keys:
  "apply_in_transaction E job tenant w = (w', y) \<Longrightarrow> import_keys (ow_db w') = import_keys (ow_db w)"
  unfolding apply_in_transaction_def
  by (auto elim!: attempt_cases dest!: fail_apply_keys apply_transaction_keys enqueue_created_db split: prod.splits sum.splits)

lemma apply_job_keys: "import_keys (ow_db (fst (ProcessOpmlApplyJob_execute E job w))) = import_keys (ow_db w)"
proof -
  obtain w' y where run: "ProcessOpmlApplyJob_execute E job w = (w', y)" by (metis surj_pair)
  then have "import_keys (ow_db w') = import_keys (ow_db w)"
    unfolding ProcessOpmlApplyJob_execute_def
    by (auto elim!: attempt_cases opml_and_then_cases dest!: mark_import_keys in_db_keys apply_in_transaction_keys
        split: sum.splits if_splits)
  then show ?thesis unfolding run by simp
qed

text \<open>The requests.\<close>

lemma request_call_cases:
  assumes "request_call E c w rest = (w', y)"
  obtains m where "w' = w" "y = Inl (Unexpected m)" | "rest = (w', y)"
  using assms by (auto simp: request_call_def split: option.splits)

lemma create_world:
  assumes "CreateOpmlImport_execute E t u w = (w', y)"
  shows "w' = w \<or> (\<exists>tenant n c. ow_db w' = fst (createImport (oe_now (or_jobs E)) tenant (up_name u) n c (ow_db w)))"
  using assms unfolding CreateOpmlImport_execute_def
  by (auto elim!: request_call_cases split: sum.splits prod.splits simp: Let_def) (metis fst_conv)+

lemma confirm_world:
  assumes "ConfirmOpmlImport_execute E i t w = (w', y)"
  shows "w' = w \<or> (\<exists>s. getImportOrThrow i (Some t) (ow_db w) = Inr s \<and> im_status s = PreviewReady
    \<and> ow_db w' = fst (markImportStatus (oe_now (or_jobs E)) i confirm_mark (ow_db w)))"
proof (cases "getImportOrThrow i (Some t) (ow_db w)")
  case (Inl e)
  with assms show ?thesis unfolding ConfirmOpmlImport_execute_def by (auto elim!: request_call_cases)
next
  case (Inr s)
  obtain db r where m: "markImportStatus (oe_now (or_jobs E)) i confirm_mark (ow_db w) = (db, r)" by fastforce
  show ?thesis
  proof (cases "im_status s = PreviewReady")
    case True
    with assms Inr m show ?thesis unfolding ConfirmOpmlImport_execute_def
      by (cases r) (auto elim!: request_call_cases simp: Let_def)
  next
    case False
    with assms Inr show ?thesis unfolding ConfirmOpmlImport_execute_def
      by (auto elim!: request_call_cases split: if_splits)
  qed
qed

lemma read_only_world:
  "GetOpmlImportStatus_execute E i t w = (w', y) \<Longrightarrow> w' = w" "GetOpmlPreview_execute E i t' p n w = (w', z) \<Longrightarrow> w' = w"
  unfolding GetOpmlImportStatus_execute_def GetOpmlPreview_execute_def
  by (auto elim!: request_call_cases split: sum.splits)

text \<open>What a request can do to the tables.\<close>

lemma handle_world:
  assumes "opml_handle E uuid request rq w = (w', y)"
  shows "w' = w
    \<or> (\<exists>tenant fn n c. ow_db w' = fst (createImport (oe_now (or_jobs E)) tenant fn n c (ow_db w)))
    \<or> (\<exists>i t s. getImportOrThrow i (Some t) (ow_db w) = Inr s \<and> im_status s = PreviewReady
        \<and> ow_db w' = fst (markImportStatus (oe_now (or_jobs E)) i confirm_mark (ow_db w)))"
proof (cases "resolveTenantIdFromRequest request")
  case (Inl e)
  with assms show ?thesis by (simp add: opml_handle_def Let_def)
next
  case (Inr t)
  show ?thesis
  proof (cases rq)
    case (UploadOpml u)
    with assms Inr show ?thesis
      by (auto simp: opml_handle_def Let_def split: option.splits prod.splits sum.splits dest!: create_world)
  next
    case (PreviewOpml i p n)
    with assms Inr have "w' = w" by (auto simp: opml_handle_def Let_def split: prod.splits sum.splits dest!: read_only_world)
    then show ?thesis by simp
  next
    case (ConfirmOpml i)
    with assms Inr obtain z where "ConfirmOpmlImport_execute E i t w = (w', z)"
      by (auto simp: opml_handle_def Let_def split: prod.splits sum.splits)
    from confirm_world [OF this] show ?thesis by blast
  next
    case (StatusOpml i)
    with assms Inr have "w' = w" by (auto simp: opml_handle_def Let_def split: prod.splits sum.splits dest!: read_only_world)
    then show ?thesis by simp
  qed
qed

lemma create_follows:
  assumes "imports_keyed db"
  shows "status_follows (import_status j db) (import_status j (fst (createImport now t fn n c db)))"
    and "imports_keyed (fst (createImport now t fn n c db))"
proof -
  have "import_status j (fst (createImport now t fn n c db)) =
      (case import_status j db of None \<Rightarrow> if j = next_import db then Some Uploaded else None | Some s \<Rightarrow> Some s)"
    by (auto simp: createImport_def Let_def import_status_def row_by_append row_simps new_import_def split: option.splits)
  then show "status_follows (import_status j db) (import_status j (fst (createImport now t fn n c db)))"
    by (auto simp: status_follows_def intro: stay split: option.splits)
  show "imports_keyed (fst (createImport now t fn n c db))"
    using assms by (auto simp: imports_keyed_def import_keys_def createImport_def Let_def new_import_def)
qed

lemma opml_step_follows:
  assumes "imports_keyed (ow_db w)"
  shows "status_follows (import_status j (ow_db w)) (import_status j (ow_db (opml_step op w)))
    \<and> imports_keyed (ow_db (opml_step op w))"
proof -
  obtain E o' where op: "op = (E, o')" by fastforce
  show ?thesis
  proof (cases o')
    case (OpRequest request rq)
    obtain w' y where h: "opml_handle E '''' request rq w = (w', y)" by fastforce
    have step: "opml_step op w = w'" by (simp add: op OpRequest h)
    from handle_world [OF h] show ?thesis
    proof (elim disjE exE conjE)
      assume "w' = w"
      with assms show ?thesis unfolding step by simp
    next
      fix tenant fn n c assume "ow_db w' = fst (createImport (oe_now (or_jobs E)) tenant fn n c (ow_db w))"
      with create_follows [OF assms] show ?thesis unfolding step by simp
    next
      fix i t s assume s: "getImportOrThrow i (Some t) (ow_db w) = Inr s" "im_status s = PreviewReady"
        and m: "ow_db w' = fst (markImportStatus (oe_now (or_jobs E)) i confirm_mark (ow_db w))"
      have "distinct (map im_id (opml_imports (ow_db w)))" using assms by (simp add: imports_keyed_def import_keys_def)
      from found_status(2) [OF s(1) this] s(2) have "import_status i (ow_db w) = Some PreviewReady" by simp
      then show ?thesis unfolding step
        using assms mark_status_keys [of "oe_now (or_jobs E)" i confirm_mark "ow_db w"]
        by (auto simp: m status_after_mark confirm_mark_def status_only_def imports_keyed_def)
    qed
  next
    case (OpParse job)
    then show ?thesis using assms parse_job_follows [of j w "or_jobs E" job] parse_job_keys [of "or_jobs E" job w]
      by (simp add: op imports_keyed_def)
  next
    case (OpApply job)
    then show ?thesis using assms apply_job_follows [of j w "or_jobs E" job] apply_job_keys [of "or_jobs E" job w]
      by (simp add: op imports_keyed_def)
  qed
qed



definition request_env :: "(opml_call \<Rightarrow> string option) \<Rightarrow> (string list) opml_request_env" where
  "request_env calls = \<lparr>or_jobs = opml_env\<lparr>oe_calls := calls\<rparr>, or_parse = \<lparr>getJob = (\<lambda>i q. i \<in> set q), addJob = (\<lambda>i j q. i # q)\<rparr>,
     or_apply = \<lparr>getJob = (\<lambda>i q. i \<in> set q), addJob = (\<lambda>i j q. i # q)\<rparr>, or_sha256 = (\<lambda>u. u), or_utf8 = (\<lambda>u. u)\<rparr>"


section \<open>Imports nothing moves any more\<close>

definition fails_at :: "opml_call \<Rightarrow> opml_call \<Rightarrow> string option" where
  "fails_at c c' = (if c' = c then Some ''down'' else None)"

text \<open>
  A confirmation whose enqueue fails has marked the import already: the next one answers that the import is confirmed
  and enqueues nothing.
\<close>

lemma failed_confirmation_strands:
  "ConfirmOpmlImport_execute (request_env (fails_at ConfirmEnqueue)) 1 ''acme'' (opml_world PreviewReady []) = (w1, y) \<Longrightarrow>
     y = Inl (Unexpected ''down'') \<and> import_status 1 (ow_db w1) = Some Importing \<and> ow_queue w1 = []
     \<and> ConfirmOpmlImport_execute (request_env (\<lambda>_. None)) 1 ''acme'' w1 = (w1, Inr (1, AlreadyConfirmed))"
  by (auto simp: ConfirmOpmlImport_execute_def request_call_def request_env_def fails_at_def opml_world_def new_import_def
      getImportOrThrow_def findImportById_def findImportByIdForTenant_def or_not_found_def mark_result row_simps marked_row_def
      confirm_mark_def status_only_def no_counters_def opt_else_def Let_def import_status_def)

text \<open>An upload whose enqueue fails leaves an import no job will ever parse.\<close>

lemma failed_upload_strands:
  "CreateOpmlImport_execute (request_env (fails_at CreateEnqueue)) None \<lparr>up_name = ''a.opml'', up_mime = '''', up_content = ''x''\<rparr>
     (opml_world Completed []) = (w1, y) \<Longrightarrow>
     y = Inl (Unexpected ''down'') \<and> import_status 2 (ow_db w1) = Some Uploaded \<and> ow_queue w1 = []"
  by (auto simp: CreateOpmlImport_execute_def validateUpload_def request_call_def request_env_def fails_at_def opml_world_def
      new_import_def createImport_def Let_def opml_env_def js_lower_def js_lower_char_def suffix_to_prefix import_status_def row_simps)

text \<open>
  An error while the new feeds are queued comes after the commit: the import, whose items are all imported, is marked
  failed, although its status was \<open>completed\<close>.
\<close>

lemma failed_enqueue_fails_completed_import:
  "ProcessOpmlApplyJob_execute (opml_env\<lparr>oe_calls := fails_at (EnqueueCreated 1)\<rparr>) \<lparr>aj_import = 1, aj_requested_at = 5\<rparr>
     (opml_world Importing [new_row]) = (w1, y) \<Longrightarrow>
     import_status 1 (ow_db w1) = Some ImportFailed \<and> map pv_status (opml_items (ow_db w1)) = [ItemImported]
     \<and> map fd_id (feeds (ow_feeds w1)) = [1] \<and> ow_queue w1 = []"
proof -
  let ?E = "opml_env\<lparr>oe_calls := fails_at (EnqueueCreated 1)\<rparr>" and ?job = "\<lparr>aj_import = 1, aj_requested_at = 5\<rparr>"
  have "case ProcessOpmlApplyJob_execute ?E ?job (opml_world Importing [new_row]) of (w1, y) \<Rightarrow>
     import_status 1 (ow_db w1) = Some ImportFailed \<and> map pv_status (opml_items (ow_db w1)) = [ItemImported]
     \<and> map fd_id (feeds (ow_feeds w1)) = [1] \<and> ow_queue w1 = []" by code_simp
  then show "ProcessOpmlApplyJob_execute ?E ?job (opml_world Importing [new_row]) = (w1, y) \<Longrightarrow> ?thesis" by simp
qed

text \<open>One failing statement for one item undoes the others: its \<open>catch\<close> runs in an aborted transaction.\<close>

lemma one_item_fails_all:
  "case ProcessOpmlApplyJob_execute (opml_env\<lparr>oe_calls := fails_at (UpsertInsert 2)\<rparr>) \<lparr>aj_import = 1, aj_requested_at = 5\<rparr>
     (opml_world Importing [new_row, new_row\<lparr>pv_id := 2, pv_url := Some ''http://m.example/'', it_hash := Some ''#m''\<rparr>]) of
     (w1, y) \<Rightarrow> map im_error (opml_imports (ow_db w1)) = [Some TX_ABORTED]
       \<and> map pv_status (opml_items (ow_db w1)) = [ItemNew, ItemNew] \<and> feeds (ow_feeds w1) = []"
  by code_simp

end
