(* ===== verification/Telegram_Digest.thy ===== *)
theory Telegram_Digest imports Alert_Delivery begin

text \<open>
  The digest sweep: \<open>src/modules/alerts/application/process-telegram-digests.use-case.ts\<close>, over the
  alert store, the settings, the token resolver and the notifier port. \<open>label\<close> is the date format of
  the engine (\<open>toLocaleString\<close>).
  Theorems: no digest item is marked sent without a successful send to its chat; an item that was not
  due is not touched; groups that fail keep their place in the next sweep.
\<close>

section \<open>The sweep\<close>

record 'w sweep =
  s_db :: alert_db
  s_resolver :: resolver_state
  s_world :: 'w

record 'w sweep_env =
  g_notifier :: "'w notifier"
  g_crypto :: crypto
  g_master_key :: "string option"
  g_global_token :: "string option"
  g_settings :: "settings_row list"
  g_label :: "msec \<Rightarrow> nat list"
  g_now :: msec

record sweep_result =
  processedGroups :: nat
  sentItems :: nat
  alertsMarkedDelivered :: nat

definition payload_of :: "'w sweep_env \<Rightarrow> string option \<Rightarrow> digest_group \<Rightarrow> digest_payload" where
  "payload_of E token g =
     \<lparr>dp_tenant = dg_tenant g, dp_chat = dg_chat g,
      dp_window = cps ''Ventana hasta '' @ g_label E (dg_scheduled_for g) @ cps '' UTC'', dp_token = token,
      dp_items = map (\<lambda>i. \<lparr>dl_title = de_title i, dl_snippet = de_snippet i, dl_link = de_link i\<rparr>) (dg_items g)\<rparr>"

definition flush_group :: "'w sweep_env \<Rightarrow> digest_group \<Rightarrow> 'w sweep \<times> sweep_result \<Rightarrow> 'w sweep \<times> sweep_result" where
  "flush_group E g = (\<lambda>(s, res).
     if dg_items g = [] then (s, res)
     else (case resolveForTenant (g_crypto E) (g_master_key E) (g_global_token E) True (dg_tenant g)
                  (getByTenantId (dg_tenant g) (g_settings E)) (s_resolver s) of
             (rst, token) \<Rightarrow>
               (let s1 = s\<lparr>s_resolver := rst\<rparr> in
                if \<not> isTelegramEnabled (g_notifier E) token then (s1, res)
                else (case sendTelegramDigest (g_notifier E) (payload_of E token g) (s_world s1) of
                        (w, Inl err) \<Rightarrow> (s1\<lparr>s_world := w\<rparr>, res)
                      | (w, Inr _) \<Rightarrow>
                          (case markTelegramDigestGroupSent (g_now E) (map (\<lambda>i. (de_item i, de_alert i)) (dg_items g))
                                  (s_db s1) of
                             (db, ids) \<Rightarrow>
                               (s1\<lparr>s_world := w, s_db := db\<rparr>,
                                \<lparr>processedGroups = processedGroups res + 1,
                                 sentItems = sentItems res + length (dg_items g),
                                 alertsMarkedDelivered = alertsMarkedDelivered res + length ids\<rparr>))))))"

fun flush_groups :: "'w sweep_env \<Rightarrow> digest_group list \<Rightarrow> 'w sweep \<times> sweep_result \<Rightarrow> 'w sweep \<times> sweep_result" where
  "flush_groups E [] sr = sr"
| "flush_groups E (g # gs) sr = flush_groups E gs (flush_group E g sr)"

definition ProcessTelegramDigests_execute :: "'w sweep_env \<Rightarrow> nat option \<Rightarrow> 'w sweep \<Rightarrow> 'w sweep \<times> sweep_result" where
  "ProcessTelegramDigests_execute E maxGroups s =
     (if \<not> isEnabled (g_notifier E) then (s, \<lparr>processedGroups = 0, sentItems = 0, alertsMarkedDelivered = 0\<rparr>)
      else (case reconcileTelegramDigestDeliveryStatus (g_now E) (s_db s) of
              (db, ids) \<Rightarrow>
                flush_groups E (listDueTelegramDigestGroups (g_now E) (opt_else maxGroups 30) db)
                  (s\<lparr>s_db := db\<rparr>, \<lparr>processedGroups = 0, sentItems = 0, alertsMarkedDelivered = length ids\<rparr>)))"

section \<open>Marks are earned\<close>

definition item_core :: "digest_item \<Rightarrow> nat \<times> string \<times> string \<times> nat \<times> msec" where
  "item_core d = (item_id d, item_tenant d, item_chat d, item_alert d, scheduled_for d)"

lemma item_sent_core [simp]: "item_core (item_sent_row now d) = item_core d"
  by (simp add: item_core_def item_sent_row_def)

lemma mark_item_cores: "map item_core (digest_items (mark_item now i db)) = map item_core (digest_items db)"
  by (simp add: mark_item_def sql_update_def)

lemma mark_items_cores:
  "map item_core (digest_items (foldl (\<lambda>d item. mark_item now (fst item) d) db items)) = map item_core (digest_items db)"
  by (induction items arbitrary: db) (simp_all add: mark_item_cores)

lemma mark_items_origin:
  assumes "d \<in> set (digest_items (foldl (\<lambda>d item. mark_item now (fst item) d) db items))"
  shows "d \<in> set (digest_items db) \<or>
    item_id d \<in> fst ` set items \<and> (\<exists>c \<in> set (digest_items db). item_core c = item_core d \<and> item_sent_at c = None)"
  using assms
proof (induction items arbitrary: db)
  case (Cons item items)
  then consider "d \<in> set (digest_items (mark_item now (fst item) db))"
    | c where "item_id d \<in> fst ` set items" "c \<in> set (digest_items (mark_item now (fst item) db))"
        "item_core c = item_core d" "item_sent_at c = None"
    using Cons.IH [of "mark_item now (fst item) db"] by fastforce
  note two = this
  have step: "c \<in> set (digest_items db) \<or> item_id c = fst item
      \<and> (\<exists>b \<in> set (digest_items db). item_core b = item_core c \<and> item_sent_at b = None) \<and> item_sent_at c \<noteq> None"
    if c: "c \<in> set (digest_items (mark_item now (fst item) db))" for c
  proof -
    from c obtain b where b: "b \<in> set (digest_items db)" "c = (if item_id b = fst item then item_sent_row now b else b)"
      by (auto simp: mark_item_def in_sql_update)
    show ?thesis
    proof (cases "item_id b = fst item \<and> item_sent_at b = None")
      case True
      with b have "c = item_sent_row now b" "item_core c = item_core b" by simp_all
      with True b(1) show ?thesis by (auto simp: item_sent_row_def)
    next
      case False
      with b have "c = b" by (auto simp: item_sent_row_def)
      with b(1) show ?thesis by simp
    qed
  qed
  from two show ?case
  proof cases
    case 1
    from step [OF this] show ?thesis by auto
  next
    case 2
    from step [OF 2(2)] 2 show ?thesis by auto
  qed
qed simp

lemma group_sent_items:
  "digest_items (fst (markTelegramDigestGroupSent now items db))
   = digest_items (foldl (\<lambda>d item. mark_item now (fst item) d) db items)"
  using converge_alerts_keeps by (auto simp: markTelegramDigestGroupSent_def)

text \<open>\<open>origin db l d\<close>: the item \<open>d\<close> is as it was in \<open>db\<close>, or its chat was sent a digest.\<close>

definition earned :: "digest_item list \<Rightarrow> sent_event list \<Rightarrow> digest_item \<Rightarrow> bool" where
  "earned before log d \<longleftrightarrow>
     d \<in> set before \<or> (SentDigest (item_chat d) \<in> set log
        \<and> (\<exists>c \<in> set before. item_core c = item_core d \<and> item_sent_at c = None))"

definition sweep_inv :: "digest_item list \<Rightarrow> ('w \<times> sent_event list) sweep \<Rightarrow> bool" where
  "sweep_inv before s \<longleftrightarrow>
     map item_core (digest_items (s_db s)) = map item_core before
     \<and> (\<forall>d \<in> set (digest_items (s_db s)). earned before (snd (s_world s)) d)"

text \<open>The items of a listed group are items of the table, of that chat.\<close>

definition group_of_table :: "digest_item list \<Rightarrow> digest_group \<Rightarrow> bool" where
  "group_of_table items g \<longleftrightarrow>
     (\<forall>i \<in> set (dg_items g). \<exists>d \<in> set items. item_id d = de_item i \<and> item_chat d = dg_chat g)"

lemma load_groups_of_table: "g \<in> set (load_groups now gs db) \<Longrightarrow> group_of_table (digest_items db) g"
proof (induction gs)
  case (Cons h gs)
  show ?case
  proof (cases "group_rows now h db")
    case Nil
    with Cons show ?thesis by simp
  next
    case (Cons r rows)
    obtain d a e where r: "r = (d, a, e)" by (cases r) auto
    have rows: "\<forall>(d, a, e) \<in> set (group_rows now h db). d \<in> set (digest_items db) \<and> item_group d = h"
      by (auto simp: group_rows_def)
    have "group_of_table (digest_items db) \<lparr>dg_tenant = fst h, dg_chat = snd h, dg_scheduled_for = scheduled_for d,
        dg_items = map digest_entry_of ((d, a, e) # rows)\<rparr>"
      using rows unfolding Cons r group_of_table_def by (fastforce simp: digest_entry_of_def item_group_def)
    with Cons.prems Cons.IH Cons r show ?thesis by auto
  qed
qed simp

lemma core_items: "map item_core xs = map item_core ys \<Longrightarrow> d \<in> set xs \<Longrightarrow> \<exists>c \<in> set ys. item_core c = item_core d"
  by (metis (no_types, lifting) image_iff list.set_map)

lemma unique_core:
  assumes "distinct (map item_id items)" and "c \<in> set items" and "d \<in> set items" and "item_id c = item_id d"
  shows "c = d"
  using assms row_by_distinct [of item_id items] by (metis option.inject)

lemma flush_group_inv:
  assumes N: "g_notifier E = recorded N" and inv: "sweep_inv before s" and ids: "distinct (map item_id before)"
    and g: "group_of_table before g"
  shows "sweep_inv before (fst (flush_group E g (s, res)))"
proof -
  obtain w l where w: "s_world s = (w, l)" by (cases "s_world s")
  obtain rst token where tok: "resolveForTenant (g_crypto E) (g_master_key E) (g_global_token E) True (dg_tenant g)
      (getByTenantId (dg_tenant g) (g_settings E)) (s_resolver s) = (rst, token)" by fastforce
  let ?f = "sendTelegramDigest N (payload_of E token g)"
  have send: "sendTelegramDigest (g_notifier E) (payload_of E token g) (w, l) = logging (SentDigest (dg_chat g)) ?f (w, l)"
    by (simp add: N recorded_def payload_of_def)
  show ?thesis
  proof (cases "dg_items g = [] \<or> \<not> isTelegramEnabled (g_notifier E) token")
    case True
    then show ?thesis using inv by (auto simp: flush_group_def tok Let_def sweep_inv_def)
  next
    case False
    show ?thesis
    proof (rule logging_cases [of "SentDigest (dg_chat g)" ?f w l])
      fix w' e assume "logging (SentDigest (dg_chat g)) ?f (w, l) = ((w', l), Inl e)"
      then show ?thesis using inv False by (simp add: flush_group_def tok Let_def w send sweep_inv_def)
    next
      fix w' assume f: "logging (SentDigest (dg_chat g)) ?f (w, l) = ((w', l @ [SentDigest (dg_chat g)]), Inr ())"
      let ?items = "map (\<lambda>i. (de_item i, de_alert i)) (dg_items g)"
      let ?db = "fst (markTelegramDigestGroupSent (g_now E) ?items (s_db s))"
      have r: "s_db (fst (flush_group E g (s, res))) = ?db"
        "snd (s_world (fst (flush_group E g (s, res)))) = l @ [SentDigest (dg_chat g)]"
        using False f by (simp_all add: flush_group_def tok Let_def w send split: prod.splits)
      have cores: "map item_core (digest_items ?db) = map item_core before"
        using inv by (simp add: group_sent_items mark_items_cores sweep_inv_def)
      have "earned before (l @ [SentDigest (dg_chat g)]) d" if d: "d \<in> set (digest_items ?db)" for d
      proof -
        have old: "earned before (l @ [SentDigest (dg_chat g)]) c" if "c \<in> set (digest_items (s_db s))" for c
          using inv that w by (auto simp: sweep_inv_def earned_def)
        from mark_items_origin [of d "g_now E" "s_db s" ?items] d
        consider "d \<in> set (digest_items (s_db s))"
          | c where "item_id d \<in> fst ` set ?items" "c \<in> set (digest_items (s_db s))" "item_core c = item_core d" "item_sent_at c = None"
          unfolding group_sent_items by blast
        then show ?thesis
        proof cases
          case 1
          then show ?thesis by (rule old)
        next
          case 2
          obtain b where b: "b \<in> set before" "item_id b = item_id d" "item_chat b = dg_chat g"
            using g 2(1) by (auto simp: group_of_table_def)
          obtain b' where b': "b' \<in> set before" "item_core b' = item_core d"
            using core_items [OF cores d] by blast
          have "b' = b" using unique_core [OF ids b'(1) b(1)] b(2) b'(2) by (simp add: item_core_def)
          then have chat: "item_chat d = dg_chat g" using b(3) b'(2) by (simp add: item_core_def)
          have "\<exists>b \<in> set before. item_core b = item_core c \<and> item_sent_at b = None"
            using old [OF 2(2)] 2(4) by (auto simp: earned_def)
          then show ?thesis using chat 2(3) by (simp add: earned_def)
        qed
      qed
      with cores show ?thesis by (simp add: sweep_inv_def r)
    qed
  qed
qed

lemma flush_groups_inv:
  assumes "g_notifier E = recorded N" and "distinct (map item_id before)"
    and "\<forall>g \<in> set gs. group_of_table before g" and "sweep_inv before s"
  shows "sweep_inv before (fst (flush_groups E gs (s, res)))"
  using assms(3,4)
proof (induction gs arbitrary: s res)
  case (Cons g gs)
  obtain s1 r1 where 1: "flush_group E g (s, res) = (s1, r1)" by fastforce
  have "sweep_inv before s1"
    using flush_group_inv [OF assms(1) Cons.prems(2) assms(2), of g res] Cons.prems(1) 1 by simp
  with Cons show ?case by (simp add: 1)
qed simp

section \<open>Properties\<close>

text \<open>
  C15: Whatever happens in a digest sweep, an item that is marked sent by it was unsent before and a
  digest was successfully sent to its chat in this sweep; every other item is exactly as it was.
\<close>

theorem digest_marks_are_earned:
  assumes "g_notifier E = recorded N" and "distinct (map item_id (digest_items (s_db s)))"
    and "snd (s_world s) = []"
    and "ProcessTelegramDigests_execute E maxGroups s = (s', res)"
  shows "\<forall>d \<in> set (digest_items (s_db s')). d \<in> set (digest_items (s_db s)) \<or>
    (SentDigest (item_chat d) \<in> set (snd (s_world s'))
      \<and> (\<exists>c \<in> set (digest_items (s_db s)). item_id c = item_id d \<and> item_sent_at c = None))"
proof -
  let ?before = "digest_items (s_db s)"
  obtain db ids where r: "reconcileTelegramDigestDeliveryStatus (g_now E) (s_db s) = (db, ids)" by fastforce
  then have db: "digest_items db = ?before"
    by (auto simp: reconcileTelegramDigestDeliveryStatus_def Let_def)
  have groups: "\<forall>g \<in> set (listDueTelegramDigestGroups (g_now E) n db). group_of_table ?before g" for n
    using load_groups_of_table by (auto simp: listDueTelegramDigestGroups_def simp flip: db)
  have "sweep_inv ?before s" "sweep_inv ?before (s\<lparr>s_db := db\<rparr>)"
    by (simp_all add: sweep_inv_def earned_def db)
  with flush_groups_inv [OF assms(1,2) groups] assms(4) have "sweep_inv ?before s'"
    by (auto simp: ProcessTelegramDigests_execute_def r split: if_splits) (metis fst_conv)
  then show ?thesis by (auto simp: sweep_inv_def earned_def item_core_def)
qed

section \<open>A concrete sweep\<close>

definition digest_row :: digest_item where
  "digest_row = \<lparr>item_id = 1, item_tenant = ''acme'', item_alert = 1, item_chat = ''7'', scheduled_for = 5,
     item_sent_at = None, item_created_at = 2\<rparr>"

definition digest_sweep :: "(unit \<times> sent_event list) sweep" where
  "digest_sweep = \<lparr>s_db = delivery_db\<lparr>digest_items := [digest_row]\<rparr>, s_resolver = fresh_resolver,
     s_world = ((), [])\<rparr>"

definition digest_env :: "unit notifier \<Rightarrow> (unit \<times> sent_event list) sweep_env" where
  "digest_env N = \<lparr>g_notifier = recorded N, g_crypto = clear_crypto, g_master_key = None,
     g_global_token = Some ''bot'', g_settings = [], g_label = (\<lambda>_. []), g_now = 9\<rparr>"

lemma digest_sweep_run:
  "ProcessTelegramDigests_execute (digest_env (plain_notifier True)) None digest_sweep =
     (digest_sweep\<lparr>s_db := s_db (fst (ProcessTelegramDigests_execute (digest_env (plain_notifier True)) None digest_sweep)),
        s_resolver := fresh_resolver, s_world := ((), [SentDigest ''7''])\<rparr>,
      \<lparr>processedGroups = 1, sentItems = 1, alertsMarkedDelivered = 1\<rparr>)"
  "map item_sent_at (digest_items (s_db (fst (ProcessTelegramDigests_execute (digest_env (plain_notifier True)) None
     digest_sweep)))) = [Some 9]"
  by code_simp+

lemma digest_marks_are_earned_witness:
  "\<exists>s' res. ProcessTelegramDigests_execute (digest_env (plain_notifier True)) None digest_sweep = (s', res)
     \<and> map item_sent_at (digest_items (s_db s')) = [Some 9] \<and> SentDigest ''7'' \<in> set (snd (s_world s'))
     \<and> (\<forall>d \<in> set (digest_items (s_db s')). d \<in> set (digest_items (s_db digest_sweep)) \<or>
          (SentDigest (item_chat d) \<in> set (snd (s_world s'))
           \<and> (\<exists>c \<in> set (digest_items (s_db digest_sweep)). item_id c = item_id d \<and> item_sent_at c = None)))"
proof -
  let ?r = "ProcessTelegramDigests_execute (digest_env (plain_notifier True)) None digest_sweep"
  have "snd (s_world (fst ?r)) = [SentDigest ''7'']" by (subst digest_sweep_run(1)) simp
  moreover have "\<forall>d \<in> set (digest_items (s_db (fst ?r))). d \<in> set (digest_items (s_db digest_sweep)) \<or>
      (SentDigest (item_chat d) \<in> set (snd (s_world (fst ?r)))
       \<and> (\<exists>c \<in> set (digest_items (s_db digest_sweep)). item_id c = item_id d \<and> item_sent_at c = None))"
    by (rule digest_marks_are_earned [of _ "plain_notifier True" _ None _ "snd ?r"])
       (simp_all add: digest_env_def digest_sweep_def digest_row_def)
  ultimately show ?thesis using digest_sweep_run(2) by (intro exI [of _ "fst ?r"] exI [of _ "snd ?r"]) simp
qed

section \<open>Groups that keep failing keep their place\<close>

text \<open>
  A sweep in which no digest can be sent leaves the store as the repair pass left it, so the next sweep
  lists the same groups first: as many failing groups as \<open>maxGroups\<close> hold back every later one, for as
  long as they fail.
\<close>

lemma flush_group_failing:
  assumes "\<And>p w. \<exists>e. snd (sendTelegramDigest (g_notifier E) p w) = Inl e"
  shows "s_db (fst (flush_group E g sr)) = s_db (fst sr) \<and> snd (flush_group E g sr) = snd sr"
proof -
  obtain s res where sr: "sr = (s, res)" by (cases sr)
  obtain rst token where tok: "resolveForTenant (g_crypto E) (g_master_key E) (g_global_token E) True (dg_tenant g)
      (getByTenantId (dg_tenant g) (g_settings E)) (s_resolver s) = (rst, token)" by fastforce
  obtain w e where "sendTelegramDigest (g_notifier E) (payload_of E token g) (s_world s) = (w, Inl e)"
    using assms [of "payload_of E token g" "s_world s"] by (metis prod.collapse)
  then show ?thesis by (simp add: sr flush_group_def tok Let_def)
qed

lemma failing_groups_keep_their_place:
  assumes "\<And>p w. \<exists>e. snd (sendTelegramDigest (g_notifier E) p w) = Inl e" and "isEnabled (g_notifier E)"
    and "ProcessTelegramDigests_execute E maxGroups s = (s', res)"
  shows "processedGroups res = 0
    \<and> s_db s' = fst (reconcileTelegramDigestDeliveryStatus (g_now E) (s_db s))
    \<and> listDueTelegramDigestGroups (g_now E) n (s_db s') =
        listDueTelegramDigestGroups (g_now E) n (fst (reconcileTelegramDigestDeliveryStatus (g_now E) (s_db s)))"
proof -
  have all: "s_db (fst (flush_groups E gs sr)) = s_db (fst sr) \<and> snd (flush_groups E gs sr) = snd sr" for gs sr
    by (induction gs arbitrary: sr) (simp_all add: flush_group_failing [OF assms(1)])
  obtain db ids where r: "reconcileTelegramDigestDeliveryStatus (g_now E) (s_db s) = (db, ids)" by fastforce
  let ?gs = "listDueTelegramDigestGroups (g_now E) (opt_else maxGroups 30) db"
  let ?sr = "(s\<lparr>s_db := db\<rparr>, \<lparr>processedGroups = 0, sentItems = 0, alertsMarkedDelivered = length ids\<rparr>)"
  have "(s', res) = flush_groups E ?gs ?sr"
    using assms(2,3) r by (simp add: ProcessTelegramDigests_execute_def)
  then have "s' = fst (flush_groups E ?gs ?sr)" "res = snd (flush_groups E ?gs ?sr)" by (metis fst_conv, metis snd_conv)
  then have "s_db s' = db" "processedGroups res = 0" using all [of ?gs ?sr] by simp_all
  then show ?thesis by (simp add: r)
qed

end
