(* ===== verification/Spec2Isabelle.thy ===== *)
theory Spec2Isabelle imports Api_Pipeline Env_Config Feed_Fetcher Feed_Validate Opml_Requests Scheduler begin

text \<open>
  FeedPulse, a feed reader service: verification library.
\<close>

end
